(* ===== verification/Prelude.thy ===== *)
theory Prelude
  imports Main "HOL-Library.Sublist" "HOL-Library.AList" "HOL-Library.Char_ord"
    "HOL-Library.List_Lexorder"
begin

text \<open>
  What every component shares: the error values of the program (Go's \<open>error\<close> interface as
  the program meets it), the outcome of a Go call (a value, an error, or a run-time panic),
  and the lemma collections the other theories fill.
\<close>

named_theorems keeps_intros
named_theorems go_defs
named_theorems fs_simps

section \<open>Errors and outcomes\<close>

text \<open>The system call errors the program can meet, with the texts of \<open>syscall.Errno.Error\<close>.\<close>

datatype errno = ENOENT | EACCES | EEXIST | ENOTDIR | EISDIR | EIO

fun errno_text :: "errno \<Rightarrow> string" where
  "errno_text ENOENT = ''no such file or directory''"
| "errno_text EACCES = ''permission denied''"
| "errno_text EEXIST = ''file exists''"
| "errno_text ENOTDIR = ''not a directory''"
| "errno_text EISDIR = ''is a directory''"
| "errno_text EIO = ''input/output error''"

text \<open>
  A Go error value. \<open>PathError op path errno\<close> is \<open>*fs.PathError\<close>; the JSON errors are those
  of \<open>encoding/json\<close> (a type error holds the JSON kind and the Go type, without the field
  context that Go adds to its text); \<open>ErrorString\<close> is \<open>errors.New\<close> and \<open>fmt.Errorf\<close> without
  \<open>%w\<close>; \<open>WrapError\<close> is \<open>fmt.Errorf\<close> with \<open>%w\<close> (its text and what it wraps);
  \<open>ForeignError\<close> is an error made by a third-party package.
\<close>

datatype go_error =
    PathError string string errno
  | JSONSyntaxError string
  | JSONTypeError string string
  | TimeParseError string
  | ErrorString string
  | WrapError string go_error
  | ForeignError string

fun err_text :: "go_error \<Rightarrow> string" where
  "err_text (PathError op p e) = op @ '' '' @ p @ '': '' @ errno_text e"
| "err_text (JSONSyntaxError m) = m"
| "err_text (JSONTypeError v t) =
     ''json: cannot unmarshal '' @ v @ '' into Go value of type '' @ t"
| "err_text (TimeParseError v) = ''parsing time '' @ v"
| "err_text (ErrorString m) = m"
| "err_text (WrapError m e) = m"
| "err_text (ForeignError m) = m"

text \<open>\<open>errors.Is (err, os.ErrNotExist)\<close>: only \<open>ENOENT\<close> counts, through any wrapping.\<close>

fun is_not_exist :: "go_error \<Rightarrow> bool" where
  "is_not_exist (PathError op p e) = (e = ENOENT)"
| "is_not_exist (WrapError m e) = is_not_exist e"
| "is_not_exist _ = False"

text \<open>The run-time panics the program can raise.\<close>

datatype go_panic = NilDereference | IndexOutOfRange nat nat | FlagRedefined string

datatype 'a res = Ok 'a | Err go_error | Panic go_panic

fun is_ok :: "'a res \<Rightarrow> bool" where
  "is_ok (Ok a) = True"
| "is_ok _ = False"

fun res_map :: "('a \<Rightarrow> 'b) \<Rightarrow> 'a res \<Rightarrow> 'b res" where
  "res_map f (Ok a) = Ok (f a)"
| "res_map f (Err e) = Err e"
| "res_map f (Panic p) = Panic p"

text \<open>Sequencing without effects\<close>

lemma res_map_Ok:
  "res_map f r = Ok b \<longleftrightarrow> (\<exists>a. r = Ok a \<and> b = f a)"
  "Ok b = res_map f r \<longleftrightarrow> (\<exists>a. r = Ok a \<and> b = f a)"
  by (cases r; auto)+

definition res_bind :: "'a res \<Rightarrow> ('a \<Rightarrow> 'b res) \<Rightarrow> 'b res" where
  "res_bind r k = (case r of Ok a \<Rightarrow> k a | Err e \<Rightarrow> Err e | Panic p \<Rightarrow> Panic p)"

lemma res_bind_simps [simp]:
  "res_bind (Ok a) k = k a" "res_bind (Err e) k = Err e" "res_bind (Panic p) k = Panic p"
  by (simp_all add: res_bind_def)

lemma is_ok_iff: "is_ok r \<longleftrightarrow> (\<exists>a. r = Ok a)"
  by (cases r) auto

text \<open>Go's slice indexing \<open>xs[i]\<close>: out of range is a panic.\<close>

definition slice_at :: "'a list \<Rightarrow> nat \<Rightarrow> 'a res" where
  "slice_at xs i = (if i < length xs then Ok (xs ! i) else Panic (IndexOutOfRange i (length xs)))"

section \<open>Generic list lemmas\<close>

lemma prefix_append_cases:
  "prefix p (a @ b) \<Longrightarrow> prefix p a \<or> (\<exists>d. p = a @ d \<and> prefix d b)"
  by (auto simp: prefix_append)

lemma not_prefix_snocD: "\<not> prefix b q \<Longrightarrow> prefix b (q @ [c]) \<Longrightarrow> b = q @ [c]"
  by auto

lemma filter_concat_map: "filter P (concat xss) = concat (map (filter P) xss)"
  by (induction xss) auto

lemma list_all2_mem: "list_all2 P xs ys \<Longrightarrow> x \<in> set xs \<Longrightarrow> \<exists>y. P x y"
  by (auto simp: list_all2_conv_all_nth in_set_conv_nth)

lemma map_of_update_other: "q \<noteq> p \<Longrightarrow> map_of (AList.update p v al) q = map_of al q"
  by (simp add: update_conv')

lemma map_of_update_same [simp]: "map_of (AList.update p v al) p = Some v"
  by (simp add: update_conv')

end
