(* ===== verification/World.thy ===== *)
theory World
  imports GoStrings
begin

text \<open>
  The state every operation of the program acts on, and computations over it. A Go function
  with effects is a function from the world to an outcome and the next world. \<open>keeps R m\<close>
  says that every run of \<open>m\<close> relates the world before and after by \<open>R\<close>; the rules in
  \<open>keeps_intros\<close> prove it along the structure of a program, for any reflexive and
  transitive \<open>R\<close>.
\<close>

section \<open>The world\<close>

type_synonym path = "string list"

datatype node = Dir | File string

datatype sysop = SysStat | SysOpen | SysCreate | SysMkdir | SysReadDir | SysRemove | SysWrite

text \<open>
  \<open>fs\<close> lists the files and directories by their absolute path (the root is always there);
  \<open>faults\<close> says which system calls the operating system refuses (permissions, bad media);
  \<open>level\<close> is the level of the one logger every component holds a pointer to; \<open>stderr\<close> and
  \<open>stdout\<close> are the lines written so far; \<open>net\<close> lists the calls of \<open>copy.Image\<close> made so far
  (source, destination); \<open>clock\<close> is the time in nanoseconds.
\<close>

record world =
  fs :: "(path \<times> node) list"
  cwd :: path
  faults :: "sysop \<Rightarrow> path \<Rightarrow> errno option"
  level :: string
  stderr :: "string list"
  stdout :: "string list"
  net :: "(string \<times> string) list"
  clock :: int

definition entry :: "world \<Rightarrow> path \<Rightarrow> node option" where
  "entry w q = (if q = [] then Some Dir else map_of (fs w) q)"

section \<open>Computations\<close>

type_synonym 'a go = "world \<Rightarrow> 'a res \<times> world"

definition go_return :: "'a \<Rightarrow> 'a go" where
  "go_return a = (\<lambda>w. (Ok a, w))"

definition go_fail :: "go_error \<Rightarrow> 'a go" where
  "go_fail e = (\<lambda>w. (Err e, w))"

definition go_lift :: "'a res \<Rightarrow> 'a go" where
  "go_lift r = (\<lambda>w. (r, w))"

definition go_read :: "(world \<Rightarrow> 'a res) \<Rightarrow> 'a go" where
  "go_read f = (\<lambda>w. (f w, w))"

text \<open>\<open>x, err := m; if err != nil { return err }; k\<close>\<close>

definition go_bind :: "'a go \<Rightarrow> ('a \<Rightarrow> 'b go) \<Rightarrow> 'b go" where
  "go_bind m k = (\<lambda>w. case m w of
     (Ok a, w') \<Rightarrow> k a w'
   | (Err e, w') \<Rightarrow> (Err e, w')
   | (Panic p, w') \<Rightarrow> (Panic p, w'))"

text \<open>\<open>x, err := m; k\<close>, where \<open>k\<close> looks at \<open>err\<close> itself\<close>

definition go_try :: "'a go \<Rightarrow> (go_error + 'a \<Rightarrow> 'b go) \<Rightarrow> 'b go" where
  "go_try m k = (\<lambda>w. case m w of
     (Ok a, w') \<Rightarrow> k (Inr a) w'
   | (Err e, w') \<Rightarrow> k (Inl e) w'
   | (Panic p, w') \<Rightarrow> (Panic p, w'))"

definition go_seq :: "unit go \<Rightarrow> 'b go \<Rightarrow> 'b go" where
  "go_seq m k = go_bind m (\<lambda>_. k)"

text \<open>\<open>for _, x := range xs { body x }\<close>, with a \<open>return err\<close> in the body leaving the loop\<close>

fun go_for :: "'a list \<Rightarrow> ('a \<Rightarrow> unit go) \<Rightarrow> unit go" where
  "go_for [] body = go_return ()"
| "go_for (x # xs) body = go_bind (body x) (\<lambda>_. go_for xs body)"

lemmas go_core_defs = go_return_def go_fail_def go_lift_def go_read_def go_bind_def go_try_def
  go_seq_def

declare go_core_defs [go_defs]

lemma go_bind_run:
  "m w = (Ok a, w') \<Longrightarrow> go_bind m k w = k a w'"
  "m w = (Err e, w') \<Longrightarrow> go_bind m k w = (Err e, w')"
  "m w = (Panic p, w') \<Longrightarrow> go_bind m k w = (Panic p, w')"
  by (simp_all add: go_bind_def)

lemma go_bind_return [simp]: "go_bind (go_return a) k = k a"
  by (simp add: go_bind_def go_return_def)

lemma go_bind_lift [simp]: "go_bind (go_lift (Ok a)) k = k a"
  by (simp add: go_bind_def go_lift_def)

lemma go_bind_fail [simp]: "go_bind (go_fail e) k = go_fail e"
  by (simp add: go_bind_def go_fail_def)

lemma go_bind_assoc: "go_bind (go_bind m k) h = go_bind m (\<lambda>a. go_bind (k a) h)"
  by (rule ext) (simp add: go_bind_def split: res.splits prod.splits)

lemma go_for_append:
  "go_for (xs @ ys) body = go_bind (go_for xs body) (\<lambda>_. go_for ys body)"
  by (induction xs) (simp_all add: go_bind_assoc)

section \<open>Two-world relations kept by a computation\<close>

definition keeps :: "(world \<Rightarrow> world \<Rightarrow> bool) \<Rightarrow> 'a go \<Rightarrow> bool" where
  "keeps R m \<longleftrightarrow> (\<forall>w. R w (snd (m w)))"

lemma keepsI: "(\<And>w. R w (snd (m w))) \<Longrightarrow> keeps R m"
  by (simp add: keeps_def)

lemma keepsD: "keeps R m \<Longrightarrow> m w = (r, w') \<Longrightarrow> R w w'"
  unfolding keeps_def by (metis snd_conv)

text \<open>The computation keeps \<open>R\<close>, and its result satisfies \<open>Q\<close>.\<close>

definition keeps_ens :: "(world \<Rightarrow> world \<Rightarrow> bool) \<Rightarrow> ('a \<Rightarrow> bool) \<Rightarrow> 'a go \<Rightarrow> bool" where
  "keeps_ens R Q m \<longleftrightarrow> keeps R m \<and> (\<forall>w a. fst (m w) = Ok a \<longrightarrow> Q a)"

lemma keeps_ensD: "keeps_ens R Q m \<Longrightarrow> keeps R m" "keeps_ens R Q m \<Longrightarrow> m w = (Ok a, w') \<Longrightarrow> Q a"
proof -
  show "keeps R m" if "keeps_ens R Q m" using that by (simp add: keeps_ens_def)
  show "Q a" if "keeps_ens R Q m" "m w = (Ok a, w')"
  proof -
    have "fst (m w) = Ok a" using that(2) by simp
    then show ?thesis using that(1) unfolding keeps_ens_def by blast
  qed
qed

lemma keeps_ensI:
  assumes "keeps R m" "\<And>w a w'. m w = (Ok a, w') \<Longrightarrow> Q a"
  shows "keeps_ens R Q m"
  unfolding keeps_ens_def using assms(1)
proof (intro conjI allI impI)
  show "Q a" if "fst (m w) = Ok a" for w a
    using assms(2) [of w a "snd (m w)"] that by (simp add: prod_eq_iff)
qed

lemma go_bind_Ok:
  assumes "go_bind m k w = (Ok b, w')"
  obtains a w1 where "m w = (Ok a, w1)" "k a w1 = (Ok b, w')"
  using assms by (auto simp: go_bind_def split: prod.splits res.splits)

locale world_relation =
  fixes R :: "world \<Rightarrow> world \<Rightarrow> bool"
  assumes refl: "R w w"
    and trans: "R w1 w2 \<Longrightarrow> R w2 w3 \<Longrightarrow> R w1 w3"
begin

lemma keeps_return: "keeps R (go_return a)"
  by (simp add: keeps_def go_return_def refl)

lemma keeps_fail: "keeps R (go_fail e)"
  by (simp add: keeps_def go_fail_def refl)

lemma keeps_lift: "keeps R (go_lift r)"
  by (simp add: keeps_def go_lift_def refl)

lemma keeps_read: "keeps R (go_read f)"
  by (simp add: keeps_def go_read_def refl)

lemma keeps_then: "keeps R m \<Longrightarrow> m w = (r, w') \<Longrightarrow> keeps R k \<Longrightarrow> R w (snd (k w'))"
  by (rule trans [OF keepsD]) (auto simp: keeps_def)

lemma keeps_bind: "keeps R m \<Longrightarrow> (\<And>a. keeps R (k a)) \<Longrightarrow> keeps R (go_bind m k)"
  by (rule keepsI, unfold go_bind_def)
    (auto split: prod.splits res.splits intro: keepsD keeps_then)

lemma keeps_try: "keeps R m \<Longrightarrow> (\<And>a. keeps R (k a)) \<Longrightarrow> keeps R (go_try m k)"
  by (rule keepsI, unfold go_try_def)
    (auto split: prod.splits res.splits intro: keepsD keeps_then)

lemma keeps_seq: "keeps R m \<Longrightarrow> keeps R k \<Longrightarrow> keeps R (go_seq m k)"
  unfolding go_seq_def by (rule keeps_bind)

lemma keeps_for: "(\<And>x. x \<in> set xs \<Longrightarrow> keeps R (body x)) \<Longrightarrow> keeps R (go_for xs body)"
  by (induction xs) (simp_all add: keeps_return keeps_bind)

text \<open>The continuation is only run on a result the first part ensures.\<close>

lemma ens_return: "Q a \<Longrightarrow> keeps_ens R Q (go_return a)"
  by (rule keeps_ensI [OF keeps_return]) (simp add: go_return_def)

lemma ens_fail: "keeps_ens R Q (go_fail e)"
  by (rule keeps_ensI [OF keeps_fail]) (simp add: go_fail_def)

lemma keeps_bind_ens:
  assumes "keeps_ens R Q m" "\<And>a. Q a \<Longrightarrow> keeps R (k a)"
  shows "keeps R (go_bind m k)"
proof (rule keepsI)
  fix w
  obtain r w1 where m: "m w = (r, w1)" by fastforce
  have R1: "R w w1" by (rule keepsD [OF keeps_ensD(1) [OF assms(1)] m])
  show "R w (snd (go_bind m k w))"
  proof (cases r)
    case (Ok a)
    then have "Q a" using keeps_ensD(2) [OF assms(1)] m by blast
    then have "R w1 (snd (k a w1))" using assms(2) by (simp add: keeps_def)
    then show ?thesis using trans [OF R1] m Ok by (simp add: go_bind_def)
  qed (use R1 m in \<open>simp_all add: go_bind_def\<close>)
qed

lemma ens_bind:
  assumes "keeps_ens R Q m" "\<And>a. Q a \<Longrightarrow> keeps_ens R S (k a)"
  shows "keeps_ens R S (go_bind m k)"
proof (rule keeps_ensI)
  show "keeps R (go_bind m k)"
    using assms(1) by (rule keeps_bind_ens) (rule keeps_ensD(1) [OF assms(2)])
  fix w b w' assume "go_bind m k w = (Ok b, w')"
  then obtain a w1 where 1: "m w = (Ok a, w1)" "k a w1 = (Ok b, w')" by (rule go_bind_Ok)
  show "S b"
    by (rule keeps_ensD(2) [OF assms(2) 1(2)]) (rule keeps_ensD(2) [OF assms(1) 1(1)])
qed

lemma ens_try:
  assumes "keeps_ens R Q m" "\<And>e. keeps_ens R S (k (Inl e))" "\<And>a. Q a \<Longrightarrow> keeps_ens R S (k (Inr a))"
  shows "keeps_ens R S (go_try m k)"
proof -
  let ?m = "go_try m (\<lambda>r. go_return r)"
  have "keeps_ens R (\<lambda>r. \<forall>a. r = Inr a \<longrightarrow> Q a) ?m"
  proof (rule keeps_ensI)
    show "keeps R ?m" using keeps_ensD(1) [OF assms(1)] by (rule keeps_try) (rule keeps_return)
    show "\<forall>a. r = Inr a \<longrightarrow> Q a" if "?m w = (Ok r, w')" for w r w'
      using that keeps_ensD(2) [OF assms(1)]
      by (auto simp: go_try_def go_return_def split: prod.splits res.splits)
  qed
  moreover have "go_try m k = go_bind ?m k"
    by (rule ext) (simp add: go_try_def go_bind_def go_return_def split: prod.split res.split)
  moreover have "keeps_ens R S (k r)" if "\<forall>a. r = Inr a \<longrightarrow> Q a" for r
    using that assms(2,3) by (cases r) simp_all
  ultimately show ?thesis by (simp add: ens_bind)
qed

lemma ens_seq: "keeps R m \<Longrightarrow> keeps_ens R S k \<Longrightarrow> keeps_ens R S (go_seq m k)"
  unfolding go_seq_def by (rule ens_bind [where Q = "\<lambda>_. True"]) (auto intro: keeps_ensI)

lemmas keeps_rules = keeps_return keeps_fail keeps_lift keeps_read keeps_bind keeps_try
  keeps_seq keeps_for

end

text \<open>
  The relations the development uses: nothing but the output changed; no image was copied;
  the files and directories outside a region are as before. The region may depend on the
  working directory, which no operation changes.
\<close>

definition same_files :: "world \<Rightarrow> world \<Rightarrow> bool" where
  "same_files w w' \<longleftrightarrow> fs w' = fs w \<and> cwd w' = cwd w \<and> faults w' = faults w"

definition no_copies :: "world \<Rightarrow> world \<Rightarrow> bool" where
  "no_copies w w' \<longleftrightarrow> net w' = net w"

definition changes_only :: "(path \<Rightarrow> path \<Rightarrow> bool) \<Rightarrow> world \<Rightarrow> world \<Rightarrow> bool" where
  "changes_only P w w' \<longleftrightarrow> cwd w' = cwd w \<and> faults w' = faults w \<and>
     (\<forall>q. \<not> P (cwd w) q \<longrightarrow> entry w' q = entry w q)"

text \<open>The same, seen from one working directory.\<close>

definition changes_at :: "path \<Rightarrow> (path \<Rightarrow> bool) \<Rightarrow> world \<Rightarrow> world \<Rightarrow> bool" where
  "changes_at d P w w' \<longleftrightarrow> cwd w' = cwd w \<and> faults w' = faults w \<and>
     (cwd w = d \<longrightarrow> (\<forall>q. \<not> P q \<longrightarrow> entry w' q = entry w q))"

text \<open>Nothing that existed is gone, and no directory has become a file.\<close>

definition dirs_grow :: "world \<Rightarrow> world \<Rightarrow> bool" where
  "dirs_grow w w' \<longleftrightarrow> cwd w' = cwd w \<and> faults w' = faults w \<and>
     (\<forall>q. entry w q = Some Dir \<longrightarrow> entry w' q = Some Dir)"

text \<open>Every file and directory lies in a directory.\<close>

definition fs_wf :: "world \<Rightarrow> bool" where
  "fs_wf w \<longleftrightarrow> (\<forall>q. entry w q \<noteq> None \<longrightarrow> entry w (butlast q) = Some Dir)"

definition keeps_wf :: "world \<Rightarrow> world \<Rightarrow> bool" where
  "keeps_wf w w' \<longleftrightarrow> (fs_wf w \<longrightarrow> fs_wf w')"

interpretation same_files: world_relation same_files
  by unfold_locales (auto simp: same_files_def)

interpretation no_copies: world_relation no_copies
  by unfold_locales (auto simp: no_copies_def)

interpretation changes: world_relation "changes_only P" for P
  by unfold_locales (auto simp: changes_only_def)

interpretation changes_at: world_relation "changes_at d P" for d P
  by unfold_locales (auto simp: changes_at_def)

interpretation dirs: world_relation dirs_grow
  by unfold_locales (auto simp: dirs_grow_def)

interpretation wf: world_relation keeps_wf
  by unfold_locales (auto simp: keeps_wf_def)

text \<open>The directory at \<open>q\<close> stays one (for the worlds whose working directory is \<open>d\<close>).\<close>

definition keeps_dir :: "path \<Rightarrow> path \<Rightarrow> world \<Rightarrow> world \<Rightarrow> bool" where
  "keeps_dir d q w w' \<longleftrightarrow> cwd w' = cwd w \<and> faults w' = faults w \<and>
     (cwd w = d \<longrightarrow> entry w q = Some Dir \<longrightarrow> entry w' q = Some Dir)"

interpretation stays_dir: world_relation "keeps_dir d q" for d q
  by unfold_locales (auto simp: keeps_dir_def)

declare same_files.keeps_rules [keeps_intros] no_copies.keeps_rules [keeps_intros]
  changes.keeps_rules [keeps_intros] changes_at.keeps_rules [keeps_intros] dirs.keeps_rules [keeps_intros] wf.keeps_rules [keeps_intros]

lemma same_files_entry: "same_files w w' \<Longrightarrow> entry w' = entry w"
  by (simp add: same_files_def entry_def fun_eq_iff)

lemma same_files_changes: "same_files w w' \<Longrightarrow> changes_only P w w'"
  by (simp add: changes_only_def same_files_entry) (simp add: same_files_def)

lemma same_files_dirs: "same_files w w' \<Longrightarrow> dirs_grow w w'"
  by (simp add: dirs_grow_def same_files_entry) (simp add: same_files_def)

lemma same_files_wf: "same_files w w' \<Longrightarrow> keeps_wf w w'"
  by (simp add: keeps_wf_def fs_wf_def same_files_entry)

lemma keeps_mono: "keeps R m \<Longrightarrow> (\<And>w w'. R w w' \<Longrightarrow> S w w') \<Longrightarrow> keeps S m"
  unfolding keeps_def by blast

lemma keeps_same_files_changes: "keeps same_files m \<Longrightarrow> keeps (changes_only P) m"
  by (simp add: keeps_def same_files_changes)

lemma keeps_same_files_dirs: "keeps same_files m \<Longrightarrow> keeps dirs_grow m"
  by (simp add: keeps_def same_files_dirs)

lemma keeps_same_files_wf: "keeps same_files m \<Longrightarrow> keeps keeps_wf m"
  by (simp add: keeps_def same_files_wf)

lemma dirs_keeps_dir: "keeps dirs_grow m \<Longrightarrow> keeps (keeps_dir d q) m"
  by (auto simp: keeps_def dirs_grow_def keeps_dir_def)

lemma same_files_keeps_dir: "keeps same_files m \<Longrightarrow> keeps (keeps_dir d q) m"
  by (intro dirs_keeps_dir keeps_same_files_dirs)

lemma changes_keeps_dir: "keeps (changes_only P) m \<Longrightarrow> \<not> P d q \<Longrightarrow> keeps (keeps_dir d q) m"
  by (auto simp: keeps_def changes_only_def keeps_dir_def)

lemma keeps_changes_mono:
  "keeps (changes_only P) m \<Longrightarrow> (\<And>d q. P d q \<Longrightarrow> Q d q) \<Longrightarrow> keeps (changes_only Q) m"
  unfolding keeps_def changes_only_def by blast

lemma keeps_changes_at:
  "keeps (changes_only P) m \<Longrightarrow> (\<And>q. P d q \<Longrightarrow> Q q) \<Longrightarrow> keeps (changes_at d Q) m"
  unfolding keeps_def changes_only_def changes_at_def by blast

lemma same_files_at: "keeps same_files m \<Longrightarrow> keeps (changes_at d P) m"
  using keeps_changes_at [of "\<lambda>_ _. False", OF keeps_same_files_changes] by blast

lemma changes_only_at: "(\<And>d. changes_at d (P d) w w') \<Longrightarrow> changes_only P w w'"
  unfolding changes_only_def changes_at_def by blast

lemma changes_only_mono:
  "changes_only P w w' \<Longrightarrow> (\<And>q. P (cwd w) q \<Longrightarrow> Q (cwd w) q) \<Longrightarrow> changes_only Q w w'"
  unfolding changes_only_def by blast

section \<open>Computations that never panic\<close>

definition no_panic :: "'a go \<Rightarrow> bool" where
  "no_panic m \<longleftrightarrow> (\<forall>w. \<forall>x. fst (m w) \<noteq> Panic x)"

named_theorems safe_intros

lemma no_panicI: "(\<And>w x. fst (m w) \<noteq> Panic x) \<Longrightarrow> no_panic m"
  by (simp add: no_panic_def)

lemma no_panicD: "no_panic m \<Longrightarrow> m w = (r, w') \<Longrightarrow> r \<noteq> Panic x"
  unfolding no_panic_def by (metis fst_conv)

lemma no_panic_return [safe_intros]: "no_panic (go_return a)"
  by (simp add: no_panic_def go_return_def)

lemma no_panic_fail [safe_intros]: "no_panic (go_fail e)"
  by (simp add: no_panic_def go_fail_def)

lemma no_panic_read [safe_intros]: "(\<And>w x. f w \<noteq> Panic x) \<Longrightarrow> no_panic (go_read f)"
  by (simp add: no_panic_def go_read_def)

lemma no_panic_lift: "(\<And>x. r \<noteq> Panic x) \<Longrightarrow> no_panic (go_lift r)"
  by (simp add: no_panic_def go_lift_def)

lemma no_panic_bind [safe_intros]:
  "no_panic m \<Longrightarrow> (\<And>a. no_panic (k a)) \<Longrightarrow> no_panic (go_bind m k)"
  by (rule no_panicI, unfold go_bind_def)
    (auto split: prod.splits res.splits dest: no_panicD, auto simp: no_panic_def)

lemma no_panic_try [safe_intros]:
  "no_panic m \<Longrightarrow> (\<And>a. no_panic (k a)) \<Longrightarrow> no_panic (go_try m k)"
  by (rule no_panicI, unfold go_try_def)
    (auto split: prod.splits res.splits dest: no_panicD, auto simp: no_panic_def)

lemma no_panic_seq [safe_intros]: "no_panic m \<Longrightarrow> no_panic k \<Longrightarrow> no_panic (go_seq m k)"
  unfolding go_seq_def by (rule no_panic_bind)

lemma no_panic_for [safe_intros]: "(\<And>x. no_panic (body x)) \<Longrightarrow> no_panic (go_for xs body)"
  by (induction xs) (simp_all add: no_panic_return no_panic_bind)

end
