(* ===== verification/GoOS.thy ===== *)
theory GoOS
  imports World
begin

text \<open>
  The operations of Go's \<open>os\<close> package that the program uses, over the file system of the
  world: path resolution as the kernel does it (component by component, each one but the last
  a directory, \<open>..\<close> going up), \<open>Stat\<close>, \<open>ReadFile\<close>, \<open>Open\<close>, \<open>ReadDir\<close>, \<open>Create\<close>,
  \<open>MkdirAll\<close> and \<open>RemoveAll\<close>, with the error each gives. Symbolic links are not modelled.
  For every operation the lemmas say what it can change.
\<close>

section \<open>Paths\<close>

definition comps :: "string \<Rightarrow> string list" where
  "comps p = filter (\<lambda>c. c \<noteq> [] \<and> c \<noteq> ''.'') (Split p CHR ''/'')"

definition start_dir :: "world \<Rightarrow> string \<Rightarrow> path" where
  "start_dir w p = (if HasPrefix p ''/'' then [] else cwd w)"

fun walk :: "world \<Rightarrow> path \<Rightarrow> string list \<Rightarrow> errno + path" where
  "walk w cur [] = Inr cur"
| "walk w cur (c # cs) =
     (case entry w cur of
        None \<Rightarrow> Inl ENOENT
      | Some (File _) \<Rightarrow> Inl ENOTDIR
      | Some Dir \<Rightarrow> walk w (if c = ''..'' then butlast cur else cur @ [c]) cs)"

definition locate :: "world \<Rightarrow> string \<Rightarrow> errno + path" where
  "locate w p = (if p = [] then Inl ENOENT else walk w (start_dir w p) (comps p))"

text \<open>A path is plain when it has no \<open>..\<close>; then it names the place it spells.\<close>

definition plain :: "string \<Rightarrow> bool" where
  "plain p \<longleftrightarrow> ''..'' \<notin> set (comps p)"

definition place :: "path \<Rightarrow> string \<Rightarrow> path" where
  "place d p = (if HasPrefix p ''/'' then [] else d) @ comps p"

lemma comps_append: "comps (a @ ''/'' @ b) = comps a @ comps b"
  by (simp add: comps_def Split_append_sep)

lemma comps_append_slash: "comps (a @ CHR ''/'' # b) = comps a @ comps b"
  using comps_append [of a b] by simp

lemma comps_Join: "comps (Join ws ''/'') = concat (map comps ws)"
proof (induction ws)
  case Nil
  then show ?case by (simp add: comps_def)
next
  case (Cons w ws)
  then show ?case by (cases "ws = []") (simp_all add: Join_Cons comps_append_slash)
qed

lemma plain_append: "plain (a @ CHR ''/'' # b) \<longleftrightarrow> plain a \<and> plain b"
  by (auto simp: plain_def comps_append_slash)

lemma place_append:
  "a \<noteq> [] \<Longrightarrow> place d (a @ CHR ''/'' # b) = place d a @ comps b"
  by (simp add: place_def HasPrefix_def comps_append_slash) (cases a; simp)

lemma comps_single: "CHR ''/'' \<notin> set c \<Longrightarrow> c \<noteq> [] \<Longrightarrow> c \<noteq> ''.'' \<Longrightarrow> comps c = [c]"
  by (simp add: comps_def Split_none)

lemma walk_plain: "''..'' \<notin> set cs \<Longrightarrow> walk w cur cs = Inr q \<Longrightarrow> q = cur @ cs"
  by (induction cs arbitrary: cur) (fastforce split: option.splits node.splits)+

lemma locate_plain: "plain p \<Longrightarrow> locate w p = Inr q \<Longrightarrow> q = place (cwd w) p"
  by (auto simp: locate_def plain_def place_def start_dir_def dest: walk_plain split: if_splits)

lemma walk_same_entries: "entry w' = entry w \<Longrightarrow> walk w' cur cs = walk w cur cs"
  by (induction cs arbitrary: cur) (simp_all split: option.splits node.splits)

lemma locate_same_files: "same_files w w' \<Longrightarrow> locate w' p = locate w p"
proof -
  assume s: "same_files w w'"
  then have "start_dir w' p = start_dir w p" by (simp add: start_dir_def same_files_def)
  then show ?thesis by (simp add: locate_def walk_same_entries [OF same_files_entry [OF s]])
qed

text \<open>The walk to a place reads only the entries on the way to it.\<close>

lemma walk_local:
  assumes "''..'' \<notin> set cs" and "\<And>q. prefix cur q \<Longrightarrow> strict_prefix q (cur @ cs) \<Longrightarrow> entry w' q = entry w q"
  shows "walk w' cur cs = walk w cur cs"
  using assms
proof (induction cs arbitrary: cur)
  case (Cons c cs)
  have "entry w' cur = entry w cur" by (rule Cons.prems(2)) (auto simp: strict_prefix_def)
  moreover have "walk w' (cur @ [c]) cs = walk w (cur @ [c]) cs"
    by (rule Cons.IH) (use Cons.prems in \<open>auto intro: append_prefixD\<close>)
  ultimately show ?case using Cons.prems(1) by (auto split: option.splits node.splits)
qed simp

lemma walk_missing:
  assumes "''..'' \<notin> set (cs @ ds)" "walk w cur cs = Inl e"
  shows "walk w cur (cs @ ds) = Inl e"
  using assms by (induction cs arbitrary: cur) (auto split: option.splits node.splits)

lemma walk_append:
  "walk w cur (cs @ ds) = (case walk w cur cs of Inl e \<Rightarrow> Inl e | Inr q \<Rightarrow> walk w q ds)"
  by (induction cs arbitrary: cur) (auto split: option.splits node.splits)

section \<open>Entries\<close>

definition set_entry :: "path \<Rightarrow> node \<Rightarrow> world \<Rightarrow> world" where
  "set_entry q n w = w\<lparr>fs := AList.update q n (fs w)\<rparr>"

lemma set_entry_fields [simp]:
  "cwd (set_entry q n w) = cwd w" "faults (set_entry q n w) = faults w"
  "level (set_entry q n w) = level w" "stderr (set_entry q n w) = stderr w"
  "stdout (set_entry q n w) = stdout w" "net (set_entry q n w) = net w"
  "clock (set_entry q n w) = clock w"
  by (simp_all add: set_entry_def)

lemma entry_set_entry:
  "entry (set_entry q n w) r = (if r = q \<and> q \<noteq> [] then Some n else entry w r)"
  by (cases "r = q") (simp_all add: entry_def set_entry_def map_of_update_other)

lemma entry_root [simp]: "entry w [] = Some Dir"
  by (simp add: entry_def)

lemma changes_only_set_entry: "P (cwd w) q \<Longrightarrow> changes_only P w (set_entry q n w)"
  by (auto simp: changes_only_def entry_set_entry)

lemma no_copies_set_entry: "no_copies w (set_entry q n w)"
  by (simp add: no_copies_def)

lemma dirs_grow_set_entry: "entry w q \<noteq> Some Dir \<or> n = Dir \<Longrightarrow> dirs_grow w (set_entry q n w)"
  by (auto simp: dirs_grow_def entry_set_entry)

lemma keeps_wf_set_entry:
  "entry w q \<noteq> Some Dir \<or> n = Dir \<Longrightarrow> entry w (butlast q) = Some Dir \<Longrightarrow> keeps_wf w (set_entry q n w)"
  by (auto simp: keeps_wf_def fs_wf_def entry_set_entry split: if_splits)

section \<open>Reading\<close>

definition sys_at :: "sysop \<Rightarrow> string \<Rightarrow> string \<Rightarrow> world \<Rightarrow> go_error + path" where
  "sys_at op verb p w =
     (case locate w p of
        Inl e \<Rightarrow> Inl (PathError verb p e)
      | Inr q \<Rightarrow> (case faults w op q of Some e \<Rightarrow> Inl (PathError verb p e) | None \<Rightarrow> Inr q))"

definition os_Stat :: "string \<Rightarrow> world \<Rightarrow> node res" where
  "os_Stat p w =
     (case sys_at SysStat ''stat'' p w of
        Inl e \<Rightarrow> Err e
      | Inr q \<Rightarrow> (case entry w q of None \<Rightarrow> Err (PathError ''stat'' p ENOENT) | Some n \<Rightarrow> Ok n))"

text \<open>An opened file: reading a directory is what fails, not opening it.\<close>

definition os_Open :: "string \<Rightarrow> world \<Rightarrow> (string \<times> node) res" where
  "os_Open p w =
     (case sys_at SysOpen ''open'' p w of
        Inl e \<Rightarrow> Err e
      | Inr q \<Rightarrow> (case entry w q of None \<Rightarrow> Err (PathError ''open'' p ENOENT) | Some n \<Rightarrow> Ok (p, n)))"

fun read_all :: "string \<times> node \<Rightarrow> string res" where
  "read_all (p, File s) = Ok s"
| "read_all (p, Dir) = Err (PathError ''read'' p EISDIR)"

definition os_ReadFile :: "string \<Rightarrow> world \<Rightarrow> string res" where
  "os_ReadFile p w = (case os_Open p w of Ok f \<Rightarrow> read_all f | Err e \<Rightarrow> Err e | Panic x \<Rightarrow> Panic x)"

text \<open>The names in a directory, sorted by file name as \<open>os.ReadDir\<close> returns them.\<close>

definition dir_names :: "(path \<times> node) list \<Rightarrow> path \<Rightarrow> string list" where
  "dir_names al d =
     sort (remdups (map (\<lambda>(q, n). last q) (filter (\<lambda>(q, n). q \<noteq> [] \<and> butlast q = d) al)))"

definition os_ReadDir :: "string \<Rightarrow> world \<Rightarrow> string list res" where
  "os_ReadDir p w =
     (case sys_at SysReadDir ''open'' p w of
        Inl e \<Rightarrow> Err e
      | Inr q \<Rightarrow>
         (case entry w q of
            None \<Rightarrow> Err (PathError ''open'' p ENOENT)
          | Some (File _) \<Rightarrow> Err (PathError ''readdirent'' p ENOTDIR)
          | Some Dir \<Rightarrow> Ok (dir_names (fs w) q)))"

lemma os_Stat_no_panic: "os_Stat p w \<noteq> Panic x"
  by (auto simp: os_Stat_def split: sum.splits option.splits)

lemma os_Open_no_panic: "os_Open p w \<noteq> Panic x"
  by (auto simp: os_Open_def split: sum.splits option.splits)

lemma read_all_no_panic: "read_all f \<noteq> Panic x"
  by (cases f rule: read_all.cases) auto

lemma os_ReadFile_no_panic: "os_ReadFile p w \<noteq> Panic x"
  by (auto simp: os_ReadFile_def os_Open_no_panic read_all_no_panic split: res.splits)

lemma os_ReadDir_no_panic: "os_ReadDir p w \<noteq> Panic x"
  by (auto simp: os_ReadDir_def split: sum.splits option.splits node.splits)

lemma sys_at_Inr: "sys_at op verb p w = Inr q \<Longrightarrow> locate w p = Inr q \<and> faults w op q = None"
  by (auto simp: sys_at_def split: sum.splits option.splits)

lemma os_ReadFile_Ok:
  "os_ReadFile p w = Ok s \<longleftrightarrow>
     (\<exists>q. locate w p = Inr q \<and> faults w SysOpen q = None \<and> entry w q = Some (File s))"
  by (auto simp: os_ReadFile_def os_Open_def sys_at_def
      split: sum.splits option.splits node.splits elim!: read_all.elims)

lemma dir_names_sorted: "sorted (dir_names al d)"
  by (simp add: dir_names_def)

lemma os_ReadDir_sorted: "os_ReadDir p w = Ok names \<Longrightarrow> sorted names"
  by (auto simp: os_ReadDir_def dir_names_sorted split: sum.splits option.splits node.splits)

lemma dir_names_distinct: "distinct (dir_names al d)"
  by (simp add: dir_names_def)

lemma dir_names_iff:
  "entry w d = Some Dir \<Longrightarrow> c \<in> set (dir_names (fs w) d) \<longleftrightarrow> entry w (d @ [c]) \<noteq> None"
proof
  assume "c \<in> set (dir_names (fs w) d)"
  then obtain q n where "(q, n) \<in> set (fs w)" "q \<noteq> []" "butlast q = d" "last q = c"
    by (auto simp: dir_names_def)
  then have "(d @ [c], n) \<in> set (fs w)" by (metis append_butlast_last_id)
  then show "entry w (d @ [c]) \<noteq> None" by (auto simp: entry_def dest: weak_map_of_SomeI)
next
  assume "entry w (d @ [c]) \<noteq> None"
  then obtain n where "(d @ [c], n) \<in> set (fs w)" by (auto simp: entry_def dest: map_of_SomeD)
  then show "c \<in> set (dir_names (fs w) d)"
    by (auto simp: dir_names_def intro!: rev_image_eqI [where x = "(d @ [c], n)"])
qed

section \<open>A tree of files\<close>

lemma fs_wf_prefix: "fs_wf w \<Longrightarrow> entry w q \<noteq> None \<Longrightarrow> strict_prefix p q \<Longrightarrow> entry w p = Some Dir"
proof (induction q rule: rev_induct)
  case (snoc c q)
  have up: "entry w q = Some Dir" using snoc.prems(1,2) unfolding fs_wf_def by (metis butlast_snoc)
  show ?case
  proof (cases "p = q")
    case False
    then have "strict_prefix p q" using snoc.prems(3) by (auto simp: strict_prefix_def)
    then show ?thesis using snoc.IH snoc.prems(1) up by simp
  qed (use up in simp)
qed simp

lemma fs_wf_below:
  assumes "fs_wf w" "entry w p = None" "prefix p q"
  shows "entry w q = None"
proof (rule ccontr)
  assume q: "entry w q \<noteq> None"
  then have "strict_prefix p q" using assms(2,3) by (auto simp: strict_prefix_def)
  then show False using fs_wf_prefix [OF assms(1) q] assms(2) by simp
qed

end
