(* ===== verification/GoFiles.thy ===== *)
theory GoFiles
  imports GoOS
begin

text \<open>
  The operations of Go's \<open>os\<close> package that change the file system: \<open>Create\<close>, writing to an
  open file, \<open>Mkdir\<close>, \<open>MkdirAll\<close> (with the standard library's recursion over the parent
  paths) and \<open>RemoveAll\<close>. The lemmas give, for each, the region it can change, and that it
  keeps the file system a tree.
\<close>

section \<open>Create and write\<close>

text \<open>An open file: its name, and the place it was found at.\<close>

type_synonym file_handle = "string \<times> path"

definition os_Create :: "string \<Rightarrow> file_handle go" where
  "os_Create p = (\<lambda>w.
     case sys_at SysCreate ''open'' p w of
       Inl e \<Rightarrow> (Err e, w)
     | Inr q \<Rightarrow>
         (if entry w q = Some Dir then (Err (PathError ''open'' p EISDIR), w)
          else if entry w (butlast q) = Some Dir then (Ok (p, q), set_entry q (File []) w)
          else (Err (PathError ''open'' p ENOENT), w)))"

definition os_Write :: "file_handle \<Rightarrow> string \<Rightarrow> unit go" where
  "os_Write f data = (\<lambda>w.
     if data = [] then (Ok (), w)
     else case faults w SysWrite (snd f) of
       Some e \<Rightarrow> (Err (PathError ''write'' (fst f) e), w)
     | None \<Rightarrow>
         (case entry w (snd f) of
            Some (File s) \<Rightarrow> (Ok (), set_entry (snd f) (File (s @ data)) w)
          | _ \<Rightarrow> (Ok (), w)))"

section \<open>Directories\<close>

definition os_Mkdir :: "string \<Rightarrow> unit go" where
  "os_Mkdir p = (\<lambda>w.
     case sys_at SysMkdir ''mkdir'' p w of
       Inl e \<Rightarrow> (Err e, w)
     | Inr q \<Rightarrow>
         (if entry w q \<noteq> None then (Err (PathError ''mkdir'' p EEXIST), w)
          else if entry w (butlast q) = Some Dir then (Ok (), set_entry q Dir w)
          else (Err (PathError ''mkdir'' p ENOENT), w)))"

text \<open>\<open>MkdirAll\<close> on \<open>path\<close> first makes this: the path up to its last component.\<close>

definition upto_slash :: "string \<Rightarrow> string" where
  "upto_slash p =
     dropWhile (\<lambda>c. c \<noteq> CHR ''/'') (dropWhile (\<lambda>c. c = CHR ''/'') (rev p))"

definition parent_str :: "string \<Rightarrow> string" where
  "parent_str p = rev (tl (upto_slash p))"

definition mkdir_last :: "string \<Rightarrow> unit go" where
  "mkdir_last p = (\<lambda>w.
     case os_Mkdir p w of
       (Err e, w') \<Rightarrow> (if os_Stat p w' = Ok Dir then (Ok (), w') else (Err e, w'))
     | r \<Rightarrow> r)"

lemma parent_str_cases: "parent_str p \<noteq> [] \<Longrightarrow> upto_slash p \<noteq> []"
  by (auto simp: parent_str_def)

lemma length_parent_str: "parent_str p \<noteq> [] \<Longrightarrow> length (parent_str p) < length p"
proof -
  assume "parent_str p \<noteq> []"
  then have "0 < length (upto_slash p)" using parent_str_cases by simp
  moreover have "length (upto_slash p) \<le> length p"
    unfolding upto_slash_def by (rule order.trans [OF length_dropWhile_le])
      (rule order.trans [OF length_dropWhile_le], simp)
  ultimately have "length (upto_slash p) - 1 < length p" by linarith
  then show ?thesis by (simp add: parent_str_def)
qed

function os_MkdirAll :: "string \<Rightarrow> world \<Rightarrow> unit res \<times> world" where
  "os_MkdirAll p w =
     (case os_Stat p w of
        Ok Dir \<Rightarrow> (Ok (), w)
      | Ok (File _) \<Rightarrow> (Err (PathError ''mkdir'' p ENOTDIR), w)
      | _ \<Rightarrow>
          (case (if parent_str p = [] then (Ok (), w) else os_MkdirAll (parent_str p) w) of
             (Ok _, w') \<Rightarrow> mkdir_last p w'
           | r \<Rightarrow> r))"
  by pat_completeness auto
termination
  by (relation "measure (\<lambda>(p, w). length p)") (auto intro: length_parent_str)

declare os_MkdirAll.simps [simp del]

lemma os_MkdirAll_there:
  "os_Stat p w = Ok n \<Longrightarrow> os_MkdirAll p w =
     (if n = Dir then Ok () else Err (PathError ''mkdir'' p ENOTDIR), w)"
  by (subst os_MkdirAll.simps) (simp split: node.splits)

lemma os_MkdirAll_missing:
  "\<nexists>n. os_Stat p w = Ok n \<Longrightarrow> os_MkdirAll p w =
     (case (if parent_str p = [] then (Ok (), w) else os_MkdirAll (parent_str p) w) of
        (Ok _, w') \<Rightarrow> mkdir_last p w'
      | r \<Rightarrow> r)"
  by (subst os_MkdirAll.simps) (cases "os_Stat p w"; simp)

text \<open>\<open>RemoveAll\<close>: whatever cannot be removed stays, with the directories above it.\<close>

definition os_RemoveAll :: "string \<Rightarrow> unit go" where
  "os_RemoveAll p = (\<lambda>w.
     case locate w p of
       Inl ENOENT \<Rightarrow> (Ok (), w)
     | Inl e \<Rightarrow> (Err (PathError ''unlinkat'' p e), w)
     | Inr q \<Rightarrow>
         (let stuck = filter (\<lambda>r. prefix q r \<and> faults w SysRemove r \<noteq> None) (map fst (fs w));
              w' = w\<lparr>fs := filter (\<lambda>(r, n). \<not> prefix q r \<or> (\<exists>s \<in> set stuck. prefix r s)) (fs w)\<rparr>
          in if stuck = [] then (Ok (), w')
             else (Err (PathError ''unlinkat'' p (the (faults w SysRemove (hd stuck)))), w')))"

section \<open>What they can change\<close>

lemma parent_str_split:
  assumes "parent_str p \<noteq> []"
  obtains r where "p = parent_str p @ CHR ''/'' # r"
proof -
  let ?a = "dropWhile (\<lambda>c. c = CHR ''/'') (rev p)"
  let ?u = "takeWhile (\<lambda>c. c = CHR ''/'') (rev p)" and ?v = "takeWhile (\<lambda>c. c \<noteq> CHR ''/'') ?a"
  obtain b bs where b: "upto_slash p = b # bs"
    using parent_str_cases [OF assms] by (cases "upto_slash p") simp_all
  then have "b = CHR ''/''"
    using hd_dropWhile [of "\<lambda>c. c \<noteq> CHR ''/''" ?a] by (simp add: upto_slash_def)
  moreover have "rev p = ?u @ ?v @ b # bs"
    using takeWhile_dropWhile_id [of "\<lambda>c. c \<noteq> CHR ''/''" ?a]
      takeWhile_dropWhile_id [of "\<lambda>c. c = CHR ''/''" "rev p"] b
    unfolding upto_slash_def by simp
  then have "rev (rev p) = rev (?u @ ?v @ b # bs)" by (rule arg_cong)
  ultimately have "p = parent_str p @ CHR ''/'' # rev ?v @ rev ?u"
    using b by (simp add: parent_str_def)
  then show ?thesis by (rule that)
qed

lemma parent_str_plain: "plain p \<Longrightarrow> parent_str p \<noteq> [] \<Longrightarrow> plain (parent_str p)"
  by (metis parent_str_split plain_append)

lemma parent_str_place: "parent_str p \<noteq> [] \<Longrightarrow> prefix (place d (parent_str p)) (place d p)"
  by (metis parent_str_split place_append prefixI)

lemma os_Create_changes:
  assumes "plain p" "\<And>d. P d (place d p)"
  shows "keeps (changes_only P) (os_Create p)"
  using assms by (intro keepsI) (auto simp: os_Create_def changes.refl split: sum.splits
      dest!: sys_at_Inr locate_plain intro!: changes_only_set_entry)

lemma os_Create_Ok:
  assumes "os_Create p w = (Ok f, w')"
  shows "\<exists>q. f = (p, q) \<and> locate w p = Inr q \<and> q \<noteq> [] \<and> w' = set_entry q (File []) w \<and>
    entry w q \<noteq> Some Dir"
proof (cases "sys_at SysCreate ''open'' p w")
  case (Inl e)
  then show ?thesis using assms by (simp add: os_Create_def)
next
  case (Inr q)
  then show ?thesis using assms sys_at_Inr [OF Inr]
    by (cases "q = []") (simp_all add: os_Create_def split: if_splits)
qed

lemma os_Write_changes:
  assumes "\<And>d. P d (snd f)"
  shows "keeps (changes_only P) (os_Write f data)"
  using assms by (intro keepsI) (auto simp: os_Write_def changes.refl
      split: option.splits node.splits intro!: changes_only_set_entry)

lemma os_Mkdir_changes:
  assumes "plain p" "\<And>d. P d (place d p)"
  shows "keeps (changes_only P) (os_Mkdir p)"
  using assms by (intro keepsI) (auto simp: os_Mkdir_def changes.refl split: sum.splits
      dest!: sys_at_Inr locate_plain intro!: changes_only_set_entry)

lemma snd_mkdir_last: "snd (mkdir_last p w) = snd (os_Mkdir p w)"
  by (auto simp: mkdir_last_def split: prod.splits res.splits)

lemma keeps_mkdir_last: "keeps R (os_Mkdir p) \<Longrightarrow> keeps R (mkdir_last p)"
  by (simp add: keeps_def snd_mkdir_last)

text \<open>One induction over the parents serves every relation: what \<open>Mkdir\<close> keeps, \<open>MkdirAll\<close> keeps.\<close>

context world_relation
begin

lemma keeps_MkdirAll:
  assumes "Q p" "\<And>p. Q p \<Longrightarrow> keeps R (os_Mkdir p)" "\<And>p. Q p \<Longrightarrow> parent_str p \<noteq> [] \<Longrightarrow> Q (parent_str p)"
  shows "keeps R (os_MkdirAll p)"
proof (rule keepsI)
  fix w
  have "Q p \<Longrightarrow> R w (snd (os_MkdirAll p w))" for p
  proof (induction p w rule: os_MkdirAll.induct)
    case (1 p w)
    let ?m = "if parent_str p = [] then (Ok (), w) else os_MkdirAll (parent_str p) w"
    obtain r v where m: "?m = (r, v)" by fastforce
    have last: "R v (snd (mkdir_last p v))"
      using keeps_mkdir_last [OF assms(2) [OF 1(3)]] by (simp add: keeps_def)
    show ?case
    proof (cases "\<exists>n. os_Stat p w = Ok n")
      case True
      then obtain n where "os_Stat p w = Ok n" by blast
      then show ?thesis by (simp add: os_MkdirAll_there refl)
    next
      case False
      then have "R w (snd ?m)"
        using 1 assms(3) by (cases "os_Stat p w") (simp_all add: refl)
      then have "R w v" using m by simp
      moreover have "os_MkdirAll p w = (case (r, v) of (Ok _, w') \<Rightarrow> mkdir_last p w' | x \<Rightarrow> x)"
        using os_MkdirAll_missing [OF False] unfolding m .
      ultimately show ?thesis using trans [OF \<open>R w v\<close> last] by (cases r) simp_all
    qed
  qed
  then show "R w (snd (os_MkdirAll p w))" using assms(1) .
qed

end

lemma os_MkdirAll_changes:
  assumes "plain p" "\<And>d q. prefix q (place d p) \<Longrightarrow> P d q"
  shows "keeps (changes_only P) (os_MkdirAll p)"
proof (rule changes.keeps_MkdirAll [where Q = "\<lambda>r. plain r \<and> (\<forall>d. prefix (place d r) (place d p))"])
  show "plain p \<and> (\<forall>d. prefix (place d p) (place d p))" using assms(1) by simp
next
  fix r assume "plain r \<and> (\<forall>d. prefix (place d r) (place d p))"
  then show "keeps (changes_only P) (os_Mkdir r)" using assms(2) by (blast intro: os_Mkdir_changes)
next
  fix r assume "plain r \<and> (\<forall>d. prefix (place d r) (place d p))" "parent_str r \<noteq> []"
  then show "plain (parent_str r) \<and> (\<forall>d. prefix (place d (parent_str r)) (place d p))"
    using parent_str_plain parent_str_place prefix_order.trans by blast
qed

lemma os_Create_no_copies [keeps_intros]: "keeps no_copies (os_Create p)"
  by (intro keepsI) (auto simp: os_Create_def no_copies.refl no_copies_set_entry split: sum.splits)

lemma os_Write_no_copies [keeps_intros]: "keeps no_copies (os_Write f data)"
  by (intro keepsI) (auto simp: os_Write_def no_copies.refl no_copies_set_entry
      split: option.splits node.splits)

lemma os_Mkdir_no_copies: "keeps no_copies (os_Mkdir p)"
  by (intro keepsI) (auto simp: os_Mkdir_def no_copies.refl no_copies_set_entry split: sum.splits)

lemma os_MkdirAll_no_copies [keeps_intros]: "keeps no_copies (os_MkdirAll p)"
  by (rule no_copies.keeps_MkdirAll [where Q = "\<lambda>_. True"]) (auto intro: os_Mkdir_no_copies)

lemma os_Create_dirs [keeps_intros]: "keeps dirs_grow (os_Create p)"
  by (intro keepsI) (auto simp: os_Create_def dirs.refl dirs_grow_set_entry split: sum.splits)

lemma os_Write_dirs [keeps_intros]: "keeps dirs_grow (os_Write f data)"
  by (intro keepsI) (auto simp: os_Write_def dirs.refl dirs_grow_set_entry
      split: option.splits node.splits)

lemma os_Mkdir_dirs: "keeps dirs_grow (os_Mkdir p)"
  by (intro keepsI) (auto simp: os_Mkdir_def dirs.refl dirs_grow_set_entry split: sum.splits)

lemma os_MkdirAll_dirs [keeps_intros]: "keeps dirs_grow (os_MkdirAll p)"
  by (rule dirs.keeps_MkdirAll [where Q = "\<lambda>_. True"]) (auto intro: os_Mkdir_dirs)

lemma os_Create_wf [keeps_intros]: "keeps keeps_wf (os_Create p)"
  by (intro keepsI) (auto simp: os_Create_def wf.refl keeps_wf_set_entry split: sum.splits)

lemma os_Write_wf [keeps_intros]: "keeps keeps_wf (os_Write f data)"
proof (rule keepsI)
  fix w
  have "entry w (butlast (snd f)) = Some Dir" if "fs_wf w" "entry w (snd f) = Some (File s)" for s
    using that by (simp add: fs_wf_def)
  then show "keeps_wf w (snd (os_Write f data w))"
    using keeps_wf_set_entry [of w "snd f"]
    by (auto simp: os_Write_def keeps_wf_def split: option.splits node.splits)
qed

lemma os_Mkdir_wf: "keeps keeps_wf (os_Mkdir p)"
  by (intro keepsI) (auto simp: os_Mkdir_def wf.refl keeps_wf_set_entry split: sum.splits)

lemma os_MkdirAll_wf [keeps_intros]: "keeps keeps_wf (os_MkdirAll p)"
  by (rule wf.keeps_MkdirAll [where Q = "\<lambda>_. True"]) (auto intro: os_Mkdir_wf)

section \<open>Removal\<close>

lemma map_of_filter_keys:
  "map_of (filter (\<lambda>(k, v). P k) al) k = (if P k then map_of al k else None)"
  by (induction al) auto

lemma os_RemoveAll_no_copies [keeps_intros]: "keeps no_copies (os_RemoveAll p)"
  by (intro keepsI) (auto simp: os_RemoveAll_def no_copies_def Let_def split: sum.splits errno.splits)

lemma os_RemoveAll_entry:
  assumes "locate w p = Inr q"
  shows "entry (snd (os_RemoveAll p w)) r =
    (if r = [] \<or> \<not> prefix q r \<or>
        (\<exists>s. prefix r s \<and> s \<in> fst ` set (fs w) \<and> prefix q s \<and> faults w SysRemove s \<noteq> None)
     then entry w r else None)"
  using assms
  by (auto simp: os_RemoveAll_def Let_def entry_def map_of_filter_keys filter_empty_conv)

lemma os_RemoveAll_fields:
  "cwd (snd (os_RemoveAll p w)) = cwd w" "faults (snd (os_RemoveAll p w)) = faults w"
  by (auto simp: os_RemoveAll_def Let_def split: sum.splits errno.splits)

lemma os_RemoveAll_stays: "locate w p = Inl e \<Longrightarrow> snd (os_RemoveAll p w) = w"
  by (auto simp: os_RemoveAll_def split: errno.splits)

lemma os_RemoveAll_changes:
  assumes "plain p" "\<And>d q. prefix (place d p) q \<Longrightarrow> P d q"
  shows "keeps (changes_only P) (os_RemoveAll p)"
proof (rule keepsI)
  fix w
  show "changes_only P w (snd (os_RemoveAll p w))"
  proof (cases "locate w p")
    case (Inl e)
    then show ?thesis by (simp add: os_RemoveAll_stays changes.refl)
  next
    case (Inr q)
    then have "q = place (cwd w) p" using assms(1) by (rule locate_plain [rotated])
    then show ?thesis using assms(2) [of "cwd w"]
      by (auto simp: changes_only_def os_RemoveAll_fields os_RemoveAll_entry [OF Inr])
  qed
qed

section \<open>None of them panics\<close>

lemma os_Create_safe [safe_intros]: "no_panic (os_Create p)"
  by (rule no_panicI) (auto simp: os_Create_def split: sum.splits)

lemma os_Write_safe [safe_intros]: "no_panic (os_Write f data)"
  by (rule no_panicI) (auto simp: os_Write_def split: option.splits node.splits)

lemma os_Mkdir_safe: "no_panic (os_Mkdir p)"
  by (rule no_panicI) (auto simp: os_Mkdir_def split: sum.splits)

lemma mkdir_last_safe: "fst (mkdir_last p w) \<noteq> Panic x"
  using os_Mkdir_safe [of p] by (auto simp: mkdir_last_def split: prod.splits res.splits dest: no_panicD)

lemma os_MkdirAll_safe [safe_intros]: "no_panic (os_MkdirAll p)"
proof (rule no_panicI)
  show "fst (os_MkdirAll p w) \<noteq> Panic x" for w x
  proof (induction p w rule: os_MkdirAll.induct)
    case (1 p w)
    show ?case
    proof (cases "\<exists>n. os_Stat p w = Ok n")
      case True
      then show ?thesis by (auto simp: os_MkdirAll_there split: if_splits)
    next
      case False
      then have "fst (if parent_str p = [] then (Ok (), w) else os_MkdirAll (parent_str p) w) \<noteq> Panic x"
        using 1 by (cases "os_Stat p w") simp_all
      then show ?thesis unfolding os_MkdirAll_missing [OF False]
        by (auto simp: mkdir_last_safe split: prod.splits res.splits)
    qed
  qed
qed

lemma os_RemoveAll_safe [safe_intros]: "no_panic (os_RemoveAll p)"
  by (rule no_panicI) (auto simp: os_RemoveAll_def Let_def split: sum.splits errno.splits)

section \<open>What a file holds\<close>

text \<open>The file at \<open>q\<close> keeps its contents (for the worlds whose working directory is \<open>d\<close>).\<close>

definition file_stays :: "path \<Rightarrow> path \<Rightarrow> world \<Rightarrow> world \<Rightarrow> bool" where
  "file_stays d q w w' \<longleftrightarrow> cwd w' = cwd w \<and>
     (cwd w = d \<longrightarrow> (\<forall>s. entry w q = Some (File s) \<longrightarrow> entry w' q = Some (File s)))"

interpretation stays: world_relation "file_stays d q" for d q
  by unfold_locales (auto simp: file_stays_def)

declare stays.keeps_rules [keeps_intros]

lemma same_files_stays: "same_files w w' \<Longrightarrow> file_stays d q w w'"
  by (simp add: file_stays_def same_files_entry) (simp add: same_files_def)

lemma os_MkdirAll_stays: "keeps (file_stays d q) (os_MkdirAll p)"
proof (rule stays.keeps_MkdirAll [where Q = "\<lambda>_. True"])
  show "keeps (file_stays d q) (os_Mkdir p)" for p
    by (intro keepsI) (auto simp: os_Mkdir_def file_stays_def entry_set_entry split: sum.splits)
qed simp_all

end
