(* ===== verification/GoFmt.thy ===== *)
theory GoFmt
  imports World
begin

text \<open>
  What the program uses of Go's \<open>fmt\<close> package: \<open>Sprintf\<close> with the verbs \<open>%s\<close>, \<open>%v\<close>,
  \<open>%w\<close> and \<open>%q\<close> (no flags, no widths) applied to strings, errors and slices of strings, and \<open>%v\<close>
  and \<open>%d\<close> applied to integers and \<open>%q\<close> to bytes, with
  Go's texts for a missing argument, an argument too many and a verb that does not apply.
\<close>

datatype fmt_arg = FStr string | FErr go_error | FStrs "string list" | FInt int

text \<open>A number in decimal\<close>

function show_nat :: "nat \<Rightarrow> string" where
  "show_nat n = (if n < 10 then [char_of (48 + n)] else show_nat (n div 10) @ [char_of (48 + n mod 10)])"
  by pat_completeness auto
termination
  by (relation "measure id") auto

declare show_nat.simps [simp del]

definition show_int :: "int \<Rightarrow> string" where
  "show_int n = (if n < 0 then CHR ''-'' # show_nat (nat (- n)) else show_nat (nat n))"

fun fmt_value :: "fmt_arg \<Rightarrow> string" where
  "fmt_value (FStr s) = s"
| "fmt_value (FErr e) = err_text e"
| "fmt_value (FStrs ws) = ''['' @ Join ws '' '' @ '']''"
| "fmt_value (FInt n) = show_int n"

fun fmt_type :: "fmt_arg \<Rightarrow> string" where
  "fmt_type (FStr s) = ''string''"
| "fmt_type (FErr e) = ''error''"
| "fmt_type (FStrs ws) = ''[]string''"
| "fmt_type (FInt n) = ''int''"

fun is_int :: "fmt_arg \<Rightarrow> bool" where
  "is_int (FInt n) = True"
| "is_int _ = False"

text \<open>\<open>strconv.Quote\<close>, for text whose bytes above 127 are printable characters in UTF-8\<close>

definition hex_digit :: "nat \<Rightarrow> char" where
  "hex_digit n = (if n < 10 then char_of (48 + n) else char_of (87 + n))"

definition quote_char :: "char \<Rightarrow> string" where
  "quote_char c =
     (let n = (of_char c :: nat) in
      if c = CHR 0x22 \<or> c = CHR 0x5C then [CHR 0x5C, c]
      else if n = 7 then [CHR 0x5C, CHR ''a'']
      else if n = 8 then [CHR 0x5C, CHR ''b'']
      else if n = 12 then [CHR 0x5C, CHR ''f'']
      else if n = 10 then [CHR 0x5C, CHR ''n'']
      else if n = 13 then [CHR 0x5C, CHR ''r'']
      else if n = 9 then [CHR 0x5C, CHR ''t'']
      else if n = 11 then [CHR 0x5C, CHR ''v'']
      else if n < 32 \<or> n = 127 then [CHR 0x5C, CHR ''x'', hex_digit (n div 16), hex_digit (n mod 16)]
      else [c])"

text \<open>The verb \<open>%q\<close> of a byte: a character literal. The character above 127 is one of Latin 1.\<close>

definition quote_byte :: "nat \<Rightarrow> string" where
  "quote_byte n =
     (if n = 39 then [CHR 0x5C, CHR 0x27]
      else if n = 34 then [CHR 0x22]
      else if n < 128 then quote_char (char_of n)
      else if n < 161 \<or> n = 173
      then [CHR 0x5C, CHR ''u'', CHR ''0'', CHR ''0'', hex_digit (n div 16), hex_digit (n mod 16)]
      else [char_of (192 + n div 64), char_of (128 + n mod 64)])"

definition go_quote :: "string \<Rightarrow> string" where
  "go_quote s = CHR 0x22 # concat (map quote_char s) @ [CHR 0x22]"

fun fmt_quoted :: "fmt_arg \<Rightarrow> string" where
  "fmt_quoted (FStr s) = go_quote s"
| "fmt_quoted (FErr e) = go_quote (err_text e)"
| "fmt_quoted (FStrs ws) = ''['' @ Join (map go_quote ws) '' '' @ '']''"
| "fmt_quoted (FInt n) = CHR 0x27 # quote_byte (nat n) @ [CHR 0x27]"

definition fmt_verb :: "char \<Rightarrow> fmt_arg \<Rightarrow> string" where
  "fmt_verb v a =
     (if v = CHR ''v'' \<or> (if is_int a then v = CHR ''d'' else v = CHR ''s'' \<or> v = CHR ''w'') then fmt_value a
      else if v = CHR ''q'' then fmt_quoted a
      else ''%!'' @ [v] @ ''('' @ fmt_type a @ ''='' @ fmt_value a @ '')'')"

definition fmt_extra :: "fmt_arg list \<Rightarrow> string" where
  "fmt_extra args =
     (if args = [] then []
      else ''%!(EXTRA '' @ Join (map (\<lambda>a. fmt_type a @ ''='' @ fmt_value a) args) '', '' @ '')'')"

fun Sprintf :: "string \<Rightarrow> fmt_arg list \<Rightarrow> string" where
  "Sprintf [] args = fmt_extra args"
| "Sprintf [c] args = (if c = CHR ''%'' then ''%!(NOVERB)'' else [c]) @ fmt_extra args"
| "Sprintf (c # v # f) args =
     (if c \<noteq> CHR ''%'' then c # Sprintf (v # f) args
      else if v = CHR ''%'' then CHR ''%'' # Sprintf f args
      else (case args of
              [] \<Rightarrow> ''%!'' @ [v] @ ''(MISSING)'' @ Sprintf f []
            | a # as \<Rightarrow> fmt_verb v a @ Sprintf f as))"

text \<open>\<open>fmt.Errorf\<close>: with a \<open>%w\<close> the result wraps that argument, otherwise it is a plain error.\<close>

definition Errorf :: "string \<Rightarrow> fmt_arg list \<Rightarrow> go_error" where
  "Errorf f args = ErrorString (Sprintf f args)"

definition Errorf_w :: "string \<Rightarrow> go_error \<Rightarrow> go_error" where
  "Errorf_w f e = WrapError (Sprintf f [FErr e]) e"

lemma Sprintf_text: "CHR ''%'' \<notin> set s \<Longrightarrow> Sprintf (s @ f) args = s @ Sprintf f args"
proof (induction s)
  case (Cons c s)
  then show ?case by (cases "s @ f") auto
qed simp

lemma Sprintf_plain: "CHR ''%'' \<notin> set s \<Longrightarrow> Sprintf s [] = s"
  using Sprintf_text [of s "[]" "[]"] by (simp add: fmt_extra_def)

lemma Sprintf_verb:
  "v \<noteq> CHR ''%'' \<Longrightarrow> Sprintf (CHR ''%'' # v # f) (a # as) = fmt_verb v a @ Sprintf f as"
  by simp

lemma is_not_exist_Errorf_w [simp]: "is_not_exist (Errorf_w f e) = is_not_exist e"
  by (simp add: Errorf_w_def)

lemma is_not_exist_Errorf [simp]: "\<not> is_not_exist (Errorf f args)"
  by (simp add: Errorf_def)

end
