(* ===== verification/Logger.thy ===== *)
theory Logger
  imports GoFmt
begin

text \<open>
  The logger: \<open>PluggableLogger\<close> of pkg/log/logger.go, which formats and hands on to the
  \<open>simple.Logger\<close> of the vendored module github.com/microlib/simple. The program makes one
  logger and passes its pointer to every component, so its level is a field of the world, and
  what it prints is appended to the world's \<open>stderr\<close> (without the time stamp of Go's \<open>log\<close>).
\<close>

section \<open>simple.Logger\<close>

definition log_Printf :: "string \<Rightarrow> fmt_arg list \<Rightarrow> unit go" where
  "log_Printf f args = (\<lambda>w. (Ok (), w\<lparr>stderr := stderr w @ [Sprintf f args]\<rparr>))"

definition skip :: "unit go" where
  "skip = go_return ()"

definition esc :: char where
  "esc = CHR 0x1B"

definition simple_Debug :: "string \<Rightarrow> unit go" where
  "simple_Debug message = (\<lambda>w.
     (if level w = ''debug'' \<or> level w = ''trace''
      then log_Printf (esc # ''[1;92m [%s] '' @ esc # ''[0m : %s'') [FStr ''DEBUG'', FStr message]
      else skip) w)"

definition simple_Error :: "string \<Rightarrow> unit go" where
  "simple_Error message =
     log_Printf (esc # ''[1;91m [%s] '' @ esc # ''[0m : %s'') [FStr ''ERROR'', FStr message]"

definition simple_Warn :: "string \<Rightarrow> unit go" where
  "simple_Warn message = (\<lambda>w.
     (if level w = ''warn'' \<or> level w = ''debug'' \<or> level w = ''info'' \<or> level w = ''trace''
      then log_Printf (esc # ''[1;93m [%s] '' @ esc # ''[0m  : %s'') [FStr ''WARN'', FStr message]
      else skip) w)"

definition simple_Trace :: "string \<Rightarrow> unit go" where
  "simple_Trace message = (\<lambda>w.
     (if level w = ''trace''
      then log_Printf (esc # ''[1;96m [%s] '' @ esc # ''[0m : %s'') [FStr ''TRACE'', FStr message]
      else skip) w)"

definition simple_Info :: "string \<Rightarrow> unit go" where
  "simple_Info message = (\<lambda>w.
     (if level w = ''info'' \<or> level w = ''debug'' \<or> level w = ''trace''
      then log_Printf (esc # ''[1;94m [%s] '' @ esc # ''[0m  : %s'') [FStr ''INFO'', FStr message]
      else skip) w)"

section \<open>PluggableLogger\<close>

definition log_New :: "string \<Rightarrow> world \<Rightarrow> world" where
  "log_New lvl w = w\<lparr>level := lvl\<rparr>"

definition log_Error :: "string \<Rightarrow> fmt_arg list \<Rightarrow> unit go" where
  "log_Error msg val = simple_Error (Sprintf msg val)"

definition log_Info :: "string \<Rightarrow> fmt_arg list \<Rightarrow> unit go" where
  "log_Info msg val = simple_Info (Sprintf msg val)"

definition log_Debug :: "string \<Rightarrow> fmt_arg list \<Rightarrow> unit go" where
  "log_Debug msg val = simple_Debug (Sprintf msg val)"

definition log_Trace :: "string \<Rightarrow> fmt_arg list \<Rightarrow> unit go" where
  "log_Trace msg val = simple_Trace (Sprintf msg val)"

definition log_Warn :: "string \<Rightarrow> fmt_arg list \<Rightarrow> unit go" where
  "log_Warn msg val = simple_Warn (Sprintf msg val)"

definition log_Level :: "string \<Rightarrow> unit go" where
  "log_Level lvl = (\<lambda>w. (Ok (), w\<lparr>level := lvl\<rparr>))"

section \<open>The interface its clients rely on\<close>

text \<open>
  \<open>PluggableLoggerInterface\<close>: a logging method never fails, and all it does is to append
  lines to the log; \<open>Level\<close> only sets the level.
\<close>

definition log_only :: "world \<Rightarrow> world \<Rightarrow> bool" where
  "log_only w w' \<longleftrightarrow> (\<exists>ls. w' = w\<lparr>stderr := stderr w @ ls\<rparr>)"

interpretation log_only: world_relation log_only
proof unfold_locales
  show "log_only w w" for w by (auto simp: log_only_def intro: exI [of _ "[]"])
  show "log_only w1 w2 \<Longrightarrow> log_only w2 w3 \<Longrightarrow> log_only w1 w3" for w1 w2 w3
    by (auto simp: log_only_def intro: exI [of _ "_ @ _"])
qed

lemma log_only_append [simp]: "log_only w (w\<lparr>stderr := stderr w @ ls\<rparr>)"
  by (auto simp: log_only_def)

lemma log_only_same_files: "log_only w w' \<Longrightarrow> same_files w w'"
  by (auto simp: log_only_def same_files_def)

lemma log_only_no_copies: "log_only w w' \<Longrightarrow> no_copies w w'"
  by (auto simp: log_only_def no_copies_def)

locale logger =
  fixes errorf infof debugf tracef warnf :: "string \<Rightarrow> fmt_arg list \<Rightarrow> unit go"
    and setlevel :: "string \<Rightarrow> unit go"
  assumes never_fails:
      "m \<in> {errorf, infof, debugf, tracef, warnf} \<Longrightarrow> fst (m f args w) = Ok ()"
    and appends: "m \<in> {errorf, infof, debugf, tracef, warnf} \<Longrightarrow> keeps log_only (m f args)"
    and sets_level: "setlevel l w = (Ok (), w\<lparr>level := l\<rparr>)"
begin

lemma continues:
  assumes "m \<in> {errorf, infof, debugf, tracef, warnf}"
  shows "\<exists>w'. log_only w w' \<and> go_bind (m f args) k w = k () w'"
  using never_fails [OF assms, of f args w] appends [OF assms, of f args]
  by (cases "m f args w") (auto simp: keeps_def go_bind_def split: prod.splits dest: spec [of _ w])

lemma methods_same_files:
  "m \<in> {errorf, infof, debugf, tracef, warnf} \<Longrightarrow> keeps same_files (m f args)"
  by (rule keeps_mono [OF appends]) (simp_all add: log_only_same_files)

lemma methods_no_copies:
  "m \<in> {errorf, infof, debugf, tracef, warnf} \<Longrightarrow> keeps no_copies (m f args)"
  by (rule keeps_mono [OF appends]) (simp_all add: log_only_no_copies)

lemma level_same_files: "keeps same_files (setlevel l)"
  by (simp add: keeps_def same_files_def sets_level)

lemma level_no_copies: "keeps no_copies (setlevel l)"
  by (simp add: keeps_def no_copies_def sets_level)

end

lemmas log_method_defs = log_Error_def log_Info_def log_Debug_def log_Trace_def log_Warn_def
  simple_Error_def simple_Info_def simple_Debug_def simple_Trace_def simple_Warn_def
  log_Printf_def skip_def go_return_def

lemma log_methods_Ok:
  "fst (log_Error f a w) = Ok ()" "fst (log_Info f a w) = Ok ()" "fst (log_Debug f a w) = Ok ()"
  "fst (log_Trace f a w) = Ok ()" "fst (log_Warn f a w) = Ok ()"
  by (simp_all add: log_method_defs)

lemma log_methods_append:
  "keeps log_only (log_Error f a)" "keeps log_only (log_Info f a)"
  "keeps log_only (log_Debug f a)" "keeps log_only (log_Trace f a)"
  "keeps log_only (log_Warn f a)"
  by (simp_all add: keeps_def log_method_defs log_only.refl)

interpretation clog: logger log_Error log_Info log_Debug log_Trace log_Warn log_Level
  by unfold_locales (auto simp: log_methods_Ok log_methods_append log_Level_def)

lemma log_same_files [keeps_intros]:
  "keeps same_files (log_Error f a)" "keeps same_files (log_Info f a)"
  "keeps same_files (log_Debug f a)" "keeps same_files (log_Trace f a)"
  "keeps same_files (log_Warn f a)" "keeps same_files (log_Level l)"
  by (rule clog.methods_same_files clog.level_same_files, simp?)+

lemma log_no_copies [keeps_intros]:
  "keeps no_copies (log_Error f a)" "keeps no_copies (log_Info f a)"
  "keeps no_copies (log_Debug f a)" "keeps no_copies (log_Trace f a)"
  "keeps no_copies (log_Warn f a)" "keeps no_copies (log_Level l)"
  by (rule clog.methods_no_copies clog.level_no_copies, simp?)+

lemmas log_changes [keeps_intros] = log_same_files [THEN keeps_same_files_changes]
lemmas log_dirs [keeps_intros] = log_same_files [THEN keeps_same_files_dirs]
lemmas log_wf [keeps_intros] = log_same_files [THEN keeps_same_files_wf]

lemmas log_appends [keeps_intros] = log_methods_append log_only.keeps_rules

lemma log_safe [safe_intros]:
  "no_panic (log_Error f a)" "no_panic (log_Info f a)" "no_panic (log_Debug f a)"
  "no_panic (log_Trace f a)" "no_panic (log_Warn f a)" "no_panic (log_Level l)"
  by (auto simp: no_panic_def log_methods_Ok log_Level_def)

lemma log_only_changes: "log_only w w' \<Longrightarrow> changes_only P w w'"
  by (simp add: same_files_changes log_only_same_files)

lemma log_only_entry: "log_only w w' \<Longrightarrow> entry w' = entry w"
  by (simp add: log_only_same_files same_files_entry)

lemma keeps_log_only:
  assumes "keeps log_only m"
  shows "keeps same_files m" "keeps no_copies m" "keeps (changes_only P) m" "keeps dirs_grow m"
    "keeps keeps_wf m"
proof -
  show same: "keeps same_files m" using assms by (rule keeps_mono) (simp add: log_only_same_files)
  show "keeps no_copies m" using assms by (rule keeps_mono) (simp add: log_only_no_copies)
  show "keeps (changes_only P) m" "keeps dirs_grow m" "keeps keeps_wf m"
    using same by (rule keeps_same_files_changes keeps_same_files_dirs keeps_same_files_wf)+
qed

section \<open>Properties\<close>

text \<open>The levels, from the one that logs least to the one that logs most.\<close>

datatype log_level = LevelError | LevelWarn | LevelInfo | LevelDebug | LevelTrace

fun level_rank :: "log_level \<Rightarrow> nat" where
  "level_rank LevelError = 0"
| "level_rank LevelWarn = 1"
| "level_rank LevelInfo = 2"
| "level_rank LevelDebug = 3"
| "level_rank LevelTrace = 4"

lemma level_rank_eq: "level_rank l = level_rank m \<Longrightarrow> l = m"
  by (cases l; cases m) simp_all

instantiation log_level :: linorder
begin

definition less_eq_log_level :: "log_level \<Rightarrow> log_level \<Rightarrow> bool" where
  "l \<le> m \<longleftrightarrow> level_rank l \<le> level_rank m"

definition less_log_level :: "log_level \<Rightarrow> log_level \<Rightarrow> bool" where
  "l < m \<longleftrightarrow> level_rank l < level_rank m"

instance
  by standard (auto simp: less_eq_log_level_def less_log_level_def level_rank_eq)

end

text \<open>The level a text names; any other text is as good as that of errors.\<close>

definition level_of :: "string \<Rightarrow> log_level" where
  "level_of l =
     (if l = ''trace'' then LevelTrace else if l = ''debug'' then LevelDebug
      else if l = ''info'' then LevelInfo else if l = ''warn'' then LevelWarn else LevelError)"

definition logged :: "log_level \<Rightarrow> string \<Rightarrow> unit go" where
  "logged l line = (\<lambda>w.
     (Ok (), if l \<le> level_of (level w) then w\<lparr>stderr := stderr w @ [line]\<rparr> else w))"

text \<open>
  C35: the levels are a linear order. A message is logged, as one line with the tag of its method,
  exactly when its method's level is at most the level that is set; otherwise nothing happens. A level
  the logger does not know counts as that of errors: only they are logged.
\<close>

theorem logger_levels:
  "log_Error f a = logged LevelError (esc # ''[1;91m [ERROR] '' @ esc # ''[0m : '' @ Sprintf f a) \<and>
   log_Warn f a = logged LevelWarn (esc # ''[1;93m [WARN] '' @ esc # ''[0m  : '' @ Sprintf f a) \<and>
   log_Info f a = logged LevelInfo (esc # ''[1;94m [INFO] '' @ esc # ''[0m  : '' @ Sprintf f a) \<and>
   log_Debug f a = logged LevelDebug (esc # ''[1;92m [DEBUG] '' @ esc # ''[0m : '' @ Sprintf f a) \<and>
   log_Trace f a = logged LevelTrace (esc # ''[1;96m [TRACE] '' @ esc # ''[0m : '' @ Sprintf f a)"
  by (simp add: fun_eq_iff log_method_defs logged_def less_eq_log_level_def level_of_def esc_def fmt_verb_def
      fmt_extra_def)

end
