(* ===== verification/Untar.thy ===== *)
theory Untar
  imports GoFiles Logger
begin

text \<open>
  \<open>untar\<close> of pkg/manifest/manifest.go: the entries of a gzipped tar stream whose name contains
  the wanted directory are written below a target directory. The decoders of the standard
  library are the parameter \<open>gz\<close>: it gives, for the bytes of a file, the error of
  \<open>gzip.NewReader\<close>, or what \<open>tar.Reader\<close> then delivers: for each call of \<open>Next\<close> a header with
  the data of its entry (and the error that ends the data early, if any), or an error; the end
  of the list is \<open>io.EOF\<close>.
\<close>

section \<open>The decoders\<close>

text \<open>\<open>TarEntry name typeflag data err\<close>\<close>

datatype tar_item = TarEntry string char string "go_error option" | TarError go_error

type_synonym gunzip = "string \<Rightarrow> go_error + tar_item list"

definition TypeDir :: char where "TypeDir = CHR ''5''"
definition TypeReg :: char where "TypeReg = CHR ''0''"

definition gzip_NewReader :: "gunzip \<Rightarrow> string \<times> node \<Rightarrow> go_error + tar_item list" where
  "gzip_NewReader gz f =
     (case read_all f of Ok s \<Rightarrow> gz s | Err e \<Rightarrow> Inl e | Panic x \<Rightarrow> Inr [])"

definition io_Copy :: "file_handle \<Rightarrow> string \<Rightarrow> go_error option \<Rightarrow> unit go" where
  "io_Copy f data err =
     go_seq (os_Write f data) (case err of None \<Rightarrow> go_return () | Some e \<Rightarrow> go_fail e)"

definition print_line :: "string \<Rightarrow> unit go" where
  "print_line s = (\<lambda>w. (Ok (), w\<lparr>stdout := stdout w @ [s]\<rparr>))"

text \<open>\<open>if err := m; err != nil { return fmt.Errorf (f, err) }\<close>\<close>

definition or_errorf :: "'a go \<Rightarrow> string \<Rightarrow> ('a \<Rightarrow> 'b go) \<Rightarrow> 'b go" where
  "or_errorf m f k = go_try m (\<lambda>r. case r of Inl e \<Rightarrow> go_fail (Errorf f [FErr e]) | Inr a \<Rightarrow> k a)"

section \<open>untar\<close>

definition trim_slashes :: "string \<Rightarrow> string" where
  "trim_slashes s = TrimPrefix (TrimSuffix s ''/'') ''/''"

definition untar_entry :: "string \<Rightarrow> string \<Rightarrow> char \<Rightarrow> string \<Rightarrow> go_error option \<Rightarrow> unit go" where
  "untar_entry path name flag data err =
     (if flag = TypeDir then
        (if name \<noteq> ''./''
         then or_errorf (os_MkdirAll (path @ ''/'' @ name)) ''untar: Mkdir() failed: %v'' go_return
         else go_return ())
      else if flag = TypeReg then
        or_errorf (os_Create (path @ ''/'' @ name)) ''untar: Create() failed: %v''
          (\<lambda>outFile. or_errorf (io_Copy outFile data err) ''untar: Copy() failed: %v'' go_return)
      else print_line (Sprintf (''WARNING : untar: unknown type: %v in %s'' @ [CHR 0x0A])
             [FInt (of_char flag), FStr name]))"

fun untar_loop :: "tar_item list \<Rightarrow> string \<Rightarrow> string \<Rightarrow> unit go" where
  "untar_loop [] path cfgDirName = go_return ()"
| "untar_loop (TarError e # items) path cfgDirName =
     go_fail (Errorf ''untar: Next() failed: %s'' [FStr (err_text e)])"
| "untar_loop (TarEntry name flag data err # items) path cfgDirName =
     go_seq (if Contains name cfgDirName then untar_entry path name flag data err else go_return ())
       (untar_loop items path cfgDirName)"

definition untar :: "gunzip \<Rightarrow> string \<times> node \<Rightarrow> string \<Rightarrow> string \<Rightarrow> unit go" where
  "untar gz gzipStream path cfgDirName =
     (case gzip_NewReader gz gzipStream of
        Inl e \<Rightarrow> go_fail (Errorf_w ''untar: gzipStream - %w'' e)
      | Inr items \<Rightarrow> untar_loop items path (trim_slashes cfgDirName))"

section \<open>What it keeps\<close>

lemma print_line_same_files: "keeps same_files (print_line s)"
  by (simp add: keeps_def print_line_def same_files_def)

lemma print_line_no_copies [keeps_intros]: "keeps no_copies (print_line s)"
  by (simp add: keeps_def print_line_def no_copies_def)

lemmas print_line_keeps [keeps_intros] = print_line_same_files
  print_line_same_files [THEN keeps_same_files_changes]
  print_line_same_files [THEN keeps_same_files_dirs]
  print_line_same_files [THEN keeps_same_files_wf]

text \<open>The rules for the control structures, as for those of the world.\<close>

context world_relation
begin

lemma keeps_or_errorf:
  "keeps R m \<Longrightarrow> (\<And>a. keeps R (k a)) \<Longrightarrow> keeps R (or_errorf m f k)"
  unfolding or_errorf_def by (rule keeps_try) (auto simp: keeps_fail split: sum.splits)

lemma keeps_io_Copy: "keeps R (os_Write f data) \<Longrightarrow> keeps R (io_Copy f data err)"
  unfolding io_Copy_def by (rule keeps_seq) (auto simp: keeps_fail keeps_return split: option.splits)

lemma keeps_untar_loop:
  assumes "\<And>name flag data err. TarEntry name flag data err \<in> set items \<Longrightarrow>
      Contains name cfgDirName \<Longrightarrow> keeps R (untar_entry path name flag data err)"
  shows "keeps R (untar_loop items path cfgDirName)"
  using assms
  by (induction items path cfgDirName rule: untar_loop.induct)
    (auto intro!: keeps_return keeps_fail keeps_seq)

lemma keeps_untar:
  assumes "\<And>items name flag data err. gzip_NewReader gz f = Inr items \<Longrightarrow>
      TarEntry name flag data err \<in> set items \<Longrightarrow> keeps R (untar_entry path name flag data err)"
  shows "keeps R (untar gz f path cfgDirName)"
  unfolding untar_def by (auto intro!: keeps_fail keeps_untar_loop assms split: sum.splits)

lemma keeps_untar_entry:
  assumes "keeps R (os_MkdirAll (path @ CHR ''/'' # name))"
    "keeps R (os_Create (path @ CHR ''/'' # name))" "\<And>f. keeps R (os_Write f data)"
    "\<And>s. keeps R (print_line s)"
  shows "keeps R (untar_entry path name flag data err)"
  unfolding untar_entry_def
  by (simp, intro impI conjI keeps_or_errorf keeps_io_Copy keeps_return assms) (use assms(1,2) in simp_all)

end

lemma untar_no_copies [keeps_intros]: "keeps no_copies (untar gz f path cfg)"
  by (intro no_copies.keeps_untar no_copies.keeps_untar_entry keeps_intros)

lemma untar_dirs [keeps_intros]: "keeps dirs_grow (untar gz f path cfg)"
  by (intro dirs.keeps_untar dirs.keeps_untar_entry keeps_intros)

lemma untar_wf [keeps_intros]: "keeps keeps_wf (untar gz f path cfg)"
  by (intro wf.keeps_untar wf.keeps_untar_entry keeps_intros)

section \<open>It never panics\<close>

lemma or_errorf_safe [safe_intros]:
  "no_panic m \<Longrightarrow> (\<And>a. no_panic (k a)) \<Longrightarrow> no_panic (or_errorf m f k)"
  unfolding or_errorf_def by (rule no_panic_try) (auto intro!: safe_intros split: sum.splits)

lemma io_Copy_safe [safe_intros]: "no_panic (io_Copy f data err)"
  unfolding io_Copy_def by (rule no_panic_seq) (auto intro!: safe_intros split: option.splits)

lemma print_line_safe [safe_intros]: "no_panic (print_line s)"
  by (simp add: no_panic_def print_line_def)

lemma untar_entry_safe [safe_intros]: "no_panic (untar_entry path name flag data err)"
  unfolding untar_entry_def by (simp, intro impI conjI safe_intros)

lemma untar_loop_safe: "no_panic (untar_loop items path cfgDirName)"
  by (induction items path cfgDirName rule: untar_loop.induct) (auto intro!: safe_intros)

lemma untar_safe [safe_intros]: "no_panic (untar gz f path cfg)"
  unfolding untar_def by (auto intro!: safe_intros untar_loop_safe split: sum.splits)

section \<open>Where it writes\<close>

text \<open>
  The file created and filled: whatever relation the two steps keep at the place the path
  names, the entry keeps.
\<close>

definition store_file :: "string \<Rightarrow> string \<Rightarrow> go_error option \<Rightarrow> unit go" where
  "store_file p data err =
     or_errorf (os_Create p) ''untar: Create() failed: %v''
       (\<lambda>outFile. or_errorf (io_Copy outFile data err) ''untar: Copy() failed: %v'' go_return)"

lemma untar_entry_file:
  "untar_entry path name TypeReg data err = store_file (path @ ''/'' @ name) data err"
  by (simp add: untar_entry_def store_file_def TypeDir_def TypeReg_def)

lemma snd_copy:
  "snd (or_errorf (io_Copy f data err) s go_return w) = snd (os_Write f data w)"
  by (auto simp: or_errorf_def io_Copy_def go_defs split: prod.splits res.splits option.splits)

lemma store_file_cases:
  assumes "plain p"
  shows "snd (store_file p data err w) = w \<or>
    (let q = place (cwd w) p; w1 = set_entry q (File []) w
     in entry w q \<noteq> Some Dir \<and> snd (store_file p data err w) = snd (os_Write (p, q) data w1))"
proof (cases "os_Create p w")
  case (Pair r w1)
  show ?thesis
  proof (cases r)
    case (Ok f)
    then obtain q where q: "f = (p, q)" "locate w p = Inr q" "w1 = set_entry q (File []) w"
      using os_Create_Ok [of p w f w1] Pair by auto
    then have "q = place (cwd w) p" using locate_plain [OF assms] by blast
    moreover have "entry w q \<noteq> Some Dir"
      using Pair Ok q by (auto simp: os_Create_def dest!: sys_at_Inr split: sum.splits if_splits)
    ultimately show ?thesis using Pair Ok q snd_copy [of f data err _ w1]
      by (simp add: store_file_def or_errorf_def go_defs Let_def)
  next
    case (Err e)
    then have "w1 = w" using Pair by (auto simp: os_Create_def split: sum.splits if_splits)
    then show ?thesis using Pair Err by (simp add: store_file_def or_errorf_def go_defs)
  next
    case (Panic x)
    then show ?thesis using Pair os_Create_safe [of p] by (auto dest: no_panicD)
  qed
qed

lemma store_file_changes:
  assumes "plain p" "\<And>d. P d (place d p)"
  shows "keeps (changes_only P) (store_file p data err)"
proof (rule keepsI)
  fix w :: world
  let ?q = "place (cwd w) p"
  let ?w1 = "set_entry ?q (File []) w"
  have 1: "changes_only P w ?w1" using assms(2) by (rule changes_only_set_entry)
  have "changes_only P ?w1 (snd (os_Write (p, ?q) data ?w1))"
    using assms(2) [of "cwd w"]
    by (auto simp: os_Write_def changes.refl split: option.splits node.splits
        intro!: changes_only_set_entry)
  then show "changes_only P w (snd (store_file p data err w))"
    using store_file_cases [OF assms(1), of data err w] changes.trans [OF 1] changes.refl
    by (auto simp: Let_def)
qed

lemma store_file_stays:
  assumes "plain p" "place d p \<noteq> q"
  shows "keeps (file_stays d q) (store_file p data err)"
proof (rule keeps_mono [OF store_file_changes [where P = "\<lambda>e r. r = place e p"]])
  fix w w' assume "changes_only (\<lambda>e r. r = place e p) w w'"
  then show "file_stays d q w w'" using assms(2) by (auto simp: changes_only_def file_stays_def)
qed (use assms(1) in simp_all)

lemma store_file_Ok:
  assumes "store_file p data err w = (Ok (), w')" "plain p"
  shows "entry w' (place (cwd w) p) = Some (File data) \<and> cwd w' = cwd w"
proof -
  obtain f w1 where 1: "os_Create p w = (Ok f, w1)" "os_Write f data w1 = (Ok (), w')"
    using assms(1) by (auto simp: store_file_def or_errorf_def io_Copy_def go_defs
        split: prod.splits res.splits option.splits)
  obtain q where q: "f = (p, q)" "locate w p = Inr q" "q \<noteq> []" "w1 = set_entry q (File []) w"
    using os_Create_Ok [OF 1(1)] by blast
  have "q = place (cwd w) p" using locate_plain [OF assms(2) q(2)] .
  then show ?thesis
    using 1(2) q by (auto simp: os_Write_def entry_set_entry split: if_splits option.splits)
qed

text \<open>
  An archive whose names have no \<open>..\<close> is written below the target directory, or makes the
  directories that lead to it.
\<close>

definition names_plain :: "tar_item list \<Rightarrow> bool" where
  "names_plain items \<longleftrightarrow>
     list_all (\<lambda>i. case i of TarEntry name _ _ _ \<Rightarrow> plain name | TarError _ \<Rightarrow> True) items"

definition around :: "string \<Rightarrow> path \<Rightarrow> path \<Rightarrow> bool" where
  "around p d q \<longleftrightarrow> prefix (place d p) q \<or> prefix q (place d p)"

lemma place_below: "path \<noteq> [] \<Longrightarrow> prefix (place d path) (place d (path @ CHR ''/'' # name))"
  by (simp add: place_append)

lemma untar_entry_confined:
  assumes "path \<noteq> []" "plain path" "plain name"
  shows "keeps (changes_only (around path)) (untar_entry path name flag data err)"
proof -
  have p: "plain (path @ CHR ''/'' # name)" using assms by (simp add: plain_append)
  have "keeps (changes_only (around path)) (store_file (path @ CHR ''/'' # name) data err)"
    using p place_below [OF assms(1)] by (intro store_file_changes) (simp_all add: around_def)
  then have as_file: "keeps (changes_only (around path)) (untar_entry path name TypeReg data err)"
    by (simp add: untar_entry_file)
  have "keeps (changes_only (around path)) (os_MkdirAll (path @ CHR ''/'' # name))"
    using p place_below [OF assms(1)]
    by (intro os_MkdirAll_changes) (auto simp: around_def dest: prefix_same_cases)
  then have as_dir: "keeps (changes_only (around path)) (untar_entry path name TypeDir data err)"
    unfolding untar_entry_def by (auto intro!: changes.keeps_or_errorf changes.keeps_return)
  show ?thesis
  proof (cases "flag = TypeReg \<or> flag = TypeDir")
    case False
    then show ?thesis unfolding untar_entry_def by (auto intro: keeps_intros)
  qed (use as_file as_dir in auto)
qed

lemma untar_confined:
  assumes "path \<noteq> []" "plain path" "\<And>items. gzip_NewReader gz f = Inr items \<Longrightarrow> names_plain items"
  shows "keeps (changes_only (around path)) (untar gz f path cfg)"
proof (rule changes.keeps_untar)
  fix items name flag data err
  assume "gzip_NewReader gz f = Inr items" "TarEntry name flag data err \<in> set items"
  then have "plain name" using assms(3) by (force simp: names_plain_def list_all_iff)
  then show "keeps (changes_only (around path)) (untar_entry path name flag data err)"
    using assms(1,2) by (rule untar_entry_confined [rotated 2])
qed

section \<open>What it extracts\<close>

lemma go_seq_return [simp]: "go_seq (go_return ()) k = k"
  by (simp add: go_seq_def)

lemma go_seq_return_right [simp]: "go_seq m (go_return ()) = m"
  by (auto simp: fun_eq_iff go_defs split: prod.splits res.splits)

lemma go_seq_assoc: "go_seq (go_seq m k) h = go_seq m (go_seq k h)"
  by (simp add: go_seq_def go_bind_assoc)

lemma go_seq_Ok:
  "go_seq m k w = (Ok b, w') \<longleftrightarrow> (\<exists>w1. m w = (Ok (), w1) \<and> k w1 = (Ok b, w'))"
  by (auto simp: go_seq_def go_bind_def split: prod.splits res.splits)

lemma go_fail_seq: "go_seq (go_fail e) k = go_fail e"
  by (simp add: go_seq_def go_bind_def go_fail_def)

lemma untar_loop_append:
  "untar_loop (a @ b) path cfg = go_seq (untar_loop a path cfg) (untar_loop b path cfg)"
  by (induction a path cfg rule: untar_loop.induct) (simp_all add: go_seq_assoc go_fail_seq)

text \<open>No regular entry of the list is written at the place of \<open>name\<close>.\<close>

definition not_rewritten :: "string \<Rightarrow> tar_item list \<Rightarrow> bool" where
  "not_rewritten name items \<longleftrightarrow>
     list_all (\<lambda>i. case i of
         TarEntry n flag _ _ \<Rightarrow> flag = TypeReg \<longrightarrow> plain n \<and> comps n \<noteq> comps name
       | TarError _ \<Rightarrow> True) items"

lemma untar_entry_stays:
  assumes "path \<noteq> []" "plain path" "flag = TypeReg \<longrightarrow> plain n \<and> comps n \<noteq> comps name"
  shows "keeps (file_stays d (place d (path @ CHR ''/'' # name))) (untar_entry path n flag data err)"
    (is "keeps (file_stays d ?q) _")
proof (cases "flag = TypeReg")
  case True
  then have "plain (path @ CHR ''/'' # n)" "place d (path @ CHR ''/'' # n) \<noteq> ?q"
    using assms by (simp_all add: plain_append place_append)
  then show ?thesis unfolding True untar_entry_file using store_file_stays by simp
next
  case False
  have "keeps (file_stays d ?q) (print_line s)" for s
    by (rule keeps_mono [OF print_line_same_files same_files_stays])
  then show ?thesis using False unfolding untar_entry_def
    by (auto intro!: stays.keeps_or_errorf stays.keeps_return os_MkdirAll_stays)
qed

lemma untar_loop_stays:
  assumes "path \<noteq> []" "plain path" "not_rewritten name items"
  shows "keeps (file_stays d (place d (path @ CHR ''/'' # name))) (untar_loop items path cfg)"
proof (rule stays.keeps_untar_loop)
  fix n flag data err assume "TarEntry n flag data err \<in> set items"
  then have "flag = TypeReg \<longrightarrow> plain n \<and> comps n \<noteq> comps name"
    using assms(3) by (fastforce simp: not_rewritten_def list_all_iff)
  then show "keeps (file_stays d (place d (path @ CHR ''/'' # name))) (untar_entry path n flag data err)"
    using assms(1,2) by (rule untar_entry_stays [rotated 2])
qed

lemma untar_loop_cwd: "untar_loop items path cfg w = (r, w') \<Longrightarrow> cwd w' = cwd w"
proof -
  assume run: "untar_loop items path cfg w = (r, w')"
  have "keeps dirs_grow (untar_loop items path cfg)"
    by (intro dirs.keeps_untar_loop dirs.keeps_untar_entry keeps_intros)
  then show ?thesis using run by (auto simp: dirs_grow_def dest: keepsD)
qed

lemma untar_loop_extracts:
  assumes "untar_loop (pre @ TarEntry name TypeReg data err # post) path cfg w = (Ok (), w')"
    and "Contains name cfg" "path \<noteq> []" "plain path" "plain name" "not_rewritten name post"
  shows "entry w' (place (cwd w) (path @ ''/'' @ name)) = Some (File data)"
proof -
  let ?p = "path @ CHR ''/'' # name"
  obtain w1 w2 where run: "untar_loop pre path cfg w = (Ok (), w1)"
    "store_file ?p data err w1 = (Ok (), w2)" "untar_loop post path cfg w2 = (Ok (), w')"
    using assms(1,2) by (auto simp: untar_loop_append go_seq_Ok untar_entry_file)
  have "plain ?p" using assms(4,5) by (simp add: plain_append)
  then have "entry w2 (place (cwd w1) ?p) = Some (File data)" "cwd w2 = cwd w1"
    using store_file_Ok [OF run(2)] by simp_all
  moreover have "cwd w1 = cwd w" using untar_loop_cwd [OF run(1)] .
  ultimately show ?thesis
    using keepsD [OF untar_loop_stays [OF assms(3,4,6)] run(3), of "cwd w"]
    by (simp add: file_stays_def)
qed

section \<open>Properties\<close>

lemma store_file_complete: "store_file p data err w = (Ok (), w') \<Longrightarrow> err = None"
  by (auto simp: store_file_def or_errorf_def io_Copy_def go_defs split: prod.splits res.splits option.splits)

text \<open>
  C17: what is extracted. When \<open>untar\<close> succeeds on a stream that decodes, each regular entry whose
  name contains the wanted directory and has no \<open>..\<close> in it was read to its end, and is a file
  below the target with exactly the data of the entry, unless a later regular entry of the archive
  has the same path.
\<close>

theorem untar_extracts:
  assumes "untar gz f path cfg w = (Ok (), w')"
    and "gzip_NewReader gz f = Inr (pre @ TarEntry name TypeReg data err # post)"
    and "Contains name (trim_slashes cfg)" "path \<noteq> []" "plain path" "plain name" "not_rewritten name post"
  shows "entry w' (place (cwd w) (path @ ''/'' @ name)) = Some (File data) \<and> err = None"
proof -
  have run: "untar_loop (pre @ TarEntry name TypeReg data err # post) path (trim_slashes cfg) w = (Ok (), w')"
    using assms(1,2) by (simp add: untar_def)
  then obtain w1 w2 where "store_file (path @ CHR ''/'' # name) data err w1 = (Ok (), w2)"
    using assms(3) by (auto simp: untar_loop_append go_seq_Ok untar_entry_file)
  then show ?thesis using untar_loop_extracts [OF run assms(3-7)] store_file_complete by blast
qed

definition slip_world :: world where
  "slip_world =
     \<lparr>fs = [([''home''], Dir), ([''home'', ''out''], Dir)], cwd = [''home''], faults = (\<lambda>_ _. None),
      level = ''info'', stderr = [], stdout = [], net = [], clock = 0\<rparr>"

theorem untar_extracts_witness:
  "entry (snd (untar (\<lambda>_. Inr [TarEntry ''configs/a'' TypeDir [] None, TarEntry ''configs/a/c'' TypeReg ''x'' None])
       (''l'', File ''layer'') ''out'' ''/configs'' slip_world)) [''home'', ''out'', ''configs'', ''a'', ''c''] =
     Some (File ''x'')"
proof -
  let ?gz = "\<lambda>_. Inr [TarEntry ''configs/a'' TypeDir [] None, TarEntry ''configs/a/c'' TypeReg ''x'' None]"
  have "fst (untar ?gz (''l'', File ''layer'') ''out'' ''/configs'' slip_world) = Ok ()"
    by code_simp
  then obtain w' where run: "untar ?gz (''l'', File ''layer'') ''out'' ''/configs'' slip_world = (Ok (), w')"
    by (metis prod.collapse)
  have "plain ''out''" "plain ''configs/a/c''" "Contains ''configs/a/c'' (trim_slashes ''/configs'')"
    "place (cwd slip_world) ''out/configs/a/c'' = [''home'', ''out'', ''configs'', ''a'', ''c'']"
    by code_simp+
  then show ?thesis
    using untar_extracts [OF run, of "[TarEntry ''configs/a'' TypeDir [] None]" "''configs/a/c''" "''x''" None "[]"] run
    by (simp add: gzip_NewReader_def not_rewritten_def)
qed

lemma store_file_creates:
  assumes "locate w p = Inr q" "q \<noteq> []" "faults w = (\<lambda>_ _. None)" "entry w q \<noteq> Some Dir"
    "entry w (butlast q) = Some Dir"
  shows "\<exists>w'. store_file p data None w = (Ok (), w') \<and> entry w' q = Some (File data)"
  using assms by (simp add: store_file_def os_Create_def sys_at_def os_Write_def io_Copy_def or_errorf_def
      go_defs entry_set_entry)

lemma locate_up:
  assumes "locate w path = Inr t" "entry w t = Some Dir" "entry w (t @ [d]) = Some Dir"
    "entry w (butlast t) = Some Dir" "path \<noteq> []"
    "comps d = [d]" "d \<noteq> ''..''" "comps f = [f]" "f \<noteq> ''..''"
  shows "locate w (path @ ''/'' @ d @ ''/../../'' @ f) = Inr (butlast t @ [f])"
proof -
  have "d @ ''/../../'' @ f = d @ ''/'' @ ''..'' @ ''/'' @ ''..'' @ ''/'' @ f" by simp
  then have "comps (path @ ''/'' @ d @ ''/../../'' @ f) = comps path @ [d, ''..'', ''..'', f]"
    using assms(6,8) by (simp only: comps_append) (simp add: comps_def)
  moreover have "start_dir w (path @ x) = start_dir w path" for x
    using assms(5) by (cases path) (simp_all add: start_dir_def HasPrefix_def)
  ultimately show ?thesis
    using assms by (simp add: locate_def walk_append split: if_splits)
qed

lemma Contains_front: "Contains (d @ s) d"
proof (cases "d @ s")
  case (Cons c cs)
  then have "prefix d (c # cs)" by (metis prefixI)
  then show ?thesis using Cons by (simp add: HasPrefix_def)
qed simp

text \<open>
  C18: the names of an archive are trusted. Whatever the target directory, the wanted directory
  \<open>d\<close> and the data, an archive can put a file outside the target: an entry that climbs out of it
  with \<open>..\<close> is written beside the target, over a file that is there, and \<open>untar\<close> succeeds.
\<close>

theorem untar_escapes:
  assumes "gz s = Inr [TarEntry (d @ ''/../../'' @ f) TypeReg data None]" "trim_slashes cfg = d"
    and "locate w path = Inr t" "t \<noteq> []" "entry w t = Some Dir" "entry w (t @ [d]) = Some Dir"
    and "entry w (butlast t) = Some Dir" "entry w (butlast t @ [f]) \<noteq> Some Dir"
    and "comps d = [d]" "d \<noteq> ''..''" "comps f = [f]" "f \<noteq> ''..''" "f \<noteq> last t" "faults w = (\<lambda>_ _. None)"
  shows "\<exists>w'. untar gz (l, File s) path cfg w = (Ok (), w') \<and>
    entry w' (butlast t @ [f]) = Some (File data) \<and> \<not> prefix t (butlast t @ [f])"
proof -
  have "path \<noteq> []" using assms(3) by (auto simp: locate_def)
  then have "locate w (path @ ''/'' @ d @ ''/../../'' @ f) = Inr (butlast t @ [f])"
    using locate_up assms by blast
  then obtain w' where "store_file (path @ ''/'' @ d @ ''/../../'' @ f) data None w = (Ok (), w')"
    "entry w' (butlast t @ [f]) = Some (File data)"
    using store_file_creates [of w _ "butlast t @ [f]" data] assms(7,8,14) by auto
  moreover have "untar gz (l, File s) path cfg = store_file (path @ ''/'' @ d @ ''/../../'' @ f) data None"
    using Contains_front [of d "''/../../'' @ f"] assms(1,2)
    by (simp add: untar_def gzip_NewReader_def untar_entry_file)
  moreover have "\<not> prefix t (butlast t @ [f])"
    using assms(4,13) by (cases t rule: rev_cases) auto
  ultimately show ?thesis by auto
qed

theorem untar_escapes_witness:
  "\<exists>w'. untar (\<lambda>_. Inr [TarEntry ''configs/../../evil'' TypeReg ''x'' None]) (''l'', File ''layer'') ''out'' ''/configs''
      (slip_world\<lparr>fs := [([''home''], Dir), ([''home'', ''out''], Dir), ([''home'', ''out'', ''configs''], Dir)]\<rparr>) =
        (Ok (), w') \<and> entry w' [''home'', ''evil''] = Some (File ''x'')"
proof -
  let ?w = "slip_world\<lparr>fs := [([''home''], Dir), ([''home'', ''out''], Dir), ([''home'', ''out'', ''configs''], Dir)]\<rparr>"
  let ?t = "[''home'', ''out'']"
  have "trim_slashes ''/configs'' = ''configs''" "locate ?w ''out'' = Inr ?t" "entry ?w ?t = Some Dir"
    "entry ?w (?t @ [''configs'']) = Some Dir" "entry ?w (butlast ?t) = Some Dir"
    "entry ?w (butlast ?t @ [''evil'']) = None" "comps ''configs'' = [''configs'']" "comps ''evil'' = [''evil'']"
    by code_simp+
  then show ?thesis
    using untar_escapes [of "\<lambda>_. Inr [TarEntry ''configs/../../evil'' TypeReg ''x'' None]" "''layer''" "''configs''"
      "''evil''" "''x''" "''/configs''" ?w "''out''" ?t "''l''"]
    by (simp add: slip_world_def)
qed

definition wanted :: "string \<Rightarrow> tar_item \<Rightarrow> bool" where
  "wanted cfg i = (case i of TarEntry name _ _ _ \<Rightarrow> Contains name cfg | TarError _ \<Rightarrow> True)"

definition only_wanted :: "string \<Rightarrow> gunzip \<Rightarrow> gunzip" where
  "only_wanted cfg gz s =
     (case gz s of Inl e \<Rightarrow> Inl e | Inr items \<Rightarrow> Inr (filter (wanted (trim_slashes cfg)) items))"

lemma untar_loop_wanted: "untar_loop (filter (wanted cfg) items) path cfg = untar_loop items path cfg"
  by (induction items path cfg rule: untar_loop.induct) (simp_all add: wanted_def)

text \<open>
  Only what is wanted matters: \<open>untar\<close> does exactly what it would do on the archive with all
  entries left out whose name does not contain the wanted directory, wherever in the name it is;
  the errors of the stream stay where they are.
\<close>

theorem untar_only_wanted: "untar gz f path cfg = untar (only_wanted cfg gz) f path cfg"
  by (cases f rule: read_all.cases)
    (auto simp: untar_def gzip_NewReader_def only_wanted_def untar_loop_wanted split: sum.split)

end
