(* ===== verification/GoJson.thy ===== *)
theory GoJson
  imports Prelude
begin

text \<open>
  The syntax half of Go's \<open>encoding/json\<close>: from the bytes of a document to a JSON value. Like
  the scanner of the standard library it reads the input once, character by character: a
  lexer with one state per place inside a token, and a parser that is a machine with a stack
  of open arrays and objects. Both are structural recursions, so they are total. String tokens
  carry their text as written; \<open>unquote\<close> resolves the escapes when a value is built.

  Input is taken to be valid UTF-8 nested less than 10000 deep (beyond that the library
  replaces bytes, and refuses the document).
\<close>

section \<open>Values and tokens\<close>

datatype json =
    JNull
  | JBool bool
  | JNum string
  | JStr string
  | JArr "json list"
  | JObj "(string \<times> json) list"

datatype tok =
    LBrace | RBrace | LBrack | RBrack | Colon | Comma | TNull | TTrue | TFalse
  | TNum string | TStr string

section \<open>Characters\<close>

definition code :: "char \<Rightarrow> nat" where
  "code c = of_char c"

definition is_ws :: "char \<Rightarrow> bool" where
  "is_ws c \<longleftrightarrow> c = CHR '' '' \<or> c = CHR 0x09 \<or> c = CHR 0x0A \<or> c = CHR 0x0D"

definition is_digit :: "char \<Rightarrow> bool" where
  "is_digit c \<longleftrightarrow> 48 \<le> code c \<and> code c \<le> 57"

definition is_lower :: "char \<Rightarrow> bool" where
  "is_lower c \<longleftrightarrow> 97 \<le> code c \<and> code c \<le> 122"

definition is_num_char :: "char \<Rightarrow> bool" where
  "is_num_char c \<longleftrightarrow> is_digit c \<or> c \<in> {CHR ''-'', CHR ''+'', CHR ''.'', CHR ''e'', CHR ''E''}"

definition hex_value :: "char \<Rightarrow> nat option" where
  "hex_value c =
     (if is_digit c then Some (code c - 48)
      else if 97 \<le> code c \<and> code c \<le> 102 then Some (code c - 87)
      else if 65 \<le> code c \<and> code c \<le> 70 then Some (code c - 55)
      else None)"

section \<open>Numbers\<close>

text \<open>The grammar \<open>-? (0 | [1-9][0-9]*) (. [0-9]+)? ([eE] [+-]? [0-9]+)?\<close>.\<close>

definition drop_sign :: "string \<Rightarrow> string" where
  "drop_sign s = (case s of c # r \<Rightarrow> if c = CHR ''-'' then r else s | [] \<Rightarrow> [])"

definition valid_exp :: "string \<Rightarrow> bool" where
  "valid_exp s =
     (case s of
        [] \<Rightarrow> True
      | c # r \<Rightarrow> (c = CHR ''e'' \<or> c = CHR ''E'') \<and>
          (let ds = (case r of d # r' \<Rightarrow> if d = CHR ''+'' \<or> d = CHR ''-'' then r' else r | [] \<Rightarrow> [])
           in ds \<noteq> [] \<and> list_all is_digit ds))"

definition valid_frac :: "string \<Rightarrow> bool" where
  "valid_frac s =
     (case s of
        c # r \<Rightarrow> if c = CHR ''.'' then takeWhile is_digit r \<noteq> [] \<and> valid_exp (dropWhile is_digit r)
                 else valid_exp s
      | [] \<Rightarrow> True)"

definition valid_number :: "string \<Rightarrow> bool" where
  "valid_number s =
     (let r = drop_sign s; ip = takeWhile is_digit r
      in ip \<noteq> [] \<and> (hd ip = CHR ''0'' \<longrightarrow> length ip = 1) \<and> valid_frac (dropWhile is_digit r))"

section \<open>Strings\<close>

text \<open>\<open>utf8.EncodeRune\<close>\<close>

definition utf8 :: "nat \<Rightarrow> string" where
  "utf8 n =
     (if n < 0x80 then [char_of n]
      else if n < 0x800 then [char_of (0xC0 + n div 64), char_of (0x80 + n mod 64)]
      else if n < 0x10000 then
        [char_of (0xE0 + n div 4096), char_of (0x80 + n div 64 mod 64), char_of (0x80 + n mod 64)]
      else [char_of (0xF0 + n div 262144), char_of (0x80 + n div 4096 mod 64),
        char_of (0x80 + n div 64 mod 64), char_of (0x80 + n mod 64)])"

fun hex_number :: "nat \<Rightarrow> string \<Rightarrow> nat" where
  "hex_number acc [] = acc"
| "hex_number acc (c # s) = hex_number (16 * acc + (case hex_value c of Some v \<Rightarrow> v | None \<Rightarrow> 0)) s"

definition is_high_surrogate :: "nat \<Rightarrow> bool" where
  "is_high_surrogate n \<longleftrightarrow> 0xD800 \<le> n \<and> n < 0xDC00"

definition is_low_surrogate :: "nat \<Rightarrow> bool" where
  "is_low_surrogate n \<longleftrightarrow> 0xDC00 \<le> n \<and> n < 0xE000"

definition esc_char :: "char \<Rightarrow> char" where
  "esc_char c =
     (if c = CHR ''b'' then CHR 0x08 else if c = CHR ''f'' then CHR 0x0C
      else if c = CHR ''n'' then CHR 0x0A else if c = CHR ''r'' then CHR 0x0D
      else if c = CHR ''t'' then CHR 0x09 else c)"

definition cont :: "nat \<Rightarrow> nat \<Rightarrow> char \<Rightarrow> bool" where
  "cont lo hi c \<longleftrightarrow> lo \<le> code c \<and> code c \<le> hi"

definition rune2 :: "char \<Rightarrow> char \<Rightarrow> bool" where
  "rune2 a b \<longleftrightarrow> 0xC2 \<le> code a \<and> code a \<le> 0xDF \<and> cont 0x80 0xBF b"

definition rune3 :: "char \<Rightarrow> char \<Rightarrow> char \<Rightarrow> bool" where
  "rune3 a b c \<longleftrightarrow> 0xE0 \<le> code a \<and> code a \<le> 0xEF \<and> cont 0x80 0xBF c \<and>
     cont (if code a = 0xE0 then 0xA0 else 0x80) (if code a = 0xED then 0x9F else 0xBF) b"

definition rune4 :: "char \<Rightarrow> char \<Rightarrow> char \<Rightarrow> char \<Rightarrow> bool" where
  "rune4 a b c d \<longleftrightarrow> 0xF0 \<le> code a \<and> code a \<le> 0xF4 \<and> cont 0x80 0xBF c \<and> cont 0x80 0xBF d \<and>
     cont (if code a = 0xF0 then 0x90 else 0x80) (if code a = 0xF4 then 0x8F else 0xBF) b"

text \<open>\<open>utf8.DecodeRune\<close> on a byte above 127: the length of the encoded character, or 0.\<close>

fun rune_len :: "string \<Rightarrow> nat" where
  "rune_len (a # b # c # d # r) =
     (if rune2 a b then 2 else if rune3 a b c then 3 else if rune4 a b c d then 4 else 0)"
| "rune_len [a, b, c] = (if rune2 a b then 2 else if rune3 a b c then 3 else 0)"
| "rune_len [a, b] = (if rune2 a b then 2 else 0)"
| "rune_len _ = 0"

lemma rune_len_le: "rune_len s \<le> length s"
  by (cases s rule: rune_len.cases) auto

text \<open>
  \<open>unquote\<close>: a lone half of a surrogate pair and a byte that is not part of the encoding of a
  character become the replacement character U+FFFD.
\<close>

function unquote :: "string \<Rightarrow> string" where
  "unquote s =
     (case s of
        [] \<Rightarrow> []
      | c # r \<Rightarrow>
          if code c < 128 \<and> c \<noteq> CHR 0x5C then c # unquote r
          else if 128 \<le> code c then
            (if rune_len s = 0 then utf8 0xFFFD @ unquote r
             else take (rune_len s) s @ unquote (drop (rune_len s) s))
          else if r = [] then []
          else if hd r \<noteq> CHR ''u'' then esc_char (hd r) # unquote (tl r)
          else
            (let n = hex_number 0 (take 4 (tl r)); s2 = drop 4 (tl r);
                 m = hex_number 0 (take 4 (drop 2 s2))
             in if is_high_surrogate n \<and> take 2 s2 = [CHR 0x5C, CHR ''u''] \<and> is_low_surrogate m
                then utf8 (0x10000 + (n - 0xD800) * 1024 + (m - 0xDC00)) @ unquote (drop 6 s2)
                else utf8 (if is_high_surrogate n \<or> is_low_surrogate n then 0xFFFD else n) @ unquote s2))"
  by pat_completeness auto
termination
  by (relation "measure length") auto

declare unquote.simps [simp del]

section \<open>The lexer\<close>

datatype lexst =
    Between
  | InWord string
  | InNum string
  | InStr string
  | InEsc string
  | InHex nat string

datatype lex_end = LexDone | LexBad | LexOpen

definition punct :: "char \<Rightarrow> tok option" where
  "punct c =
     (if c = CHR ''{'' then Some LBrace else if c = CHR ''}'' then Some RBrace
      else if c = CHR ''['' then Some LBrack else if c = CHR '']'' then Some RBrack
      else if c = CHR '':'' then Some Colon else if c = CHR '','' then Some Comma
      else None)"

definition lex_start :: "char \<Rightarrow> (tok list \<times> lexst) option" where
  "lex_start c =
     (if is_ws c then Some ([], Between)
      else if c = CHR 0x22 then Some ([], InStr [])
      else if is_lower c then Some ([], InWord [c])
      else if is_digit c \<or> c = CHR ''-'' then Some ([], InNum [c])
      else (case punct c of Some t \<Rightarrow> Some ([t], Between) | None \<Rightarrow> None))"

definition word_tok :: "string \<Rightarrow> tok option" where
  "word_tok s =
     (if s = ''null'' then Some TNull else if s = ''true'' then Some TTrue
      else if s = ''false'' then Some TFalse else None)"

definition num_tok :: "string \<Rightarrow> tok option" where
  "num_tok s = (if valid_number s then Some (TNum s) else None)"

definition end_tok :: "tok option \<Rightarrow> char \<Rightarrow> (tok list \<times> lexst) option" where
  "end_tok t c =
     (case t of
        None \<Rightarrow> None
      | Some t \<Rightarrow> (case lex_start c of None \<Rightarrow> None | Some (ts, st) \<Rightarrow> Some (t # ts, st)))"

fun lex_step :: "lexst \<Rightarrow> char \<Rightarrow> (tok list \<times> lexst) option" where
  "lex_step Between c = lex_start c"
| "lex_step (InWord s) c = (if is_lower c then Some ([], InWord (s @ [c])) else end_tok (word_tok s) c)"
| "lex_step (InNum s) c = (if is_num_char c then Some ([], InNum (s @ [c])) else end_tok (num_tok s) c)"
| "lex_step (InStr s) c =
     (if c = CHR 0x22 then Some ([TStr s], Between)
      else if c = CHR 0x5C then Some ([], InEsc s)
      else if code c < 32 then None
      else Some ([], InStr (s @ [c])))"
| "lex_step (InEsc s) c =
     (if c \<in> {CHR 0x22, CHR 0x5C, CHR ''/'', CHR ''b'', CHR ''f'', CHR ''n'', CHR ''r'', CHR ''t''}
      then Some ([], InStr (s @ [CHR 0x5C, c]))
      else if c = CHR ''u'' then Some ([], InHex 4 (s @ [CHR 0x5C, c]))
      else None)"
| "lex_step (InHex n s) c =
     (if hex_value c = None then None
      else if n \<le> 1 then Some ([], InStr (s @ [c]))
      else Some ([], InHex (n - 1) (s @ [c])))"

definition is_open_word :: "string \<Rightarrow> bool" where
  "is_open_word s \<longleftrightarrow> prefix s ''null'' \<or> prefix s ''true'' \<or> prefix s ''false''"

fun lex_finish :: "lexst \<Rightarrow> tok list \<times> lex_end" where
  "lex_finish Between = ([], LexDone)"
| "lex_finish (InWord s) =
     (case word_tok s of
        Some t \<Rightarrow> ([t], LexDone)
      | None \<Rightarrow> ([], if is_open_word s then LexOpen else LexBad))"
| "lex_finish (InNum s) =
     (case num_tok s of
        Some t \<Rightarrow> ([t], LexDone)
      | None \<Rightarrow> ([], if valid_number (s @ ''0'') then LexOpen else LexBad))"
| "lex_finish _ = ([], LexOpen)"

fun lexer :: "lexst \<Rightarrow> string \<Rightarrow> tok list \<times> lex_end" where
  "lexer st [] = lex_finish st"
| "lexer st (c # s) =
     (case lex_step st c of
        None \<Rightarrow> ([], LexBad)
      | Some (ts, st') \<Rightarrow> (let (us, e) = lexer st' s in (ts @ us, e)))"

section \<open>The parser\<close>

datatype frame = FArr "json list" | FObj "(string \<times> json) list" string

datatype pstate =
    PValue
  | PFirst
  | PAfterElem "json list"
  | PFirstKey
  | PKey "(string \<times> json) list"
  | PColon "(string \<times> json) list" string
  | PAfterMem "(string \<times> json) list"
  | PDone json

text \<open>A finished value goes to the innermost open array or object, or is the document.\<close>

fun give :: "json \<Rightarrow> frame list \<Rightarrow> frame list \<times> pstate" where
  "give v [] = ([], PDone v)"
| "give v (FArr vs # st) = (st, PAfterElem (vs @ [v]))"
| "give v (FObj ms k # st) = (st, PAfterMem (ms @ [(k, v)]))"

fun begin_value :: "frame list \<Rightarrow> tok \<Rightarrow> (frame list \<times> pstate) option" where
  "begin_value st LBrace = Some (st, PFirstKey)"
| "begin_value st LBrack = Some (st, PFirst)"
| "begin_value st TNull = Some (give JNull st)"
| "begin_value st TTrue = Some (give (JBool True) st)"
| "begin_value st TFalse = Some (give (JBool False) st)"
| "begin_value st (TNum s) = Some (give (JNum s) st)"
| "begin_value st (TStr s) = Some (give (JStr (unquote s)) st)"
| "begin_value st _ = None"

fun parse_step :: "frame list \<times> pstate \<Rightarrow> tok \<Rightarrow> (frame list \<times> pstate) option" where
  "parse_step (st, PValue) t = begin_value st t"
| "parse_step (st, PFirst) t =
     (if t = RBrack then Some (give (JArr []) st) else begin_value (FArr [] # st) t)"
| "parse_step (st, PAfterElem vs) t =
     (if t = Comma then Some (FArr vs # st, PValue)
      else if t = RBrack then Some (give (JArr vs) st) else None)"
| "parse_step (st, PFirstKey) t =
     (case t of RBrace \<Rightarrow> Some (give (JObj []) st) | TStr k \<Rightarrow> Some (st, PColon [] (unquote k)) | _ \<Rightarrow> None)"
| "parse_step (st, PKey ms) t =
     (case t of TStr k \<Rightarrow> Some (st, PColon ms (unquote k)) | _ \<Rightarrow> None)"
| "parse_step (st, PColon ms k) t = (if t = Colon then Some (FObj ms k # st, PValue) else None)"
| "parse_step (st, PAfterMem ms) t =
     (if t = Comma then Some (st, PKey ms)
      else if t = RBrace then Some (give (JObj ms) st) else None)"
| "parse_step (st, PDone v) t = None"

fun parse_run :: "frame list \<times> pstate \<Rightarrow> tok list \<Rightarrow> (frame list \<times> pstate) option" where
  "parse_run s [] = Some s"
| "parse_run s (t # ts) = (case parse_step s t of None \<Rightarrow> None | Some s' \<Rightarrow> parse_run s' ts)"

definition bad_char :: go_error where
  "bad_char = JSONSyntaxError ''invalid character''"

definition bad_end :: go_error where
  "bad_end = JSONSyntaxError ''unexpected end of JSON input''"

definition parse_tokens :: "tok list \<times> lex_end \<Rightarrow> go_error + json" where
  "parse_tokens te =
     (case parse_run ([], PValue) (fst te) of
        None \<Rightarrow> Inl bad_char
      | Some (st, ps) \<Rightarrow>
          (case snd te of
             LexBad \<Rightarrow> Inl bad_char
           | LexOpen \<Rightarrow> (case ps of PDone v \<Rightarrow> Inl bad_char | _ \<Rightarrow> Inl bad_end)
           | LexDone \<Rightarrow> (case ps of PDone v \<Rightarrow> Inr v | _ \<Rightarrow> Inl bad_end)))"

definition parse_json :: "string \<Rightarrow> go_error + json" where
  "parse_json s = parse_tokens (lexer Between s)"

lemma parse_json_Nil [simp]: "parse_json [] = Inl bad_end"
  by (simp add: parse_json_def parse_tokens_def)

lemma parse_run_append:
  "parse_run s (ts @ us) = (case parse_run s ts of None \<Rightarrow> None | Some s' \<Rightarrow> parse_run s' us)"
  by (induction ts arbitrary: s) (auto split: option.splits)

end
