(* ===== verification/GoDecode.thy ===== *)
theory GoDecode
  imports GoJson
begin

text \<open>
  The decoding half of Go's \<open>json.Unmarshal\<close>: a JSON value stored into a Go value of a given
  type. A decoder takes the value and what the variable held, and gives what it holds
  afterwards with the errors met on the way, in order. As in Go, \<open>null\<close> leaves scalars and
  structs alone and clears slices and pointers, a member with no field is ignored, field names
  match exactly or else up to the case of ASCII letters, and decoding goes on after a type
  error. \<open>json_Unmarshal\<close> checks the syntax of the whole input first, and returns an error of
  an \<open>UnmarshalJSON\<close> method (for times) before the first saved type error.
\<close>

type_synonym 'a dec = "json \<Rightarrow> 'a \<Rightarrow> 'a \<times> go_error list"

fun json_kind :: "json \<Rightarrow> string" where
  "json_kind JNull = ''null''"
| "json_kind (JBool b) = ''bool''"
| "json_kind (JNum s) = ''number''"
| "json_kind (JStr s) = ''string''"
| "json_kind (JArr vs) = ''array''"
| "json_kind (JObj ms) = ''object''"

definition type_error :: "json \<Rightarrow> string \<Rightarrow> 'a \<Rightarrow> 'a \<times> go_error list" where
  "type_error j t old = (old, [JSONTypeError (json_kind j) t])"

fun dec_string :: "string dec" where
  "dec_string (JStr s) old = (s, [])"
| "dec_string JNull old = (old, [])"
| "dec_string j old = type_error j ''string'' old"

fun dec_bool :: "bool dec" where
  "dec_bool (JBool b) old = (b, [])"
| "dec_bool JNull old = (old, [])"
| "dec_bool j old = type_error j ''bool'' old"

definition digits_value :: "string \<Rightarrow> int" where
  "digits_value ds = fold (\<lambda>c n. 10 * n + (int (code c) - 48)) ds 0"

text \<open>\<open>strconv.ParseInt (s, 10, 64)\<close> on a JSON number\<close>

definition parse_int64 :: "string \<Rightarrow> int option" where
  "parse_int64 s =
     (let ds = drop_sign s; n = (if ds = s then digits_value ds else - digits_value ds)
      in if ds \<noteq> [] \<and> list_all is_digit ds \<and> - (2 ^ 63) \<le> n \<and> n < 2 ^ 63 then Some n else None)"

fun dec_int :: "int dec" where
  "dec_int (JNum s) old =
     (case parse_int64 s of
        Some n \<Rightarrow> (n, [])
      | None \<Rightarrow> (old, [JSONTypeError (''number '' @ s) ''int'']))"
| "dec_int JNull old = (old, [])"
| "dec_int j old = type_error j ''int'' old"

text \<open>\<open>interface{}\<close> and \<open>json.RawMessage\<close> keep the value itself\<close>

definition dec_any :: "json dec" where
  "dec_any j old = (j, [])"

text \<open>
  An instant is kept as the text it was given by; the text must be in the form of RFC 3339, which Go
  reads strictly since version 1.20 (an hour of two digits, a full stop before the fraction).
\<close>

definition two_digits :: "string \<Rightarrow> nat \<Rightarrow> nat \<Rightarrow> bool" where
  "two_digits s lo hi \<longleftrightarrow>
     length s = 2 \<and> list_all is_digit s \<and> int lo \<le> digits_value s \<and> digits_value s \<le> int hi"

definition days_in_month :: "int \<Rightarrow> int \<Rightarrow> nat" where
  "days_in_month y m =
     (if m = 2 then (if y mod 4 = 0 \<and> (y mod 100 \<noteq> 0 \<or> y mod 400 = 0) then 29 else 28)
      else if m \<in> {4, 6, 9, 11} then 30 else 31)"

definition zone_ok :: "string \<Rightarrow> bool" where
  "zone_ok s \<longleftrightarrow> s = ''Z'' \<or>
     (length s = 6 \<and> (hd s = CHR ''+'' \<or> hd s = CHR ''-'') \<and> s ! 3 = CHR '':'' \<and>
      two_digits (take 2 (drop 1 s)) 0 23 \<and> two_digits (drop 4 s) 0 59)"

definition fraction_zone_ok :: "string \<Rightarrow> bool" where
  "fraction_zone_ok s =
     (case s of
        c # r \<Rightarrow> if c = CHR ''.''
                 then takeWhile is_digit r \<noteq> [] \<and> zone_ok (dropWhile is_digit r) else zone_ok s
      | [] \<Rightarrow> False)"

definition rfc3339 :: "string \<Rightarrow> bool" where
  "rfc3339 s \<longleftrightarrow>
     20 \<le> length s \<and> list_all is_digit (take 4 s) \<and> s ! 4 = CHR ''-'' \<and> s ! 7 = CHR ''-'' \<and>
     s ! 10 = CHR ''T'' \<and> s ! 13 = CHR '':'' \<and> s ! 16 = CHR '':'' \<and>
     two_digits (take 2 (drop 5 s)) 1 12 \<and>
     two_digits (take 2 (drop 8 s)) 1
       (days_in_month (digits_value (take 4 s)) (digits_value (take 2 (drop 5 s)))) \<and>
     two_digits (take 2 (drop 11 s)) 0 23 \<and> two_digits (take 2 (drop 14 s)) 0 59 \<and>
     two_digits (take 2 (drop 17 s)) 0 59 \<and> fraction_zone_ok (drop 19 s)"

fun dec_time :: "string dec" where
  "dec_time JNull old = (old, [])"
| "dec_time (JStr s) old = (if rfc3339 s then (s, []) else (old, [TimeParseError s]))"
| "dec_time j old = (old, [TimeParseError (json_kind j)])"

section \<open>Composite types\<close>

fun dec_elems :: "'a dec \<Rightarrow> 'a \<Rightarrow> json list \<Rightarrow> 'a list \<times> go_error list" where
  "dec_elems d z [] = ([], [])"
| "dec_elems d z (v # vs) =
     (let (a, es) = d v z; (as, fs) = dec_elems d z vs in (a # as, es @ fs))"

definition dec_slice :: "string \<Rightarrow> 'a dec \<Rightarrow> 'a \<Rightarrow> 'a list dec" where
  "dec_slice t d z j old =
     (case j of
        JArr vs \<Rightarrow> dec_elems d z vs
      | JNull \<Rightarrow> ([], [])
      | _ \<Rightarrow> type_error j t old)"

type_synonym 'r field = "string \<times> (json \<Rightarrow> 'r \<Rightarrow> 'r \<times> go_error list)"

definition fld ::
  "string \<Rightarrow> 'a dec \<Rightarrow> ('r \<Rightarrow> 'a) \<Rightarrow> (('a \<Rightarrow> 'a) \<Rightarrow> 'r \<Rightarrow> 'r) \<Rightarrow> 'r field" where
  "fld name d get upd =
     (name, \<lambda>j r. let (v, es) = d j (get r) in (upd (\<lambda>_. v) r, es))"

definition fold_case :: "string \<Rightarrow> string" where
  "fold_case s = map (\<lambda>c. if 65 \<le> code c \<and> code c \<le> 90 then char_of (code c + 32) else c) s"

definition find_field :: "'r field list \<Rightarrow> string \<Rightarrow> 'r field option" where
  "find_field fs k =
     (case List.find (\<lambda>f. fst f = k) fs of
        Some f \<Rightarrow> Some f
      | None \<Rightarrow> List.find (\<lambda>f. fold_case (fst f) = fold_case k) fs)"

fun dec_members :: "'r field list \<Rightarrow> (string \<times> json) list \<Rightarrow> 'r \<Rightarrow> 'r \<times> go_error list" where
  "dec_members fs [] r = (r, [])"
| "dec_members fs ((k, v) # ms) r =
     (case find_field fs k of
        None \<Rightarrow> dec_members fs ms r
      | Some f \<Rightarrow>
          (let (r1, es1) = snd f v r; (r2, es2) = dec_members fs ms r1 in (r2, es1 @ es2)))"

definition dec_struct :: "string \<Rightarrow> 'r field list \<Rightarrow> 'r dec" where
  "dec_struct t fs j r =
     (case j of
        JObj ms \<Rightarrow> dec_members fs ms r
      | JNull \<Rightarrow> (r, [])
      | _ \<Rightarrow> type_error j t r)"

text \<open>A pointer: \<open>null\<close> makes it nil; anything else is stored into what it points to, or a new zero value.\<close>

definition dec_pointer :: "'a dec \<Rightarrow> 'a \<Rightarrow> 'a option dec" where
  "dec_pointer d z j p =
     (if j = JNull then (None, [])
      else (let (a, es) = d j (case p of Some a \<Rightarrow> a | None \<Rightarrow> z) in (Some a, es)))"

text \<open>The error that an \<open>UnmarshalJSON\<close> or \<open>UnmarshalText\<close> method returns ends the decoding.\<close>

definition method_error :: "go_error \<Rightarrow> go_error" where
  "method_error e = WrapError (err_text e) e"

fun from_method :: "go_error \<Rightarrow> bool" where
  "from_method (TimeParseError s) = True"
| "from_method (WrapError m e) = True"
| "from_method _ = False"

definition first_error :: "go_error list \<Rightarrow> go_error option" where
  "first_error es =
     (case List.find from_method es of
        Some e \<Rightarrow> Some e
      | None \<Rightarrow> (case es of [] \<Rightarrow> None | e # _ \<Rightarrow> Some e))"

definition json_Unmarshal :: "'a dec \<Rightarrow> string \<Rightarrow> 'a \<Rightarrow> 'a res" where
  "json_Unmarshal d s old =
     (case parse_json s of
        Inl e \<Rightarrow> Err e
      | Inr j \<Rightarrow>
          (let (a, es) = d j old
           in case first_error es of Some e \<Rightarrow> Err e | None \<Rightarrow> Ok a))"

lemma first_error_Nil [simp]: "first_error [] = None"
  by (simp add: first_error_def)

lemma first_error_None [simp]: "first_error es = None \<longleftrightarrow> es = []"
  by (auto simp: first_error_def split: option.splits list.splits)

lemma json_Unmarshal_Nil [simp]: "json_Unmarshal d [] old = Err bad_end"
  by (simp add: json_Unmarshal_def)

lemma json_Unmarshal_Ok:
  "json_Unmarshal d s old = Ok a \<longleftrightarrow> (\<exists>j. parse_json s = Inr j \<and> d j old = (a, []))"
  by (auto simp: json_Unmarshal_def split: sum.splits prod.splits option.splits)

lemma json_Unmarshal_no_panic: "json_Unmarshal d s old \<noteq> Panic x"
  by (auto simp: json_Unmarshal_def split: sum.splits prod.splits option.splits)

lemma dec_elems_map:
  "(\<And>v. v \<in> set vs \<Longrightarrow> d v z = (f v, [])) \<Longrightarrow> dec_elems d z vs = (map f vs, [])"
  by (induction vs) auto

lemma dec_elems_length: "length (fst (dec_elems d z vs)) = length vs"
  by (induction vs) (auto split: prod.splits)

end
