(* ===== verification/V1alpha3.thy ===== *)
theory V1alpha3
  imports GoDecode
begin

text \<open>
  The data model of pkg/api/v1alpha3/types.go: one record per struct, in the file's order, the
  field \<open>F\<close> of the struct with the record's tag before it. A JSON decoder is given for the
  types the program decodes: the OCI index and manifest, the operator image configuration, the
  release image stream and the documents of a catalog. Strings that hold an instant
  (\<open>time.Time\<close>) keep its text.
\<close>

definition SchemaPackage :: string where "SchemaPackage = ''olm.package''"
definition SchemaChannel :: string where "SchemaChannel = ''olm.channel''"
definition SchemaBundle :: string where "SchemaBundle = ''olm.bundle''"

type_synonym go_time = string

section \<open>Release\<close>

record MetadataAnnotations =
  ma_ReleaseOpenshiftIoFromImageStream :: string
  ma_ReleaseOpenshiftIoFromRelease :: string

record V3Metadata =
  md_Name :: string
  md_CreationTimestamp :: go_time
  md_Annotations :: MetadataAnnotations

record LookupPolicy =
  lp_Local :: bool

record Annotations =
  an_IoOpenshiftBuildCommitID :: string
  an_IoOpenshiftBuildCommitRef :: string
  an_IoOpenshiftBuildSourceLocation :: string
  an_IoOpenshiftBuildVersionDisplayNames :: string
  an_IoOpenshiftBuildVersions :: string

record From =
  fr_Kind :: string
  fr_Name :: string

datatype ImportPolicy = ImportPolicy

record ReferencePolicy =
  rp_Type :: string

record Tags =
  tg_Name :: string
  tg_Annotations :: Annotations
  tg_From :: From
  tg_Generation :: json
  tg_ImportPolicy :: ImportPolicy
  tg_ReferencePolicy :: ReferencePolicy

record Spec =
  sp_LookupPolicy :: LookupPolicy
  sp_Tags :: "Tags list"

record Status =
  st_DockerImageRepository :: string

record ReleaseSchema =
  rs_Kind :: string
  rs_APIVersion :: string
  rs_Metadata :: V3Metadata
  rs_Spec :: Spec
  rs_Status :: Status

section \<open>OCI image\<close>

record OCIManifest =
  om_MediaType :: string
  om_Digest :: string
  om_Size :: int

record OCISchema =
  oci_SchemaVersion :: int
  oci_MediaType :: string
  oci_Manifests :: "OCIManifest list"
  oci_Config :: OCIManifest
  oci_Layers :: "OCIManifest list"

section \<open>Operator image configuration\<close>

record OperatorLabels =
  ol_License :: string
  ol_Architecture :: string
  ol_BuildDate :: string
  ol_ComRedhatBuildHost :: string
  ol_ComRedhatComponent :: string
  ol_ComRedhatIndexDeliveryDistributionScope :: string
  ol_ComRedhatIndexDeliveryVersion :: string
  ol_ComRedhatLicenseTerms :: string
  ol_Description :: string
  ol_DistributionScope :: string
  ol_IoBuildahVersion :: string
  ol_IoK8SDescription :: string
  ol_IoK8SDisplayName :: string
  ol_IoOpenshiftBuildCommitID :: string
  ol_IoOpenshiftBuildCommitURL :: string
  ol_IoOpenshiftBuildSourceLocation :: string
  ol_IoOpenshiftExposeServices :: string
  ol_IoOpenshiftMaintainerComponent :: string
  ol_IoOpenshiftMaintainerProduct :: string
  ol_IoOpenshiftMaintainerProject :: string
  ol_IoOpenshiftTags :: string
  ol_Maintainer :: string
  ol_Name :: string
  ol_OperatorsOperatorframeworkIoIndexConfigsV1 :: string
  ol_Release :: string
  ol_Summary :: string
  ol_URL :: string
  ol_VcsRef :: string
  ol_VcsType :: string
  ol_Vendor :: string
  ol_Version :: string

datatype TCP = TCP

record ExposedPorts =
  ep_TCP :: TCP

record OperatorConfig =
  oc_User :: string
  oc_ExposedPorts :: ExposedPorts
  oc_Env :: "string list"
  oc_Entrypoint :: "string list"
  oc_Cmd :: "string list"
  oc_WorkingDir :: string
  oc_Labels :: OperatorLabels

record OperatorRootFS =
  or_Type :: string
  or_DiffIds :: "string list"

record OperatorHistory =
  oh_Created :: go_time
  oh_Comment :: string
  oh_CreatedBy :: string
  oh_EmptyLayer :: bool

record OperatorConfigSchema =
  ocs_Created :: go_time
  ocs_Architecture :: string
  ocs_Os :: string
  ocs_Config :: OperatorConfig
  ocs_RootFS :: OperatorRootFS
  ocs_History :: "OperatorHistory list"

section \<open>Catalog\<close>

text \<open>\<open>property.Property\<close> of the operator-registry module; its raw value is kept as a JSON value.\<close>

record Property =
  pr_Type :: string
  pr_Value :: json

record Icon =
  ic_Data :: string
  ic_MediaType :: string

record Package =
  pk_Schema :: string
  pk_Name :: string
  pk_DefaultChannel :: string
  pk_Icon :: "Icon option"
  pk_Description :: string
  pk_Properties :: "Property list"

record ChannelEntry =
  ce_Name :: string
  ce_Replaces :: string
  ce_Skips :: "string list"
  ce_SkipRange :: string

record Channel =
  ch_Schema :: string
  ch_Name :: string
  ch_Package :: string
  ch_Entries :: "ChannelEntry list"
  ch_Properties :: "Property list"

record RelatedImage =
  ri_Name :: string
  ri_Image :: string

record Bundle =
  bu_Schema :: string
  bu_Name :: string
  bu_Package :: string
  bu_Image :: string
  bu_Properties :: "Property list"
  bu_RelatedImages :: "RelatedImage list"
  bu_CsvJSON :: string
  bu_Objects :: "string list"

record DeclarativeConfig =
  dc_Schema :: string
  dc_Name :: string
  dc_Package :: string
  dc_Properties :: "Property list"
  dc_RelatedImages :: "RelatedImage list"
  dc_Entries :: "ChannelEntry list"
  dc_DefaultChannel :: string
  dc_Description :: string

record ISCPackage =
  isc_Channel :: string
  isc_MinVersion :: string
  isc_MaxVersion :: string

record ImageRefSchema =
  ir_Repository :: string
  ir_Namespace :: string
  ir_Component :: string

record Options =
  op_Dir :: string
  op_Action :: string
  op_Reference :: string
  op_Other :: string

record CopyImagesSchema =
  ci_Source :: string
  ci_Destination :: string

section \<open>Zero values and decoders\<close>

definition dec_ImportPolicy :: "ImportPolicy dec" where
  "dec_ImportPolicy = dec_struct ''v1alpha3.ImportPolicy'' []"

definition dec_TCP :: "TCP dec" where
  "dec_TCP = dec_struct ''struct {}'' []"

definition zero_MetadataAnnotations :: MetadataAnnotations where
  "zero_MetadataAnnotations =
     \<lparr>ma_ReleaseOpenshiftIoFromImageStream = [], ma_ReleaseOpenshiftIoFromRelease = []\<rparr>"

definition fields_MetadataAnnotations :: "MetadataAnnotations field list" where
  "fields_MetadataAnnotations =
    [fld ''release.openshift.io/from-image-stream'' dec_string ma_ReleaseOpenshiftIoFromImageStream ma_ReleaseOpenshiftIoFromImageStream_update,
     fld ''release.openshift.io/from-release'' dec_string ma_ReleaseOpenshiftIoFromRelease ma_ReleaseOpenshiftIoFromRelease_update]"

definition dec_MetadataAnnotations :: "MetadataAnnotations dec" where
  "dec_MetadataAnnotations = dec_struct ''v1alpha3.MetadataAnnotations'' fields_MetadataAnnotations"

definition zero_V3Metadata :: V3Metadata where
  "zero_V3Metadata =
     \<lparr>md_Name = [],
     md_CreationTimestamp = ''0001-01-01T00:00:00Z'',
     md_Annotations = zero_MetadataAnnotations\<rparr>"

definition fields_V3Metadata :: "V3Metadata field list" where
  "fields_V3Metadata =
    [fld ''name'' dec_string md_Name md_Name_update,
     fld ''creationTimestamp'' dec_time md_CreationTimestamp md_CreationTimestamp_update,
     fld ''annotations'' dec_MetadataAnnotations md_Annotations md_Annotations_update]"

definition dec_V3Metadata :: "V3Metadata dec" where
  "dec_V3Metadata = dec_struct ''v1alpha3.Metadata'' fields_V3Metadata"

definition zero_LookupPolicy :: LookupPolicy where
  "zero_LookupPolicy =
     \<lparr>lp_Local = False\<rparr>"

definition fields_LookupPolicy :: "LookupPolicy field list" where
  "fields_LookupPolicy =
    [fld ''local'' dec_bool lp_Local lp_Local_update]"

definition dec_LookupPolicy :: "LookupPolicy dec" where
  "dec_LookupPolicy = dec_struct ''v1alpha3.LookupPolicy'' fields_LookupPolicy"

definition zero_Annotations :: Annotations where
  "zero_Annotations =
     \<lparr>an_IoOpenshiftBuildCommitID = [], an_IoOpenshiftBuildCommitRef = [],
     an_IoOpenshiftBuildSourceLocation = [], an_IoOpenshiftBuildVersionDisplayNames = [],
     an_IoOpenshiftBuildVersions = []\<rparr>"

definition fields_Annotations :: "Annotations field list" where
  "fields_Annotations =
    [fld ''io.openshift.build.commit.id'' dec_string an_IoOpenshiftBuildCommitID an_IoOpenshiftBuildCommitID_update,
     fld ''io.openshift.build.commit.ref'' dec_string an_IoOpenshiftBuildCommitRef an_IoOpenshiftBuildCommitRef_update,
     fld ''io.openshift.build.source-location'' dec_string an_IoOpenshiftBuildSourceLocation an_IoOpenshiftBuildSourceLocation_update,
     fld ''io.openshift.build.version-display-names'' dec_string an_IoOpenshiftBuildVersionDisplayNames an_IoOpenshiftBuildVersionDisplayNames_update,
     fld ''io.openshift.build.versions'' dec_string an_IoOpenshiftBuildVersions an_IoOpenshiftBuildVersions_update]"

definition dec_Annotations :: "Annotations dec" where
  "dec_Annotations = dec_struct ''v1alpha3.Annotations'' fields_Annotations"

definition zero_From :: From where
  "zero_From =
     \<lparr>fr_Kind = [], fr_Name = []\<rparr>"

definition fields_From :: "From field list" where
  "fields_From =
    [fld ''kind'' dec_string fr_Kind fr_Kind_update,
     fld ''name'' dec_string fr_Name fr_Name_update]"

definition dec_From :: "From dec" where
  "dec_From = dec_struct ''v1alpha3.From'' fields_From"

definition zero_ReferencePolicy :: ReferencePolicy where
  "zero_ReferencePolicy =
     \<lparr>rp_Type = []\<rparr>"

definition fields_ReferencePolicy :: "ReferencePolicy field list" where
  "fields_ReferencePolicy =
    [fld ''type'' dec_string rp_Type rp_Type_update]"

definition dec_ReferencePolicy :: "ReferencePolicy dec" where
  "dec_ReferencePolicy = dec_struct ''v1alpha3.ReferencePolicy'' fields_ReferencePolicy"

definition zero_Tags :: Tags where
  "zero_Tags =
     \<lparr>tg_Name = [], tg_Annotations = zero_Annotations, tg_From = zero_From, tg_Generation = JNull,
     tg_ImportPolicy = ImportPolicy, tg_ReferencePolicy = zero_ReferencePolicy\<rparr>"

definition fields_Tags :: "Tags field list" where
  "fields_Tags =
    [fld ''name'' dec_string tg_Name tg_Name_update,
     fld ''annotations'' dec_Annotations tg_Annotations tg_Annotations_update,
     fld ''from'' dec_From tg_From tg_From_update,
     fld ''generation'' dec_any tg_Generation tg_Generation_update,
     fld ''importPolicy'' dec_ImportPolicy tg_ImportPolicy tg_ImportPolicy_update,
     fld ''referencePolicy'' dec_ReferencePolicy tg_ReferencePolicy tg_ReferencePolicy_update]"

definition dec_Tags :: "Tags dec" where
  "dec_Tags = dec_struct ''v1alpha3.Tags'' fields_Tags"

definition zero_Spec :: Spec where
  "zero_Spec =
     \<lparr>sp_LookupPolicy = zero_LookupPolicy, sp_Tags = []\<rparr>"

definition fields_Spec :: "Spec field list" where
  "fields_Spec =
    [fld ''lookupPolicy'' dec_LookupPolicy sp_LookupPolicy sp_LookupPolicy_update,
     fld ''tags'' (dec_slice ''[]v1alpha3.Tags'' dec_Tags zero_Tags) sp_Tags sp_Tags_update]"

definition dec_Spec :: "Spec dec" where
  "dec_Spec = dec_struct ''v1alpha3.Spec'' fields_Spec"

definition zero_Status :: Status where
  "zero_Status =
     \<lparr>st_DockerImageRepository = []\<rparr>"

definition fields_Status :: "Status field list" where
  "fields_Status =
    [fld ''dockerImageRepository'' dec_string st_DockerImageRepository st_DockerImageRepository_update]"

definition dec_Status :: "Status dec" where
  "dec_Status = dec_struct ''v1alpha3.Status'' fields_Status"

definition zero_ReleaseSchema :: ReleaseSchema where
  "zero_ReleaseSchema =
     \<lparr>rs_Kind = [], rs_APIVersion = [], rs_Metadata = zero_V3Metadata, rs_Spec = zero_Spec,
     rs_Status = zero_Status\<rparr>"

definition fields_ReleaseSchema :: "ReleaseSchema field list" where
  "fields_ReleaseSchema =
    [fld ''kind'' dec_string rs_Kind rs_Kind_update,
     fld ''apiVersion'' dec_string rs_APIVersion rs_APIVersion_update,
     fld ''metadata'' dec_V3Metadata rs_Metadata rs_Metadata_update,
     fld ''spec'' dec_Spec rs_Spec rs_Spec_update,
     fld ''status'' dec_Status rs_Status rs_Status_update]"

definition dec_ReleaseSchema :: "ReleaseSchema dec" where
  "dec_ReleaseSchema = dec_struct ''v1alpha3.ReleaseSchema'' fields_ReleaseSchema"

definition zero_OCIManifest :: OCIManifest where
  "zero_OCIManifest =
     \<lparr>om_MediaType = [], om_Digest = [], om_Size = 0\<rparr>"

definition fields_OCIManifest :: "OCIManifest field list" where
  "fields_OCIManifest =
    [fld ''mediaType'' dec_string om_MediaType om_MediaType_update,
     fld ''digest'' dec_string om_Digest om_Digest_update,
     fld ''size'' dec_int om_Size om_Size_update]"

definition dec_OCIManifest :: "OCIManifest dec" where
  "dec_OCIManifest = dec_struct ''v1alpha3.OCIManifest'' fields_OCIManifest"

definition zero_OCISchema :: OCISchema where
  "zero_OCISchema =
     \<lparr>oci_SchemaVersion = 0, oci_MediaType = [], oci_Manifests = [], oci_Config =
     zero_OCIManifest, oci_Layers = []\<rparr>"

definition fields_OCISchema :: "OCISchema field list" where
  "fields_OCISchema =
    [fld ''schemaVersion'' dec_int oci_SchemaVersion oci_SchemaVersion_update,
     fld ''mediaType'' dec_string oci_MediaType oci_MediaType_update,
     fld ''manifests'' (dec_slice ''[]v1alpha3.OCIManifest'' dec_OCIManifest zero_OCIManifest) oci_Manifests oci_Manifests_update,
     fld ''config'' dec_OCIManifest oci_Config oci_Config_update,
     fld ''layers'' (dec_slice ''[]v1alpha3.OCIManifest'' dec_OCIManifest zero_OCIManifest) oci_Layers oci_Layers_update]"

definition dec_OCISchema :: "OCISchema dec" where
  "dec_OCISchema = dec_struct ''v1alpha3.OCISchema'' fields_OCISchema"

definition zero_OperatorLabels :: OperatorLabels where
  "zero_OperatorLabels =
     \<lparr>ol_License = [], ol_Architecture = [], ol_BuildDate = [], ol_ComRedhatBuildHost = [],
     ol_ComRedhatComponent = [], ol_ComRedhatIndexDeliveryDistributionScope = [],
     ol_ComRedhatIndexDeliveryVersion = [], ol_ComRedhatLicenseTerms = [], ol_Description = [],
     ol_DistributionScope = [], ol_IoBuildahVersion = [], ol_IoK8SDescription = [],
     ol_IoK8SDisplayName = [], ol_IoOpenshiftBuildCommitID = [], ol_IoOpenshiftBuildCommitURL =
     [], ol_IoOpenshiftBuildSourceLocation = [], ol_IoOpenshiftExposeServices = [],
     ol_IoOpenshiftMaintainerComponent = [], ol_IoOpenshiftMaintainerProduct = [],
     ol_IoOpenshiftMaintainerProject = [], ol_IoOpenshiftTags = [], ol_Maintainer = [], ol_Name =
     [], ol_OperatorsOperatorframeworkIoIndexConfigsV1 = [], ol_Release = [], ol_Summary = [],
     ol_URL = [], ol_VcsRef = [], ol_VcsType = [], ol_Vendor = [], ol_Version = []\<rparr>"

definition fields_OperatorLabels :: "OperatorLabels field list" where
  "fields_OperatorLabels =
    [fld ''License'' dec_string ol_License ol_License_update,
     fld ''architecture'' dec_string ol_Architecture ol_Architecture_update,
     fld ''build-date'' dec_string ol_BuildDate ol_BuildDate_update,
     fld ''com.redhat.build-host'' dec_string ol_ComRedhatBuildHost ol_ComRedhatBuildHost_update,
     fld ''com.redhat.component'' dec_string ol_ComRedhatComponent ol_ComRedhatComponent_update,
     fld ''com.redhat.index.delivery.distribution_scope'' dec_string ol_ComRedhatIndexDeliveryDistributionScope ol_ComRedhatIndexDeliveryDistributionScope_update,
     fld ''com.redhat.index.delivery.version'' dec_string ol_ComRedhatIndexDeliveryVersion ol_ComRedhatIndexDeliveryVersion_update,
     fld ''com.redhat.license_terms'' dec_string ol_ComRedhatLicenseTerms ol_ComRedhatLicenseTerms_update,
     fld ''description'' dec_string ol_Description ol_Description_update,
     fld ''distribution-scope'' dec_string ol_DistributionScope ol_DistributionScope_update,
     fld ''io.buildah.version'' dec_string ol_IoBuildahVersion ol_IoBuildahVersion_update,
     fld ''io.k8s.description'' dec_string ol_IoK8SDescription ol_IoK8SDescription_update,
     fld ''io.k8s.display-name'' dec_string ol_IoK8SDisplayName ol_IoK8SDisplayName_update,
     fld ''io.openshift.build.commit.id'' dec_string ol_IoOpenshiftBuildCommitID ol_IoOpenshiftBuildCommitID_update,
     fld ''io.openshift.build.commit.url'' dec_string ol_IoOpenshiftBuildCommitURL ol_IoOpenshiftBuildCommitURL_update,
     fld ''io.openshift.build.source-location'' dec_string ol_IoOpenshiftBuildSourceLocation ol_IoOpenshiftBuildSourceLocation_update,
     fld ''io.openshift.expose-services'' dec_string ol_IoOpenshiftExposeServices ol_IoOpenshiftExposeServices_update,
     fld ''io.openshift.maintainer.component'' dec_string ol_IoOpenshiftMaintainerComponent ol_IoOpenshiftMaintainerComponent_update,
     fld ''io.openshift.maintainer.product'' dec_string ol_IoOpenshiftMaintainerProduct ol_IoOpenshiftMaintainerProduct_update,
     fld ''io.openshift.maintainer.project'' dec_string ol_IoOpenshiftMaintainerProject ol_IoOpenshiftMaintainerProject_update,
     fld ''io.openshift.tags'' dec_string ol_IoOpenshiftTags ol_IoOpenshiftTags_update,
     fld ''maintainer'' dec_string ol_Maintainer ol_Maintainer_update,
     fld ''name'' dec_string ol_Name ol_Name_update,
     fld ''operators.operatorframework.io.index.configs.v1'' dec_string ol_OperatorsOperatorframeworkIoIndexConfigsV1 ol_OperatorsOperatorframeworkIoIndexConfigsV1_update,
     fld ''release'' dec_string ol_Release ol_Release_update,
     fld ''summary'' dec_string ol_Summary ol_Summary_update,
     fld ''url'' dec_string ol_URL ol_URL_update,
     fld ''vcs-ref'' dec_string ol_VcsRef ol_VcsRef_update,
     fld ''vcs-type'' dec_string ol_VcsType ol_VcsType_update,
     fld ''vendor'' dec_string ol_Vendor ol_Vendor_update,
     fld ''version'' dec_string ol_Version ol_Version_update]"

definition dec_OperatorLabels :: "OperatorLabels dec" where
  "dec_OperatorLabels = dec_struct ''v1alpha3.OperatorLabels'' fields_OperatorLabels"

definition zero_ExposedPorts :: ExposedPorts where
  "zero_ExposedPorts =
     \<lparr>ep_TCP = TCP\<rparr>"

definition fields_ExposedPorts :: "ExposedPorts field list" where
  "fields_ExposedPorts =
    [fld ''tcp'' dec_TCP ep_TCP ep_TCP_update]"

definition dec_ExposedPorts :: "ExposedPorts dec" where
  "dec_ExposedPorts = dec_struct ''struct { TCP struct {} }'' fields_ExposedPorts"

definition zero_OperatorConfig :: OperatorConfig where
  "zero_OperatorConfig =
     \<lparr>oc_User = [], oc_ExposedPorts = zero_ExposedPorts, oc_Env = [], oc_Entrypoint = [], oc_Cmd =
     [], oc_WorkingDir = [], oc_Labels = zero_OperatorLabels\<rparr>"

definition fields_OperatorConfig :: "OperatorConfig field list" where
  "fields_OperatorConfig =
    [fld ''User'' dec_string oc_User oc_User_update,
     fld ''ExposedPorts'' dec_ExposedPorts oc_ExposedPorts oc_ExposedPorts_update,
     fld ''Env'' (dec_slice ''[]string'' dec_string []) oc_Env oc_Env_update,
     fld ''Entrypoint'' (dec_slice ''[]string'' dec_string []) oc_Entrypoint oc_Entrypoint_update,
     fld ''Cmd'' (dec_slice ''[]string'' dec_string []) oc_Cmd oc_Cmd_update,
     fld ''WorkingDir'' dec_string oc_WorkingDir oc_WorkingDir_update,
     fld ''Labels'' dec_OperatorLabels oc_Labels oc_Labels_update]"

definition dec_OperatorConfig :: "OperatorConfig dec" where
  "dec_OperatorConfig = dec_struct ''v1alpha3.OperatorConfig'' fields_OperatorConfig"

definition zero_OperatorRootFS :: OperatorRootFS where
  "zero_OperatorRootFS =
     \<lparr>or_Type = [], or_DiffIds = []\<rparr>"

definition fields_OperatorRootFS :: "OperatorRootFS field list" where
  "fields_OperatorRootFS =
    [fld ''type'' dec_string or_Type or_Type_update,
     fld ''diff_ids'' (dec_slice ''[]string'' dec_string []) or_DiffIds or_DiffIds_update]"

definition dec_OperatorRootFS :: "OperatorRootFS dec" where
  "dec_OperatorRootFS = dec_struct ''v1alpha3.OperatorRootFS'' fields_OperatorRootFS"

definition zero_OperatorHistory :: OperatorHistory where
  "zero_OperatorHistory =
     \<lparr>oh_Created = ''0001-01-01T00:00:00Z'',
     oh_Comment = [],
     oh_CreatedBy = [],
     oh_EmptyLayer = False\<rparr>"

definition fields_OperatorHistory :: "OperatorHistory field list" where
  "fields_OperatorHistory =
    [fld ''created'' dec_time oh_Created oh_Created_update,
     fld ''comment'' dec_string oh_Comment oh_Comment_update,
     fld ''created_by'' dec_string oh_CreatedBy oh_CreatedBy_update,
     fld ''empty_layer'' dec_bool oh_EmptyLayer oh_EmptyLayer_update]"

definition dec_OperatorHistory :: "OperatorHistory dec" where
  "dec_OperatorHistory = dec_struct ''v1alpha3.OperatorHistory'' fields_OperatorHistory"

definition zero_OperatorConfigSchema :: OperatorConfigSchema where
  "zero_OperatorConfigSchema =
     \<lparr>ocs_Created = ''0001-01-01T00:00:00Z'',
     ocs_Architecture = [],
     ocs_Os = [],
     ocs_Config = zero_OperatorConfig,
     ocs_RootFS = zero_OperatorRootFS,
     ocs_History = []\<rparr>"

definition fields_OperatorConfigSchema :: "OperatorConfigSchema field list" where
  "fields_OperatorConfigSchema =
    [fld ''created'' dec_time ocs_Created ocs_Created_update,
     fld ''architecture'' dec_string ocs_Architecture ocs_Architecture_update,
     fld ''os'' dec_string ocs_Os ocs_Os_update,
     fld ''config'' dec_OperatorConfig ocs_Config ocs_Config_update,
     fld ''rootfs'' dec_OperatorRootFS ocs_RootFS ocs_RootFS_update,
     fld ''history'' (dec_slice ''[]v1alpha3.OperatorHistory'' dec_OperatorHistory zero_OperatorHistory) ocs_History ocs_History_update]"

definition dec_OperatorConfigSchema :: "OperatorConfigSchema dec" where
  "dec_OperatorConfigSchema = dec_struct ''v1alpha3.OperatorConfigSchema'' fields_OperatorConfigSchema"

definition zero_Property :: Property where
  "zero_Property =
     \<lparr>pr_Type = [], pr_Value = JNull\<rparr>"

definition fields_Property :: "Property field list" where
  "fields_Property =
    [fld ''type'' dec_string pr_Type pr_Type_update,
     fld ''value'' dec_any pr_Value pr_Value_update]"

definition dec_Property :: "Property dec" where
  "dec_Property = dec_struct ''property.Property'' fields_Property"

definition zero_ChannelEntry :: ChannelEntry where
  "zero_ChannelEntry =
     \<lparr>ce_Name = [], ce_Replaces = [], ce_Skips = [], ce_SkipRange = []\<rparr>"

definition fields_ChannelEntry :: "ChannelEntry field list" where
  "fields_ChannelEntry =
    [fld ''name'' dec_string ce_Name ce_Name_update,
     fld ''replaces'' dec_string ce_Replaces ce_Replaces_update,
     fld ''skips'' (dec_slice ''[]string'' dec_string []) ce_Skips ce_Skips_update,
     fld ''skipRange'' dec_string ce_SkipRange ce_SkipRange_update]"

definition dec_ChannelEntry :: "ChannelEntry dec" where
  "dec_ChannelEntry = dec_struct ''v1alpha3.ChannelEntry'' fields_ChannelEntry"

definition zero_RelatedImage :: RelatedImage where
  "zero_RelatedImage =
     \<lparr>ri_Name = [], ri_Image = []\<rparr>"

definition fields_RelatedImage :: "RelatedImage field list" where
  "fields_RelatedImage =
    [fld ''name'' dec_string ri_Name ri_Name_update,
     fld ''image'' dec_string ri_Image ri_Image_update]"

definition dec_RelatedImage :: "RelatedImage dec" where
  "dec_RelatedImage = dec_struct ''v1alpha3.RelatedImage'' fields_RelatedImage"

definition zero_DeclarativeConfig :: DeclarativeConfig where
  "zero_DeclarativeConfig =
     \<lparr>dc_Schema = [], dc_Name = [], dc_Package = [], dc_Properties = [], dc_RelatedImages = [],
     dc_Entries = [], dc_DefaultChannel = [], dc_Description = []\<rparr>"

definition fields_DeclarativeConfig :: "DeclarativeConfig field list" where
  "fields_DeclarativeConfig =
    [fld ''schema'' dec_string dc_Schema dc_Schema_update,
     fld ''name'' dec_string dc_Name dc_Name_update,
     fld ''package'' dec_string dc_Package dc_Package_update,
     fld ''properties'' (dec_slice ''[]property.Property'' dec_Property zero_Property) dc_Properties dc_Properties_update,
     fld ''relatedImages'' (dec_slice ''[]v1alpha3.RelatedImage'' dec_RelatedImage zero_RelatedImage) dc_RelatedImages dc_RelatedImages_update,
     fld ''entries'' (dec_slice ''[]v1alpha3.ChannelEntry'' dec_ChannelEntry zero_ChannelEntry) dc_Entries dc_Entries_update,
     fld ''defaultChannel'' dec_string dc_DefaultChannel dc_DefaultChannel_update,
     fld ''description'' dec_string dc_Description dc_Description_update]"

definition dec_DeclarativeConfig :: "DeclarativeConfig dec" where
  "dec_DeclarativeConfig = dec_struct ''v1alpha3.DeclarativeConfig'' fields_DeclarativeConfig"

lemmas v1alpha3_defs =
  zero_MetadataAnnotations_def fields_MetadataAnnotations_def dec_MetadataAnnotations_def
  zero_V3Metadata_def fields_V3Metadata_def dec_V3Metadata_def
  zero_LookupPolicy_def fields_LookupPolicy_def dec_LookupPolicy_def
  zero_Annotations_def fields_Annotations_def dec_Annotations_def
  zero_From_def fields_From_def dec_From_def
  zero_ReferencePolicy_def fields_ReferencePolicy_def dec_ReferencePolicy_def
  zero_Tags_def fields_Tags_def dec_Tags_def
  zero_Spec_def fields_Spec_def dec_Spec_def
  zero_Status_def fields_Status_def dec_Status_def
  zero_ReleaseSchema_def fields_ReleaseSchema_def dec_ReleaseSchema_def
  zero_OCIManifest_def fields_OCIManifest_def dec_OCIManifest_def
  zero_OCISchema_def fields_OCISchema_def dec_OCISchema_def
  zero_OperatorLabels_def fields_OperatorLabels_def dec_OperatorLabels_def
  zero_ExposedPorts_def fields_ExposedPorts_def dec_ExposedPorts_def
  zero_OperatorConfig_def fields_OperatorConfig_def dec_OperatorConfig_def
  zero_OperatorRootFS_def fields_OperatorRootFS_def dec_OperatorRootFS_def
  zero_OperatorHistory_def fields_OperatorHistory_def dec_OperatorHistory_def
  zero_OperatorConfigSchema_def fields_OperatorConfigSchema_def dec_OperatorConfigSchema_def
  zero_Property_def fields_Property_def dec_Property_def
  zero_ChannelEntry_def fields_ChannelEntry_def dec_ChannelEntry_def
  zero_RelatedImage_def fields_RelatedImage_def dec_RelatedImage_def
  zero_DeclarativeConfig_def fields_DeclarativeConfig_def dec_DeclarativeConfig_def
  dec_ImportPolicy_def dec_TCP_def

end
