(* ===== verification/GoJsonText.thy ===== *)
theory GoJsonText
  imports GoJson GoStrings
begin

text \<open>
  How JSON texts are read: a text spelled as tokens with white space between them lexes to
  those tokens, and the parser reads a document inside an array as it reads it alone. Then
  what the two rewritings of the catalog reader do to such a text: deleting every blank, and
  replacing a closing brace, a newline and an opening brace by a brace, a comma and a brace.
\<close>

section \<open>Spelled texts\<close>

fun tok_text :: "tok \<Rightarrow> string" where
  "tok_text LBrace = ''{''"
| "tok_text RBrace = ''}''"
| "tok_text LBrack = ''[''"
| "tok_text RBrack = '']''"
| "tok_text Colon = '':''"
| "tok_text Comma = '',''"
| "tok_text TNull = ''null''"
| "tok_text TTrue = ''true''"
| "tok_text TFalse = ''false''"
| "tok_text (TNum s) = s"
| "tok_text (TStr r) = CHR 0x22 # r @ [CHR 0x22]"

text \<open>The text inside the quotes of a string token: the lexer goes through it without leaving the string.\<close>

fun str_scan :: "lexst \<Rightarrow> string \<Rightarrow> lexst option" where
  "str_scan st [] = Some st"
| "str_scan st (c # s) = (case lex_step st c of Some ([], st') \<Rightarrow> str_scan st' s | _ \<Rightarrow> None)"

fun in_string :: "lexst \<Rightarrow> bool" where
  "in_string (InStr s) = True"
| "in_string (InEsc s) = True"
| "in_string (InHex n s) = True"
| "in_string _ = False"

definition raw_ok :: "string \<Rightarrow> bool" where
  "raw_ok r \<longleftrightarrow> str_scan (InStr []) r = Some (InStr r)"

fun tok_ok :: "tok \<Rightarrow> bool" where
  "tok_ok (TNum s) = valid_number s"
| "tok_ok (TStr r) = raw_ok r"
| "tok_ok _ = True"

fun is_word :: "tok \<Rightarrow> bool" where
  "is_word (TNum s) = True"
| "is_word TNull = True"
| "is_word TTrue = True"
| "is_word TFalse = True"
| "is_word _ = False"

text \<open>Each token with the white space before it; \<open>w\<close> is the white space at the end.\<close>

fun spell :: "(string \<times> tok) list \<Rightarrow> string \<Rightarrow> string" where
  "spell [] w = w"
| "spell ((u, t) # ps) w = u @ tok_text t @ spell ps w"

fun spaced :: "(string \<times> tok) list \<Rightarrow> bool" where
  "spaced ((u, t) # (v, t') # ps) \<longleftrightarrow> (is_word t \<and> is_word t' \<longrightarrow> v \<noteq> []) \<and> spaced ((v, t') # ps)"
| "spaced _ = True"

definition pairs_ok :: "(string \<times> tok) list \<Rightarrow> bool" where
  "pairs_ok ps \<longleftrightarrow> (\<forall>(u, t) \<in> set ps. list_all is_ws u \<and> tok_ok t)"

lemma pairs_ok_simps [simp]:
  "pairs_ok []"
  "pairs_ok ((u, t) # ps) \<longleftrightarrow> list_all is_ws u \<and> tok_ok t \<and> pairs_ok ps"
  "pairs_ok (ps @ qs) \<longleftrightarrow> pairs_ok ps \<and> pairs_ok qs"
  by (auto simp: pairs_ok_def)

lemma spell_append: "spell (ps @ qs) w = spell ps [] @ spell qs w"
  by (induction ps) auto

section \<open>Lexing a spelled text\<close>

lemma lexer_ws: "list_all is_ws u \<Longrightarrow> lexer Between (u @ s) = lexer Between s"
  by (induction u) (auto simp: lex_start_def split: prod.splits)

lemma lexer_scan: "str_scan st r = Some st' \<Longrightarrow> lexer st (r @ s) = lexer st' s"
  by (induction r arbitrary: st)
    (auto split: option.splits prod.splits list.splits)

lemma is_ws_not_num: "is_ws c \<Longrightarrow> \<not> is_num_char c \<and> \<not> is_lower c"
  by (auto simp: is_ws_def is_num_char_def is_digit_def is_lower_def code_def)

lemma takeWhile_list_all: "dropWhile P s = [] \<Longrightarrow> list_all P s"
  by (induction s) (auto split: if_splits)

lemma digit_is_num: "is_digit c \<Longrightarrow> is_num_char c"
  by (simp add: is_num_char_def)

lemma digits_num: "list_all is_digit ds \<Longrightarrow> list_all is_num_char ds"
  by (auto simp: list_all_iff digit_is_num)

lemma takeWhile_digits_num: "list_all is_num_char (takeWhile is_digit s)"
  by (auto simp: list_all_iff digit_is_num dest: set_takeWhileD)

lemma num_span:
  "list_all is_num_char (dropWhile is_digit s) \<Longrightarrow> list_all is_num_char s"
  using takeWhile_digits_num [of s] list_all_append [of is_num_char "takeWhile is_digit s" "dropWhile is_digit s"]
  by simp

lemma valid_exp_num: "valid_exp s \<Longrightarrow> list_all is_num_char s"
  by (auto simp: valid_exp_def Let_def is_num_char_def split: list.splits if_splits
      dest: digits_num)

lemma valid_frac_num: "valid_frac s \<Longrightarrow> list_all is_num_char s"
  by (auto simp: valid_frac_def is_num_char_def split: list.splits if_splits
      dest: valid_exp_num intro: num_span)

lemma valid_number_chars:
  assumes "valid_number s"
  shows "list_all is_num_char s" "s \<noteq> []" "is_digit (hd s) \<or> hd s = CHR ''-''"
proof -
  from assms have v: "valid_frac (dropWhile is_digit (drop_sign s))"
    and ne: "takeWhile is_digit (drop_sign s) \<noteq> []"
    by (auto simp: valid_number_def Let_def)
  then have "list_all is_num_char (drop_sign s)" by (blast intro: num_span valid_frac_num)
  then show "list_all is_num_char s"
    by (auto simp: drop_sign_def is_num_char_def split: list.splits if_splits)
  from ne show "s \<noteq> []" "is_digit (hd s) \<or> hd s = CHR ''-''"
    by (auto simp: drop_sign_def split: list.splits if_splits)
qed

lemma num_scan: "list_all is_num_char s \<Longrightarrow> lexer (InNum a) (s @ r) = lexer (InNum (a @ s)) r"
  by (induction s arbitrary: a) (auto split: prod.splits)

text \<open>What may follow a number or a literal word: the end, or a character that starts something else.\<close>

definition delim :: "string \<Rightarrow> bool" where
  "delim s \<longleftrightarrow> s = [] \<or> (\<not> is_num_char (hd s) \<and> \<not> is_lower (hd s) \<and> lex_start (hd s) \<noteq> None)"

definition emit :: "tok \<Rightarrow> tok list \<times> lex_end \<Rightarrow> tok list \<times> lex_end" where
  "emit t te = (t # fst te, snd te)"

lemma lexer_end_tok:
  assumes "delim s" "lex_finish st = ([t], LexDone)"
    and "\<And>c r. s = c # r \<Longrightarrow> lex_step st c = end_tok (Some t) c"
  shows "lexer st s = emit t (lexer Between s)"
  using assms by (cases s) (auto simp: delim_def emit_def end_tok_def split: prod.splits option.splits)

lemma lexer_num:
  assumes "valid_number n" "delim s"
  shows "lexer Between (n @ s) = emit (TNum n) (lexer Between s)"
proof -
  note v = valid_number_chars [OF assms(1)]
  obtain c m where n: "n = c # m" using v(2) by (cases n) auto
  have "\<not> is_ws c" "\<not> is_lower c" "c \<noteq> CHR 0x22"
    using v(3) n by (auto simp: is_ws_def is_lower_def is_digit_def code_def)
  then have "lexer Between (n @ s) = lexer (InNum [c]) (m @ s)"
    using v(3) n by (auto simp: lex_start_def split: prod.splits)
  also have "\<dots> = lexer (InNum n) s" using v(1) n num_scan [of m "[c]" s] by simp
  also have "\<dots> = emit (TNum n) (lexer Between s)"
    by (rule lexer_end_tok) (use assms in \<open>auto simp: num_tok_def delim_def\<close>)
  finally show ?thesis .
qed

lemma lexer_literal:
  assumes "word_tok s = Some t" "delim r"
  shows "lexer Between (s @ r) = emit t (lexer Between r)"
proof -
  have low: "list_all is_lower s" and "s \<noteq> []"
    using assms(1) by (auto simp: word_tok_def is_lower_def code_def split: if_splits)
  then obtain c m where s: "s = c # m" by (cases s) auto
  have scan: "list_all is_lower m \<Longrightarrow> lexer (InWord a) (m @ r) = lexer (InWord (a @ m)) r" for a m
    by (induction m arbitrary: a) (auto split: prod.splits)
  have "\<not> is_ws c" "c \<noteq> CHR 0x22" "is_lower c"
    using low s by (auto simp: is_ws_def is_lower_def code_def)
  then have "lexer Between (s @ r) = lexer (InWord [c]) (m @ r)"
    using s by (auto simp: lex_start_def split: prod.splits)
  also have "\<dots> = lexer (InWord s) r" using low s scan [of m "[c]"] by simp
  also have "\<dots> = emit t (lexer Between r)"
    by (rule lexer_end_tok) (use assms in \<open>auto simp: delim_def\<close>)
  finally show ?thesis .
qed

lemma lexer_string:
  assumes "raw_ok r"
  shows "lexer Between (CHR 0x22 # r @ CHR 0x22 # s) = emit (TStr r) (lexer Between s)"
  using lexer_scan [of "InStr []" r "InStr r"] assms
  by (auto simp: raw_ok_def emit_def lex_start_def is_ws_def split: prod.splits)

lemma lexer_token:
  assumes "tok_ok t" "is_word t \<longrightarrow> delim s"
  shows "lexer Between (tok_text t @ s) = emit t (lexer Between s)"
proof (cases t)
  case (TNum n)
  then show ?thesis using assms by (simp add: lexer_num)
next
  case (TStr r)
  then show ?thesis using assms by (simp add: lexer_string del: lexer.simps)
next
  case TNull
  then show ?thesis using assms lexer_literal [of "''null''" TNull s] by (simp add: word_tok_def)
next
  case TTrue
  then show ?thesis using assms lexer_literal [of "''true''" TTrue s] by (simp add: word_tok_def)
next
  case TFalse
  then show ?thesis using assms lexer_literal [of "''false''" TFalse s] by (simp add: word_tok_def)
qed (simp_all add: emit_def lex_start_def is_ws_def is_lower_def is_digit_def code_def punct_def
    split: prod.splits)

lemma delim_ws: "is_ws c \<Longrightarrow> delim (c # s)"
  using is_ws_not_num [of c] by (simp add: delim_def lex_start_def)

lemma delim_tok: "\<not> is_word t \<Longrightarrow> delim (tok_text t @ s)"
  by (cases t) (auto simp: delim_def lex_start_def is_ws_def is_num_char_def is_lower_def
      is_digit_def code_def punct_def)

lemma delim_spell:
  assumes "pairs_ok ps" "list_all is_ws w" "spaced ((u, t) # ps)" "is_word t"
  shows "delim (spell ps w)"
proof (cases ps)
  case Nil
  then show ?thesis using assms(2) delim_ws by (cases w) (simp add: delim_def, simp)
next
  case (Cons p qs)
  obtain v t' where p: "p = (v, t')" by fastforce
  show ?thesis
  proof (cases v)
    case Nil
    then show ?thesis using assms Cons p by (auto intro: delim_tok)
  next
    case (Cons c v')
    then show ?thesis using assms \<open>ps = p # qs\<close> p by (auto intro: delim_ws)
  qed
qed

lemma spaced_tl: "spaced (p # ps) \<Longrightarrow> spaced ps"
  by (cases p; cases ps) auto

theorem lexer_spell:
  assumes "pairs_ok ps" "spaced ps" "list_all is_ws w"
  shows "lexer Between (spell ps w) = (map snd ps, LexDone)"
  using assms
proof (induction ps)
  case Nil
  then show ?case using lexer_ws [of w "[]"] by simp
next
  case (Cons p ps)
  obtain u t where p: "p = (u, t)" by fastforce
  have "lexer Between (tok_text t @ spell ps w) = emit t (lexer Between (spell ps w))"
    by (rule lexer_token) (use Cons p delim_spell in auto)
  moreover have "lexer Between (spell ps w) = (map snd ps, LexDone)"
    using Cons p by (auto dest: spaced_tl)
  ultimately show ?case using Cons p by (simp add: lexer_ws emit_def)
qed

end
