(* ===== verification/CatalogText.thy ===== *)
theory CatalogText
  imports GoJsonText
begin

text \<open>
  A catalog file is a sequence of JSON documents, one after the other. The program turns it
  into one JSON array by text surgery. This theory proves what that surgery does to the token
  streams of the documents, for every layout of white space between the tokens.
\<close>

section \<open>Which tokens may be neighbours\<close>

fun is_after :: "pstate \<Rightarrow> bool" where
  "is_after (PAfterElem vs) = True"
| "is_after (PAfterMem ms) = True"
| "is_after (PDone v) = True"
| "is_after _ = False"

definition ends_value :: "tok \<Rightarrow> bool" where
  "ends_value t \<longleftrightarrow> is_word t \<or> t = RBrace \<or> t = RBrack"

lemma is_after_give: "is_after (snd (give v st))"
  by (cases "(v, st)" rule: give.cases) auto

lemma parse_step_after:
  assumes "parse_step s t = Some s'" "ends_value t"
  shows "is_after (snd s')"
proof (cases "(s, t)" rule: parse_step.cases)
  case (1 st t')
  then show ?thesis using assms by (cases t') (auto simp: ends_value_def is_after_give)
next
  case (2 st t')
  then show ?thesis using assms by (cases t') (auto simp: ends_value_def is_after_give)
qed (use assms in \<open>auto simp: ends_value_def is_after_give split: tok.splits if_splits\<close>)

lemma parse_step_refuses:
  "is_after (snd s) \<Longrightarrow> parse_step s t \<noteq> None \<Longrightarrow> \<not> is_word t \<and> t \<noteq> LBrace"
  by (cases "(s, t)" rule: parse_step.cases) (auto split: if_splits)

fun adjacent_ok :: "tok list \<Rightarrow> bool" where
  "adjacent_ok (t # t' # ts) \<longleftrightarrow>
     (ends_value t \<longrightarrow> \<not> is_word t' \<and> t' \<noteq> LBrace) \<and> adjacent_ok (t' # ts)"
| "adjacent_ok _ = True"

lemma parse_run_adjacent: "parse_run s ts \<noteq> None \<Longrightarrow> adjacent_ok ts"
proof (induction ts arbitrary: s)
  case (Cons t ts)
  then obtain s' where s': "parse_step s t = Some s'" "parse_run s' ts \<noteq> None"
    by (auto split: option.splits)
  have "ends_value t \<longrightarrow> \<not> is_word t' \<and> t' \<noteq> LBrace" if "ts = t' # us" for t' us
    using parse_step_after [OF s'(1)] parse_step_refuses [of s' t'] s'(2) that
    by (auto split: option.splits)
  then show ?case using Cons.IH [OF s'(2)] by (cases ts) auto
qed simp

lemma adjacent_spaced: "adjacent_ok (map snd ps) \<Longrightarrow> spaced ps"
  by (induction ps rule: spaced.induct) (auto simp: ends_value_def)

section \<open>A document inside an array\<close>

fun lift_state :: "frame list \<Rightarrow> frame list \<times> pstate \<Rightarrow> frame list \<times> pstate" where
  "lift_state st (s, PDone v) = give v st"
| "lift_state st (s, ps) = (s @ st, ps)"

lemma lift_give: "lift_state st (give v s) = give v (s @ st)"
  by (cases "(v, s)" rule: give.cases) auto

lemma lift_begin: "begin_value s t = Some r \<Longrightarrow> begin_value (s @ st) t = Some (lift_state st r)"
  by (cases t) (auto simp: lift_give)

lemma lift_step:
  "parse_step s t = Some r \<Longrightarrow> parse_step (lift_state st s) t = Some (lift_state st r)"
proof (cases "(s, t)" rule: parse_step.cases)
  case (2 s' t')
  assume "parse_step s t = Some r"
  then show ?thesis using 2 lift_begin [of "FArr [] # s'" t' r st] by (auto simp: lift_give)
qed (auto simp: lift_give lift_begin split: if_splits tok.splits)

lemma lift_run:
  "parse_run s ts = Some r \<Longrightarrow> parse_run (lift_state st s) ts = Some (lift_state st r)"
proof (induction ts arbitrary: s)
  case (Cons t ts)
  then obtain s' where "parse_step s t = Some s'" "parse_run s' ts = Some r"
    by (auto split: option.splits)
  then show ?case using Cons.IH lift_step [of s t s' st] by simp
qed simp

lemma document_in_context:
  "parse_run ([], PValue) ts = Some ([], PDone v) \<Longrightarrow> parse_run (st, PValue) ts = Some (give v st)"
  using lift_run [of "([], PValue)" ts "([], PDone v)" st] by simp

text \<open>The documents of a list, with a comma between each two.\<close>

fun commas :: "tok list list \<Rightarrow> tok list" where
  "commas [] = []"
| "commas [ts] = ts"
| "commas (ts # us # tss) = ts @ Comma # commas (us # tss)"

definition is_document :: "tok list \<Rightarrow> json \<Rightarrow> bool" where
  "is_document ts v \<longleftrightarrow> parse_run ([], PValue) ts = Some ([], PDone v)"

lemma parse_elements:
  assumes "list_all2 is_document tss vs" "tss \<noteq> []"
  shows "parse_run (FArr us # st, PValue) (commas tss @ [RBrack]) = Some (give (JArr (us @ vs)) st)"
  using assms
proof (induction tss vs arbitrary: us rule: list_all2_induct)
  case (Cons ts tss v vs)
  then have "parse_run (FArr us # st, PValue) ts = Some (st, PAfterElem (us @ [v]))"
    by (simp add: is_document_def document_in_context)
  then show ?case using Cons by (cases tss) (auto simp: parse_run_append)
qed simp

lemma first_document:
  "hd ts \<noteq> RBrack \<Longrightarrow> ts \<noteq> [] \<Longrightarrow> parse_run (st, PFirst) ts = parse_run (FArr [] # st, PValue) ts"
  by (cases ts) auto

theorem parse_array_of_documents:
  assumes "list_all2 is_document tss vs" "\<And>ts. ts \<in> set tss \<Longrightarrow> ts \<noteq> [] \<and> hd ts = LBrace"
  shows "parse_tokens (LBrack # commas tss @ [RBrack], LexDone) = Inr (JArr vs)"
proof (cases tss)
  case Nil
  then show ?thesis using assms(1) by (simp add: parse_tokens_def)
next
  case (Cons ts tss')
  then have "commas tss \<noteq> []" "hd (commas tss) = LBrace"
    using assms(2) [of ts] by (cases tss'; cases ts; simp)+
  then show ?thesis
    using parse_elements [OF assms(1), of "[]" "[]"] Cons
    by (simp add: parse_tokens_def first_document)
qed

section \<open>Deleting the blanks\<close>

definition no_blank :: "string \<Rightarrow> string" where
  "no_blank s = filter (\<lambda>c. c \<noteq> CHR '' '') s"

fun despace :: "tok \<Rightarrow> tok" where
  "despace (TStr r) = TStr (no_blank r)"
| "despace t = t"

definition despace_pairs :: "(string \<times> tok) list \<Rightarrow> (string \<times> tok) list" where
  "despace_pairs ps = map (\<lambda>(u, t). (no_blank u, despace t)) ps"

lemma no_blank_simps [simp]:
  "no_blank [] = []" "no_blank (a @ b) = no_blank a @ no_blank b"
  "no_blank (c # s) = (if c = CHR '' '' then no_blank s else c # no_blank s)"
  by (simp_all add: no_blank_def)

lemma no_blank_id: "CHR '' '' \<notin> set s \<Longrightarrow> no_blank s = s"
  by (auto simp: no_blank_def filter_id_conv)

lemma no_blank_ws: "list_all is_ws u \<Longrightarrow> list_all is_ws (no_blank u)"
  by (induction u) auto

fun lex_no_blank :: "lexst \<Rightarrow> lexst" where
  "lex_no_blank (InStr s) = InStr (no_blank s)"
| "lex_no_blank (InEsc s) = InEsc (no_blank s)"
| "lex_no_blank (InHex n s) = InHex n (no_blank s)"
| "lex_no_blank st = st"

lemma blank_step:
  "in_string st \<Longrightarrow> lex_step st CHR '' '' = Some ([], st') \<Longrightarrow> lex_no_blank st' = lex_no_blank st"
  by (cases st) (auto simp: hex_value_def is_digit_def code_def split: if_splits)

lemma char_step:
  "in_string st \<Longrightarrow> c \<noteq> CHR '' '' \<Longrightarrow> lex_step st c = Some ([], st') \<Longrightarrow>
     in_string st' \<and> lex_step (lex_no_blank st) c = Some ([], lex_no_blank st')"
  by (cases st) (auto split: if_splits)

lemma in_string_step: "in_string st \<Longrightarrow> lex_step st c = Some ([], st') \<Longrightarrow> in_string st'"
  by (cases st) (auto split: if_splits)

lemma scan_no_blank:
  "in_string st \<Longrightarrow> str_scan st r = Some st' \<Longrightarrow>
     str_scan (lex_no_blank st) (no_blank r) = Some (lex_no_blank st')"
proof (induction r arbitrary: st)
  case (Cons c r)
  then obtain st1 where st1: "lex_step st c = Some ([], st1)" "str_scan st1 r = Some st'"
    by (auto split: option.splits prod.splits list.splits)
  have "in_string st1" using in_string_step [OF Cons.prems(1) st1(1)] .
  then have IH: "str_scan (lex_no_blank st1) (no_blank r) = Some (lex_no_blank st')"
    using Cons.IH st1(2) by blast
  show ?case
  proof (cases "c = CHR '' ''")
    case True
    then show ?thesis using IH blank_step Cons.prems(1) st1(1) by auto
  next
    case False
    then show ?thesis using IH char_step [OF Cons.prems(1) False st1(1)] by simp
  qed
qed simp

lemma raw_ok_no_blank: "raw_ok r \<Longrightarrow> raw_ok (no_blank r)"
  using scan_no_blank [of "InStr []" r "InStr r"] by (simp add: raw_ok_def)

lemma num_no_blank: "valid_number s \<Longrightarrow> no_blank s = s"
  using valid_number_chars(1) [of s] is_ws_not_num [of "CHR '' ''"]
  by (intro no_blank_id) (auto simp: list_all_iff is_ws_def)

lemma tok_text_despace: "tok_ok t \<Longrightarrow> no_blank (tok_text t) = tok_text (despace t)"
  by (cases t) (auto simp: num_no_blank)

lemma tok_ok_despace: "tok_ok t \<Longrightarrow> tok_ok (despace t)"
  by (cases t) (auto simp: raw_ok_no_blank)

lemma spell_no_blank:
  "pairs_ok ps \<Longrightarrow> no_blank (spell ps w) = spell (despace_pairs ps) (no_blank w)"
  by (induction ps) (auto simp: despace_pairs_def tok_text_despace)

lemma pairs_ok_despace: "pairs_ok ps \<Longrightarrow> pairs_ok (despace_pairs ps)"
  by (induction ps) (auto simp: despace_pairs_def no_blank_ws tok_ok_despace)

lemma map_snd_despace: "map snd (despace_pairs ps) = map despace (map snd ps)"
  by (induction ps) (auto simp: despace_pairs_def)

section \<open>Replacing the brace-newline-brace between documents\<close>

definition doc_gap :: string where
  "doc_gap = [CHR ''}'', CHR 0x0A, CHR ''{'']"

definition doc_comma :: string where
  "doc_comma = ''},{''"

text \<open>What the replacement does to the tokens; the flag says that the token before is a closing brace.\<close>

fun join_pairs :: "bool \<Rightarrow> (string \<times> tok) list \<Rightarrow> (string \<times> tok) list" where
  "join_pairs b [] = []"
| "join_pairs b ((u, t) # ps) =
     (if b \<and> u = [CHR 0x0A] \<and> t = LBrace then ([], Comma) # ([], LBrace) # join_pairs False ps
      else (u, t) # join_pairs (t = RBrace) ps)"

lemma skip_literal:
  assumes "CHR 0x0A \<notin> set a" "a = [] \<or> last a \<noteq> CHR ''}''"
  shows "ReplaceAll (a @ s) doc_gap doc_comma = a @ ReplaceAll s doc_gap doc_comma"
  using assms
proof (induction a)
  case (Cons c a)
  have "\<not> prefix doc_gap (c # a @ s)"
    using Cons.prems by (cases a) (auto simp: doc_gap_def)
  then show ?case using Cons by (auto simp: ReplaceAll_step doc_gap_def split: if_splits)
qed simp

lemma skip_no_brace:
  assumes "CHR ''}'' \<notin> set a"
  shows "ReplaceAll (a @ s) doc_gap doc_comma = a @ ReplaceAll s doc_gap doc_comma"
  using assms by (induction a) (auto simp: ReplaceAll_step doc_gap_def)

lemma ws_no_brace: "list_all is_ws u \<Longrightarrow> CHR ''}'' \<notin> set u \<and> CHR ''{'' \<notin> set u"
  by (induction u) (auto simp: is_ws_def)

lemma scan_no_newline:
  "in_string st \<Longrightarrow> str_scan st r = Some st' \<Longrightarrow> CHR 0x0A \<notin> set r"
proof (induction r arbitrary: st)
  case (Cons c r)
  then obtain st1 where st1: "lex_step st c = Some ([], st1)" "str_scan st1 r = Some st'"
    by (auto split: option.splits prod.splits list.splits)
  have "c \<noteq> CHR 0x0A" using Cons.prems(1) st1(1)
    by (cases st) (auto simp: code_def hex_value_def is_digit_def split: if_splits)
  then show ?case using Cons.IH [OF in_string_step [OF Cons.prems(1) st1(1)] st1(2)] by simp
qed simp

lemma num_no_newline: "valid_number n \<Longrightarrow> CHR 0x0A \<notin> set n \<and> CHR ''}'' \<notin> set n"
proof -
  assume "valid_number n"
  then have "list_all is_num_char n" by (rule valid_number_chars(1))
  moreover have "\<not> is_num_char (CHR 0x0A)" "\<not> is_num_char (CHR ''}'')"
    by (simp_all add: is_num_char_def is_digit_def code_def)
  ultimately show ?thesis unfolding list_all_iff by blast
qed

lemma tok_text_gap_free:
  assumes "tok_ok t" "t \<noteq> RBrace"
  shows "CHR 0x0A \<notin> set (tok_text t) \<and> last (tok_text t) \<noteq> CHR ''}''"
proof (cases t)
  case (TNum n)
  then have "CHR 0x0A \<notin> set n" "CHR ''}'' \<notin> set n" "last n \<in> set n"
    using assms num_no_newline [of n] valid_number_chars(2) [of n] by simp_all
  then show ?thesis using TNum by (metis tok_text.simps(10))
next
  case (TStr r)
  then show ?thesis using assms scan_no_newline [of "InStr []" r "InStr r"] by (simp add: raw_ok_def)
qed (use assms(2) in simp_all)

lemma skip_token:
  "tok_ok t \<Longrightarrow> t \<noteq> RBrace \<Longrightarrow>
     ReplaceAll (tok_text t @ s) doc_gap doc_comma = tok_text t @ ReplaceAll s doc_gap doc_comma"
  by (rule skip_literal) (simp_all add: tok_text_gap_free)

lemma tok_text_first:
  assumes "tok_ok t"
  obtains c r where "tok_text t = c # r" "\<not> is_ws c" "c = CHR ''{'' \<longleftrightarrow> t = LBrace"
proof (cases t)
  case (TNum n)
  then have v: "n \<noteq> []" "is_digit (hd n) \<or> hd n = CHR ''-''"
    using assms valid_number_chars by auto
  then obtain c r where n: "n = c # r" by (cases n) auto
  then show thesis using v TNum by (intro that [of c r]) (auto simp: is_ws_def is_digit_def code_def)
qed (auto intro!: that simp: is_ws_def)

lemma gap_at_token:
  assumes "tok_ok t" "list_all is_ws u"
  shows "prefix doc_gap (CHR ''}'' # u @ tok_text t @ s) \<longleftrightarrow> u = [CHR 0x0A] \<and> t = LBrace"
proof -
  obtain c r where c: "tok_text t = c # r" "\<not> is_ws c" "c = CHR ''{'' \<longleftrightarrow> t = LBrace"
    using tok_text_first [OF assms(1)] .
  show ?thesis
  proof (cases u)
    case Nil
    then show ?thesis using c by (auto simp: doc_gap_def is_ws_def)
  next
    case (Cons d v)
    then show ?thesis using assms(2) c by (cases v) (auto simp: doc_gap_def is_ws_def)
  qed
qed

lemma gap_at_end: "list_all is_ws w \<Longrightarrow> \<not> prefix doc_gap (CHR ''}'' # w)"
  using ws_no_brace [of w] by (auto simp: doc_gap_def prefix_def)

lemma replace_spell:
  assumes "pairs_ok ps" "list_all is_ws w"
  shows "ReplaceAll (spell ps w) doc_gap doc_comma = spell (join_pairs False ps) w"
    and "ReplaceAll (CHR ''}'' # spell ps w) doc_gap doc_comma = CHR ''}'' # spell (join_pairs True ps) w"
  using assms(1)
proof (induction ps)
  case Nil
  case 1
  show ?case using skip_no_brace [of w "[]"] ws_no_brace [OF assms(2)] by (simp add: doc_gap_def)
  then show "ReplaceAll (CHR ''}'' # spell [] w) doc_gap doc_comma = CHR ''}'' # spell (join_pairs True []) w"
    using gap_at_end [OF assms(2)] by (simp add: ReplaceAll_step doc_gap_def)
next
  case (Cons p ps)
  obtain u t where p: "p = (u, t)" by fastforce
  case 1
  then have ok: "list_all is_ws u" "tok_ok t" "pairs_ok ps" using p by auto
  have rest: "ReplaceAll (u @ tok_text t @ spell ps w) doc_gap doc_comma =
      u @ tok_text t @ spell (join_pairs (t = RBrace) ps) w"
    using ok ws_no_brace [OF ok(1)] Cons.IH
    by (cases "t = RBrace") (simp_all add: skip_no_brace skip_token)
  then show ?case using p by simp
  show "ReplaceAll (CHR ''}'' # spell (p # ps) w) doc_gap doc_comma =
      CHR ''}'' # spell (join_pairs True (p # ps)) w"
  proof (cases "u = [CHR 0x0A] \<and> t = LBrace")
    case True
    then show ?thesis
      using p ok Cons.IH(1) ReplaceAll_match [of doc_gap "spell ps w" doc_comma]
      by (simp add: doc_gap_def doc_comma_def)
  next
    case False
    then show ?thesis
      using p ok gap_at_token [OF ok(2,1)] rest by (simp add: ReplaceAll_step doc_gap_def)
  qed
qed

section \<open>A sequence of documents\<close>

lemma join_pairs_append:
  assumes "adjacent_ok (map snd ps)" "ps \<noteq> []" "\<not> (b \<and> hd ps = ([CHR 0x0A], LBrace))"
  shows "join_pairs b (ps @ qs) = ps @ join_pairs (snd (last ps) = RBrace) qs"
  using assms
proof (induction ps arbitrary: b)
  case (Cons p ps)
  obtain u t where p: "p = (u, t)" by fastforce
  show ?case
  proof (cases ps)
    case Nil
    then show ?thesis using Cons.prems p by auto
  next
    case (Cons q qs')
    then have "join_pairs (t = RBrace) (ps @ qs) = ps @ join_pairs (snd (last ps) = RBrace) qs"
      using Cons.IH [of "t = RBrace"] Cons.prems p by (cases q) (auto simp: ends_value_def)
    then show ?thesis using Cons.prems p Cons by auto
  qed
qed simp

lemma join_pairs_ok: "pairs_ok ps \<Longrightarrow> pairs_ok (join_pairs b ps)"
  by (induction b ps rule: join_pairs.induct) auto

text \<open>
  A document as it stands in the file: it starts with an opening brace and ends with a closing
  one. After the first document, each one starts on a new line: the white space before it is one
  newline, and blanks.
\<close>

definition object_text :: "(string \<times> tok) list \<Rightarrow> bool" where
  "object_text ps \<longleftrightarrow> ps \<noteq> [] \<and> snd (hd ps) = LBrace \<and> snd (last ps) = RBrace"

definition on_new_line :: "(string \<times> tok) list \<Rightarrow> bool" where
  "on_new_line ps \<longleftrightarrow> no_blank (fst (hd ps)) = [CHR 0x0A]"

lemma join_next:
  assumes "object_text d" "fst (hd d) = [CHR 0x0A]" "adjacent_ok (map snd d)"
  shows "map snd (join_pairs True (d @ qs)) = Comma # map snd d @ map snd (join_pairs True qs)"
proof -
  obtain d' where d: "d = ([CHR 0x0A], LBrace) # d'"
    using assms(1,2) by (cases d) (auto simp: object_text_def)
  then have ne: "d' \<noteq> []" using assms(1) by (auto simp: object_text_def)
  then have "snd (last d') = RBrace" using assms(1) d by (simp add: object_text_def)
  moreover have "adjacent_ok (map snd d')" using assms(3) d ne by (cases d') auto
  ultimately have "join_pairs False (d' @ qs) = d' @ join_pairs True qs"
    using join_pairs_append [of d' False qs] ne by simp
  then show ?thesis using d by simp
qed

lemma join_rest:
  assumes "\<And>d. d \<in> set ds \<Longrightarrow> object_text d \<and> fst (hd d) = [CHR 0x0A] \<and> adjacent_ok (map snd d)"
  shows "map snd (join_pairs True (concat ds)) = concat (map (\<lambda>d. Comma # map snd d) ds)"
  using assms by (induction ds) (simp_all add: join_next)

lemma commas_Cons: "commas (t # ts) = t @ concat (map (\<lambda>d. Comma # d) ts)"
  by (induction ts arbitrary: t) simp_all

lemma join_documents:
  assumes "object_text d" "adjacent_ok (map snd d)"
    and "\<And>d. d \<in> set ds \<Longrightarrow> object_text d \<and> fst (hd d) = [CHR 0x0A] \<and> adjacent_ok (map snd d)"
  shows "map snd (join_pairs False (concat (d # ds))) = commas (map (map snd) (d # ds))"
proof -
  have "join_pairs False (d @ concat ds) = d @ join_pairs True (concat ds)"
    using join_pairs_append [of d False "concat ds"] assms(1,2) by (simp add: object_text_def)
  then show ?thesis using join_rest [of ds] assms(3) by (simp add: commas_Cons comp_def del: commas.simps)
qed

lemma parse_spelled_array:
  assumes "pairs_ok ps" "list_all is_ws w" "map snd ps = commas tss"
    and "list_all2 is_document tss vs" "\<And>ts. ts \<in> set tss \<Longrightarrow> ts \<noteq> [] \<and> hd ts = LBrace"
  shows "parse_json (''['' @ spell ps w @ '']'') = Inr (JArr vs)"
proof -
  let ?ps = "([], LBrack) # ps @ [(w, RBrack)]"
  have toks: "map snd ?ps = LBrack # commas tss @ [RBrack]" using assms(3) by simp
  have parsed: "parse_tokens (LBrack # commas tss @ [RBrack], LexDone) = Inr (JArr vs)"
    by (rule parse_array_of_documents) (use assms in auto)
  then have "parse_run ([], PValue) (map snd ?ps) \<noteq> None"
    unfolding toks by (auto simp: parse_tokens_def split: option.splits)
  then have "spaced ?ps" by (intro adjacent_spaced parse_run_adjacent)
  then have "lexer Between (spell ?ps []) = (map snd ?ps, LexDone)"
    using assms(1,2) by (intro lexer_spell) auto
  moreover have "spell ?ps [] = ''['' @ spell ps w @ '']''"
    by (simp add: spell_append [of ps "[(w, RBrack)]"]) (induction ps; auto)
  ultimately have "lexer Between (''['' @ spell ps w @ '']'') = (LBrack # commas tss @ [RBrack], LexDone)"
    unfolding toks by (simp only:)
  then show ?thesis unfolding parse_json_def by (simp only: parsed)
qed

lemma despace_pairs_ends:
  assumes "ps \<noteq> []"
  shows "fst (hd (despace_pairs ps)) = no_blank (fst (hd ps))"
    "snd (hd (despace_pairs ps)) = despace (snd (hd ps))"
    "snd (last (despace_pairs ps)) = despace (snd (last ps))" "despace_pairs ps \<noteq> []"
  using assms by (simp_all add: despace_pairs_def hd_map last_map case_prod_beta)

lemma object_text_despace: "object_text ps \<Longrightarrow> object_text (despace_pairs ps)"
  by (simp add: object_text_def despace_pairs_ends)

lemma object_text_tokens: "object_text d \<Longrightarrow> map snd d \<noteq> [] \<and> hd (map snd d) = LBrace"
  by (simp add: object_text_def hd_map)

theorem parse_catalog_text:
  assumes "docs \<noteq> []" "\<And>d. d \<in> set docs \<Longrightarrow> object_text d \<and> pairs_ok d"
    and "\<And>d. d \<in> set (tl docs) \<Longrightarrow> on_new_line d" "list_all is_ws w"
    and "list_all2 (\<lambda>d. is_document (map despace (map snd d))) docs vs"
  shows "parse_json (''['' @ ReplaceAll (no_blank (spell (concat docs) w)) doc_gap doc_comma @ '']'')
    = Inr (JArr vs)"
proof -
  let ?ds = "map despace_pairs docs"
  have concat: "despace_pairs (concat docs) = concat ?ds" by (simp add: despace_pairs_def [abs_def] map_concat)
  have docs: "list_all2 is_document (map (map snd) ?ds) vs"
    using assms(5) by (simp add: list_all2_map1 map_snd_despace comp_def)
  have adj: "adjacent_ok (map snd d)" if "d \<in> set ?ds" for d
  proof -
    have "map snd d \<in> set (map (map snd) ?ds)" using that by (simp only: set_map imageI)
    then obtain v where "is_document (map snd d) v" using list_all2_mem [OF docs] by blast
    then show ?thesis
      by (intro parse_run_adjacent [of "([], PValue)"]) (simp add: is_document_def)
  qed
  have obj: "object_text d" if "d \<in> set ?ds" for d
    using that assms(2) object_text_despace by auto
  have line: "fst (hd d) = [CHR 0x0A]" if mem: "d \<in> set (tl ?ds)" for d
  proof -
    obtain d0 where d0: "d0 \<in> set (tl docs)" "d = despace_pairs d0"
      using mem by (auto simp: map_tl [symmetric])
    have "d0 \<in> set docs" using d0(1) by (rule list.set_sel(2) [OF assms(1)])
    then have "object_text d0" "on_new_line d0"
      using assms(2) [of d0] assms(3) [OF d0(1)] by simp_all
    then show ?thesis using d0(2) by (simp add: on_new_line_def object_text_def despace_pairs_ends)
  qed
  have ok: "pairs_ok (concat docs)" using assms(2) unfolding pairs_ok_def by fastforce
  then have "no_blank (spell (concat docs) w) = spell (concat ?ds) (no_blank w)"
    by (simp add: spell_no_blank concat)
  moreover have ok': "pairs_ok (concat ?ds)" using pairs_ok_despace [OF ok] concat by simp
  moreover have ws: "list_all is_ws (no_blank w)" using assms(4) by (rule no_blank_ws)
  ultimately have rep: "ReplaceAll (no_blank (spell (concat docs) w)) doc_gap doc_comma =
      spell (join_pairs False (concat ?ds)) (no_blank w)"
    by (simp add: replace_spell)
  have joined: "map snd (join_pairs False (concat ?ds)) = commas (map (map snd) ?ds)"
  proof (cases docs)
    case (Cons d ds)
    then show ?thesis
      using join_documents [of "despace_pairs d" "map despace_pairs ds"] adj obj line by auto
  qed (use assms(1) in simp)
  show ?thesis unfolding rep
  proof (rule parse_spelled_array [OF join_pairs_ok [OF ok'] ws joined docs])
    fix ts assume "ts \<in> set (map (map snd) ?ds)"
    then obtain d where "d \<in> set ?ds" "ts = map snd d" by auto
    then show "ts \<noteq> [] \<and> hd ts = LBrace" using object_text_tokens [OF obj] by simp
  qed
qed

end
