(* ===== verification/Manifest.thy ===== *)
theory Manifest
  imports Untar V1alpha3 CatalogText
begin

text \<open>
  pkg/manifest/manifest.go: reading the JSON files of an OCI image layout, extracting its
  layers, and listing the documents of a catalog. A pointer result is an option (JSON \<open>null\<close>
  gives nil without an error). \<open>ManifestInterface\<close> is the record \<open>manifest_iface\<close>; the locale
  \<open>manifest_api\<close> states what its client relies on, and \<open>Manifest_New\<close> provides it.
\<close>

section \<open>Reading the layout\<close>

definition indexJson :: string where "indexJson = ''index.json''"
definition catalogJson :: string where "catalogJson = ''catalog.json''"

definition unmarshal_go :: "'a dec \<Rightarrow> string \<Rightarrow> 'a \<Rightarrow> 'a go" where
  "unmarshal_go d s old = go_lift (json_Unmarshal d s old)"

definition GetImageIndex :: "string \<Rightarrow> OCISchema option go" where
  "GetImageIndex dir =
     go_bind (go_read (os_ReadFile (dir @ ''/'' @ indexJson)))
       (\<lambda>indx. unmarshal_go (dec_pointer dec_OCISchema zero_OCISchema) indx None)"

definition GetImageManifest :: "string \<Rightarrow> OCISchema option go" where
  "GetImageManifest fname =
     go_bind (go_read (os_ReadFile fname))
       (\<lambda>manifest. unmarshal_go (dec_pointer dec_OCISchema zero_OCISchema) manifest None)"

definition GetOperatorConfig :: "string \<Rightarrow> OperatorConfigSchema option go" where
  "GetOperatorConfig fname =
     go_bind (go_read (os_ReadFile fname))
       (\<lambda>manifest. unmarshal_go
          (dec_pointer dec_OperatorConfigSchema zero_OperatorConfigSchema) manifest None)"

section \<open>Extracting the layers\<close>

text \<open>\<open>strings.Split (digest, ":") [1]\<close>\<close>

definition digest_hex :: "string \<Rightarrow> string res" where
  "digest_hex digest = slice_at (Split digest CHR '':'') 1"

text \<open>A field of the struct a pointer points to; a nil pointer panics.\<close>

definition deref :: "'a option \<Rightarrow> 'a res" where
  "deref p = (case p of Some a \<Rightarrow> Ok a | None \<Rightarrow> Panic NilDereference)"

definition extract_layer :: "gunzip \<Rightarrow> string \<Rightarrow> string \<Rightarrow> string \<Rightarrow> OCIManifest \<Rightarrow> unit go" where
  "extract_layer gz fromPath toPath label blob =
     (if \<not> Contains (om_Digest blob) ''sha256''
      then go_fail (Errorf ''the digest format is not correct %s '' [FStr (om_Digest blob)])
      else
        go_bind (go_lift (digest_hex (om_Digest blob))) (\<lambda>hex.
        go_bind (go_read (os_Open (fromPath @ ''/'' @ hex))) (\<lambda>f.
        untar gz f toPath label)))"

definition ExtractLayersOCI ::
  "gunzip \<Rightarrow> string \<Rightarrow> string \<Rightarrow> string \<Rightarrow> OCISchema option \<Rightarrow> unit go" where
  "ExtractLayersOCI gz fromPath toPath label oci =
     go_try (go_read (os_Stat (toPath @ label))) (\<lambda>r.
       case r of
         Inl e \<Rightarrow>
           (if is_not_exist e
            then go_bind (go_lift (deref oci)) (\<lambda>o'.
                   go_for (oci_Layers o') (extract_layer gz fromPath toPath label))
            else log_Info ''tar exists'' [])
       | Inr _ \<Rightarrow> log_Info ''tar exists'' [])"

section \<open>The release images\<close>

definition GetReleaseSchema :: "string \<Rightarrow> RelatedImage list go" where
  "GetReleaseSchema filePath =
     go_try (go_read (os_ReadFile filePath)) (\<lambda>r.
       let data = (case r of Inr s \<Rightarrow> s | Inl _ \<Rightarrow> []) in
       go_bind (unmarshal_go dec_ReleaseSchema data zero_ReleaseSchema) (\<lambda>release.
       go_return (map (\<lambda>item. zero_RelatedImage
           \<lparr>ri_Image := fr_Name (tg_From item), ri_Name := tg_Name item\<rparr>)
         (sp_Tags (rs_Spec release)))))"

section \<open>The catalog\<close>

text \<open>
  The file holds one JSON document after the other: every blank is deleted (inside strings
  too), the documents are separated by commas where a closing and an opening brace stand on
  consecutive lines, and the whole is put in brackets.
\<close>

definition catalog_json_text :: "string \<Rightarrow> string" where
  "catalog_json_text data =
     (let tmp = ReplaceAll data '' '' [] in
      ''['' @ ReplaceAll tmp [CHR ''}'', CHR 0x0A, CHR ''{''] ''},{'' @ '']'')"

definition readOperatorCatalog :: "string \<Rightarrow> DeclarativeConfig list go" where
  "readOperatorCatalog path =
     go_bind (go_read (os_ReadFile (path @ ''/'' @ catalogJson))) (\<lambda>data.
     unmarshal_go (dec_slice ''[]v1alpha3.DeclarativeConfig'' dec_DeclarativeConfig
         zero_DeclarativeConfig)
       (catalog_json_text data) [])"

definition list_entry :: "ChannelEntry \<Rightarrow> unit go" where
  "list_entry e =
     go_seq (log_Info (esc # ''[1;94m     name: %s '' @ esc # ''[0m'') [FStr (ce_Name e)])
    (go_seq (if ce_Replaces e \<noteq> [] then log_Info ''       replaces: %s'' [FStr (ce_Replaces e)]
             else go_return ())
    (go_seq (if ce_Skips e \<noteq> []
             then go_for (ce_Skips e) (\<lambda>x. log_Info ''       skips: %s'' [FStr x])
             else go_return ())
            (if ce_SkipRange e \<noteq> [] then log_Info ''       skiprange: %s'' [FStr (ce_SkipRange e)]
             else go_return ())))"

definition list_config :: "DeclarativeConfig \<Rightarrow> unit go" where
  "list_config obj =
     (if dc_Schema obj = ''olm.channel'' then
        go_seq (log_Info (esc # ''[1;92m   channel => %s '' @ esc # ''[0m'') [FStr (dc_Name obj)])
          (go_for (dc_Entries obj) list_entry)
      else if dc_Schema obj = ''olm.bundle'' then
        log_Info (esc # ''[1;92m   bundle: %s '' @ esc # ''[0m'') [FStr (dc_Name obj)]
      else go_return ())"

definition ListCatalogs :: "string \<Rightarrow> string \<Rightarrow> unit go" where
  "ListCatalogs filePath op =
     go_bind (readOperatorCatalog (filePath @ ''/'' @ op)) (\<lambda>olm. go_for olm list_config)"

section \<open>The interface\<close>

record manifest_iface =
  mi_GetImageIndex :: "string \<Rightarrow> OCISchema option go"
  mi_GetImageManifest :: "string \<Rightarrow> OCISchema option go"
  mi_GetOperatorConfig :: "string \<Rightarrow> OperatorConfigSchema option go"
  mi_ExtractLayersOCI :: "string \<Rightarrow> string \<Rightarrow> string \<Rightarrow> OCISchema option \<Rightarrow> unit go"
  mi_GetReleaseSchema :: "string \<Rightarrow> RelatedImage list go"
  mi_ListCatalogs :: "string \<Rightarrow> string \<Rightarrow> unit go"

definition Manifest_New :: "gunzip \<Rightarrow> manifest_iface" where
  "Manifest_New gz =
     \<lparr>mi_GetImageIndex = GetImageIndex, mi_GetImageManifest = GetImageManifest,
      mi_GetOperatorConfig = GetOperatorConfig, mi_ExtractLayersOCI = ExtractLayersOCI gz,
      mi_GetReleaseSchema = GetReleaseSchema, mi_ListCatalogs = ListCatalogs\<rparr>"

section \<open>Reading changes nothing\<close>

lemma unmarshal_go_run: "unmarshal_go d s old w = (json_Unmarshal d s old, w)"
  by (simp add: unmarshal_go_def go_lift_def)

lemma read_then:
  "go_bind (go_read (os_ReadFile p)) k w =
     (case os_ReadFile p w of Ok s \<Rightarrow> k s w | Err e \<Rightarrow> (Err e, w) | Panic x \<Rightarrow> (Panic x, w))"
  by (simp add: go_bind_def go_read_def split: res.splits)

lemma GetImageIndex_run:
  "GetImageIndex dir w =
     (case os_ReadFile (dir @ ''/'' @ indexJson) w of
        Ok s \<Rightarrow> (json_Unmarshal (dec_pointer dec_OCISchema zero_OCISchema) s None, w)
      | Err e \<Rightarrow> (Err e, w) | Panic x \<Rightarrow> (Panic x, w))"
  by (simp add: GetImageIndex_def read_then unmarshal_go_run split: res.split)

lemma unmarshal_keeps: "world_relation R \<Longrightarrow> keeps R (unmarshal_go d s old)"
  unfolding unmarshal_go_def by (rule world_relation.keeps_lift)

lemma readers_log_only [keeps_intros]:
  "keeps log_only (GetImageIndex dir)" "keeps log_only (GetImageManifest f)"
  "keeps log_only (GetOperatorConfig f)" "keeps log_only (GetReleaseSchema f)"
  "keeps log_only (readOperatorCatalog f)"
  unfolding GetImageIndex_def GetImageManifest_def GetOperatorConfig_def GetReleaseSchema_def
    readOperatorCatalog_def unmarshal_go_def Let_def
  by (intro keeps_intros)+

lemma unmarshal_safe [safe_intros]: "no_panic (unmarshal_go d s old)"
  unfolding unmarshal_go_def by (rule no_panic_lift) (rule json_Unmarshal_no_panic)

lemma read_file_safe [safe_intros]: "no_panic (go_read (os_ReadFile p))"
  by (rule no_panic_read) (rule os_ReadFile_no_panic)

lemma readers_safe [safe_intros]:
  "no_panic (GetImageIndex dir)" "no_panic (GetImageManifest f)"
  "no_panic (GetOperatorConfig f)" "no_panic (GetReleaseSchema f)"
  "no_panic (readOperatorCatalog f)"
  unfolding GetImageIndex_def GetImageManifest_def GetOperatorConfig_def GetReleaseSchema_def
    readOperatorCatalog_def Let_def
  by (intro safe_intros)+

section \<open>What a listing prints\<close>

definition info_on :: "world \<Rightarrow> bool" where
  "info_on w \<longleftrightarrow> level w \<in> {''info'', ''debug'', ''trace''}"

definition info_line :: "string \<Rightarrow> string" where
  "info_line msg = esc # ''[1;94m [INFO] '' @ esc # ''[0m  : '' @ msg"

text \<open>\<open>m\<close> succeeds, and all it does is to log the lines at the level info.\<close>

definition emits :: "string list \<Rightarrow> unit go \<Rightarrow> bool" where
  "emits ls m \<longleftrightarrow>
     (\<forall>w. m w = (Ok (), w\<lparr>stderr := stderr w @ (if info_on w then map info_line ls else [])\<rparr>))"

lemma Sprintf_esc [simp]: "Sprintf (esc # f) args = esc # Sprintf f args"
  using Sprintf_text [of "[esc]" f args] by (simp add: esc_def)

lemma Sprintf_info:
  "Sprintf (esc # ''[1;94m [%s] '' @ esc # ''[0m  : %s'') [FStr ''INFO'', FStr m] = info_line m"
  by (simp add: fmt_verb_def fmt_extra_def info_line_def esc_def)

lemma emits_info: "emits [Sprintf f a] (log_Info f a)"
  unfolding emits_def log_Info_def simple_Info_def log_Printf_def skip_def go_return_def info_on_def
    Sprintf_info
  by auto

lemma emits_return: "emits [] (go_return ())"
  by (simp add: emits_def go_return_def)

lemma emits_seq: "emits a m \<Longrightarrow> emits b k \<Longrightarrow> emits (a @ b) (go_seq m k)"
  by (simp add: emits_def go_seq_def go_bind_def info_on_def)

lemma emits_for:
  "(\<And>x. x \<in> set xs \<Longrightarrow> emits (f x) (body x)) \<Longrightarrow> emits (concat (map f xs)) (go_for xs body)"
proof (induction xs)
  case (Cons x xs)
  then have "emits (f x @ concat (map f xs)) (go_seq (body x) (go_for xs body))"
    by (intro emits_seq) simp_all
  then show ?case by (simp add: go_seq_def)
qed (simp add: emits_return)

text \<open>The lines of a catalog: an abstract specification of the listing.\<close>

definition entry_lines :: "ChannelEntry \<Rightarrow> string list" where
  "entry_lines e =
     [esc # ''[1;94m     name: '' @ ce_Name e @ '' '' @ esc # ''[0m''] @
     (if ce_Replaces e = [] then [] else [''       replaces: '' @ ce_Replaces e]) @
     map (\<lambda>x. ''       skips: '' @ x) (ce_Skips e) @
     (if ce_SkipRange e = [] then [] else [''       skiprange: '' @ ce_SkipRange e])"

definition config_lines :: "DeclarativeConfig \<Rightarrow> string list" where
  "config_lines obj =
     (if dc_Schema obj = SchemaChannel
      then (esc # ''[1;92m   channel => '' @ dc_Name obj @ '' '' @ esc # ''[0m'') #
           concat (map entry_lines (dc_Entries obj))
      else if dc_Schema obj = SchemaBundle
      then [esc # ''[1;92m   bundle: '' @ dc_Name obj @ '' '' @ esc # ''[0m'']
      else [])"

lemma emits_line: "Sprintf f a = l \<Longrightarrow> emits [l] (log_Info f a)"
  using emits_info [of f a] by simp

lemma emits_if: "(b \<Longrightarrow> emits ls m) \<Longrightarrow> (\<not> b \<Longrightarrow> emits ks k) \<Longrightarrow>
    emits (if b then ls else ks) (if b then m else k)"
  by simp

lemma list_entry_emits: "emits (entry_lines e) (list_entry e)"
proof -
  have skips: "emits (concat (map (\<lambda>x. [''       skips: '' @ x]) xs))
      (go_for xs (\<lambda>x. log_Info ''       skips: %s'' [FStr x]))" for xs
    by (intro emits_for emits_line) (simp add: fmt_verb_def fmt_extra_def)
  have "emits (map (\<lambda>x. ''       skips: '' @ x) (ce_Skips e))
      (if ce_Skips e \<noteq> [] then go_for (ce_Skips e) (\<lambda>x. log_Info ''       skips: %s'' [FStr x])
       else go_return ())"
    using skips [of "ce_Skips e"] by (cases "ce_Skips e = []") (simp_all add: emits_return)
  moreover have
    "emits [esc # ''[1;94m     name: '' @ ce_Name e @ '' '' @ esc # ''[0m'']
       (log_Info (esc # ''[1;94m     name: %s '' @ esc # ''[0m'') [FStr (ce_Name e)])"
    by (rule emits_line) (simp add: fmt_verb_def fmt_extra_def esc_def)
  moreover have
    "emits (if ce_Replaces e = [] then [] else [''       replaces: '' @ ce_Replaces e])
       (if ce_Replaces e \<noteq> [] then log_Info ''       replaces: %s'' [FStr (ce_Replaces e)]
        else go_return ())"
    by (auto intro!: emits_line emits_return simp: fmt_verb_def fmt_extra_def)
  moreover have
    "emits (if ce_SkipRange e = [] then [] else [''       skiprange: '' @ ce_SkipRange e])
       (if ce_SkipRange e \<noteq> [] then log_Info ''       skiprange: %s'' [FStr (ce_SkipRange e)]
        else go_return ())"
    by (auto intro!: emits_line emits_return simp: fmt_verb_def fmt_extra_def)
  ultimately show ?thesis unfolding entry_lines_def list_entry_def by (intro emits_seq)
qed

lemma list_config_emits: "emits (config_lines obj) (list_config obj)"
proof -
  have line: "emits [esc # ''[1;92m   '' @ a @ dc_Name obj @ '' '' @ esc # ''[0m'']
      (log_Info (esc # ''[1;92m   '' @ a @ ''%s '' @ esc # ''[0m'') [FStr (dc_Name obj)])"
    if "CHR ''%'' \<notin> set a" for a
    using Sprintf_text [of "esc # ''[1;92m   '' @ a"] that
    by (intro emits_line) (simp add: fmt_verb_def fmt_extra_def esc_def)
  have "emits (concat (map entry_lines es)) (go_for es list_entry)" for es
    by (intro emits_for list_entry_emits)
  then show ?thesis
    using emits_seq [OF line [of "''channel => ''"], of _ "go_for (dc_Entries obj) list_entry"]
      line [of "''bundle: ''"] emits_return
    unfolding config_lines_def list_config_def SchemaChannel_def SchemaBundle_def by simp
qed

lemma list_configs_emit: "emits (concat (map config_lines olm)) (go_for olm list_config)"
  by (intro emits_for list_config_emits)

lemma ListCatalogs_run:
  "ListCatalogs filePath op w =
     (case fst (readOperatorCatalog (filePath @ ''/'' @ op) w) of
        Ok olm \<Rightarrow> (Ok (), w\<lparr>stderr := stderr w @
          (if info_on w then map info_line (concat (map config_lines olm)) else [])\<rparr>)
      | Err e \<Rightarrow> (Err e, w) | Panic x \<Rightarrow> (Panic x, w))"
proof -
  have "snd (readOperatorCatalog p w) = w" for p
    by (simp add: readOperatorCatalog_def read_then unmarshal_go_run split: res.split)
  then obtain r where "readOperatorCatalog (filePath @ ''/'' @ op) w = (r, w)"
    by (metis prod.collapse)
  then show ?thesis
    using list_configs_emit by (simp add: ListCatalogs_def go_bind_def emits_def split: res.split)
qed

lemma ListCatalogs_log_only [keeps_intros]: "keeps log_only (ListCatalogs filePath op)"
  by (rule keepsI) (auto simp: ListCatalogs_run log_only.refl split: res.splits)

lemma ListCatalogs_safe [safe_intros]: "no_panic (ListCatalogs filePath op)"
proof (rule no_panicI)
  show "fst (ListCatalogs filePath op w) \<noteq> Panic x" for w x
    using readers_safe(5) [of "filePath @ ''/'' @ op"]
    by (auto simp: ListCatalogs_run no_panic_def split: res.splits)
qed

section \<open>Extracting\<close>

text \<open>\<open>os.Stat\<close> says that the path does not exist.\<close>

definition missing :: "string \<Rightarrow> world \<Rightarrow> bool" where
  "missing p w = (case os_Stat p w of Err e \<Rightarrow> is_not_exist e | _ \<Rightarrow> False)"

lemma ExtractLayersOCI_run:
  "ExtractLayersOCI gz fromPath toPath label oci w =
     (if missing (toPath @ label) w
      then (case oci of
              None \<Rightarrow> (Panic NilDereference, w)
            | Some o' \<Rightarrow> go_for (oci_Layers o') (extract_layer gz fromPath toPath label) w)
      else log_Info ''tar exists'' [] w)"
proof (cases "os_Stat (toPath @ label) w")
  case (Panic x)
  then show ?thesis by (simp add: os_Stat_no_panic)
qed (simp_all add: ExtractLayersOCI_def missing_def go_defs deref_def split: option.splits)

lemma digest_hex_Ok: "digest_hex d = Ok h \<Longrightarrow> CHR '':'' \<in> set d"
  using Split_second_exists [of d "CHR '':''"] by (auto simp: digest_hex_def slice_at_def split: if_splits)

lemma digest_hex_safe: "CHR '':'' \<in> set d \<Longrightarrow> digest_hex d \<noteq> Panic x"
  using Split_second_exists [of d "CHR '':''"] by (simp add: digest_hex_def slice_at_def)

lemma digest_hex_panic:
  "CHR '':'' \<notin> set d \<Longrightarrow> digest_hex d = Panic (IndexOutOfRange 1 1)"
  by (simp add: digest_hex_def slice_at_def Split_none)

lemma digest_hex_algorithm:
  "CHR '':'' \<notin> set a \<Longrightarrow> CHR '':'' \<notin> set h \<Longrightarrow> digest_hex (a @ CHR '':'' # h) = Ok h"
  by (simp add: digest_hex_def slice_at_def Split_word Split_none)

context world_relation
begin

lemma keeps_extract_layer:
  "(\<And>f. keeps R (untar gz f toPath label)) \<Longrightarrow> keeps R (extract_layer gz fromPath toPath label blob)"
  unfolding extract_layer_def by (auto intro!: keeps_fail keeps_bind keeps_lift keeps_read)

lemma keeps_ExtractLayersOCI:
  assumes "\<And>f. keeps R (untar gz f toPath label)" "keeps R (log_Info ''tar exists'' [])"
  shows "keeps R (ExtractLayersOCI gz fromPath toPath label oci)"
  unfolding ExtractLayersOCI_def
  by (rule keeps_try)
    (auto intro!: keeps_read keeps_bind keeps_lift keeps_for keeps_extract_layer assms split: sum.splits)

end

lemma ExtractLayersOCI_keeps [keeps_intros]:
  "keeps no_copies (ExtractLayersOCI gz fromPath toPath label oci)"
  "keeps dirs_grow (ExtractLayersOCI gz fromPath toPath label oci)"
  "keeps keeps_wf (ExtractLayersOCI gz fromPath toPath label oci)"
  by (intro no_copies.keeps_ExtractLayersOCI dirs.keeps_ExtractLayersOCI
      wf.keeps_ExtractLayersOCI keeps_intros)+

text \<open>The archives of a decoder have names without \<open>..\<close> only.\<close>

definition archives_plain :: "gunzip \<Rightarrow> bool" where
  "archives_plain gz \<longleftrightarrow> (\<forall>s items. gz s = Inr items \<longrightarrow> names_plain items)"

lemma archives_plain_stream:
  "archives_plain gz \<Longrightarrow> gzip_NewReader gz f = Inr items \<Longrightarrow> names_plain items"
  by (cases f rule: read_all.cases) (auto simp: gzip_NewReader_def archives_plain_def)

lemma ExtractLayersOCI_confined:
  assumes "archives_plain gz" "toPath \<noteq> []" "plain toPath"
  shows "keeps (changes_only (around toPath)) (ExtractLayersOCI gz fromPath toPath label oci)"
  by (intro changes.keeps_ExtractLayersOCI untar_confined assms(2,3) keeps_intros)
    (rule archives_plain_stream [OF assms(1)])

text \<open>A manifest whose digests can be split: each has an algorithm and a colon.\<close>

definition digest_splits :: "OCIManifest \<Rightarrow> bool" where
  "digest_splits blob \<longleftrightarrow> (Contains (om_Digest blob) ''sha256'' \<longrightarrow> CHR '':'' \<in> set (om_Digest blob))"

lemma os_Open_safe [safe_intros]: "no_panic (go_read (os_Open p))"
  by (rule no_panic_read) (rule os_Open_no_panic)

lemma extract_layer_safe:
  "digest_splits blob \<Longrightarrow> no_panic (extract_layer gz fromPath toPath label blob)"
  unfolding extract_layer_def digest_splits_def
  by (auto intro!: safe_intros no_panic_lift simp: digest_hex_safe)

lemma no_panic_for_mem: "(\<And>x. x \<in> set xs \<Longrightarrow> no_panic (body x)) \<Longrightarrow> no_panic (go_for xs body)"
  by (induction xs) (simp_all add: no_panic_return no_panic_bind)

lemma ExtractLayersOCI_safe:
  assumes "\<forall>blob \<in> set (oci_Layers o'). digest_splits blob"
  shows "no_panic (ExtractLayersOCI gz fromPath toPath label (Some o'))"
proof -
  have "no_panic (go_for (oci_Layers o') (extract_layer gz fromPath toPath label))"
    by (rule no_panic_for_mem) (use assms extract_layer_safe in blast)
  then show ?thesis using log_safe(2) by (simp add: no_panic_def ExtractLayersOCI_run)
qed

section \<open>The contract of the interface\<close>

text \<open>
  What a client relies on: the readers and the listing change nothing but the log and do not
  panic; an extraction copies no image, removes nothing, and does nothing when its target is
  there; it stays around the directory it is given, for the targets \<open>ok\<close> allows.
\<close>

locale manifest_api =
  fixes m :: manifest_iface and ok :: "string \<Rightarrow> bool"
  assumes index_reads: "keeps log_only (mi_GetImageIndex m d)"
    and manifest_reads: "keeps log_only (mi_GetImageManifest m d)"
    and config_reads: "keeps log_only (mi_GetOperatorConfig m d)"
    and release_reads: "keeps log_only (mi_GetReleaseSchema m d)"
    and list_reads: "keeps log_only (mi_ListCatalogs m d op)"
    and index_safe: "no_panic (mi_GetImageIndex m d)"
    and manifest_safe: "no_panic (mi_GetImageManifest m d)"
    and config_safe: "no_panic (mi_GetOperatorConfig m d)"
    and release_safe: "no_panic (mi_GetReleaseSchema m d)"
    and list_safe: "no_panic (mi_ListCatalogs m d op)"
    and extract_no_copies: "keeps no_copies (mi_ExtractLayersOCI m from to label oci)"
    and extract_dirs: "keeps dirs_grow (mi_ExtractLayersOCI m from to label oci)"
    and extract_wf: "keeps keeps_wf (mi_ExtractLayersOCI m from to label oci)"
    and extract_confined: "ok to \<Longrightarrow>
      keeps (changes_only (around to)) (mi_ExtractLayersOCI m from to label oci)"
    and extract_there: "\<not> missing (to @ label) w \<Longrightarrow>
      mi_ExtractLayersOCI m from to label oci w = log_Info ''tar exists'' [] w"
begin

lemmas reads = index_reads manifest_reads config_reads release_reads list_reads

lemmas reads_keep = reads [THEN keeps_log_only(1)] reads [THEN keeps_log_only(2)]
  reads [THEN keeps_log_only(3)] reads [THEN keeps_log_only(4)] reads [THEN keeps_log_only(5)]

lemmas extract_keep = extract_no_copies extract_dirs extract_wf

lemmas safe = index_safe manifest_safe config_safe release_safe list_safe

end

definition extract_ok :: "gunzip \<Rightarrow> string \<Rightarrow> bool" where
  "extract_ok gz toPath \<longleftrightarrow> archives_plain gz \<and> toPath \<noteq> [] \<and> plain toPath"

interpretation oci_files: manifest_api "Manifest_New gz" "extract_ok gz" for gz
proof unfold_locales
  fix d op from_dir to_dir label oci w
  show "keeps log_only (mi_GetImageIndex (Manifest_New gz) d)"
    "keeps log_only (mi_GetImageManifest (Manifest_New gz) d)"
    "keeps log_only (mi_GetOperatorConfig (Manifest_New gz) d)"
    "keeps log_only (mi_GetReleaseSchema (Manifest_New gz) d)"
    "keeps log_only (mi_ListCatalogs (Manifest_New gz) d op)"
    by (simp_all add: Manifest_New_def readers_log_only ListCatalogs_log_only)
  show "no_panic (mi_GetImageIndex (Manifest_New gz) d)"
    "no_panic (mi_GetImageManifest (Manifest_New gz) d)"
    "no_panic (mi_GetOperatorConfig (Manifest_New gz) d)"
    "no_panic (mi_GetReleaseSchema (Manifest_New gz) d)"
    "no_panic (mi_ListCatalogs (Manifest_New gz) d op)"
    by (simp_all add: Manifest_New_def readers_safe ListCatalogs_safe)
  show "keeps no_copies (mi_ExtractLayersOCI (Manifest_New gz) from_dir to_dir label oci)"
    "keeps dirs_grow (mi_ExtractLayersOCI (Manifest_New gz) from_dir to_dir label oci)"
    "keeps keeps_wf (mi_ExtractLayersOCI (Manifest_New gz) from_dir to_dir label oci)"
    by (simp_all add: Manifest_New_def ExtractLayersOCI_keeps)
  show "keeps (changes_only (around to_dir))
      (mi_ExtractLayersOCI (Manifest_New gz) from_dir to_dir label oci)" if "extract_ok gz to_dir"
    using that by (simp add: Manifest_New_def extract_ok_def ExtractLayersOCI_confined)
  show "mi_ExtractLayersOCI (Manifest_New gz) from_dir to_dir label oci w =
      log_Info ''tar exists'' [] w" if "\<not> missing (to_dir @ label) w"
    using that by (simp add: Manifest_New_def ExtractLayersOCI_run)
qed

section \<open>The documents of a catalog\<close>

lemma catalog_json_text_blank:
  "catalog_json_text s = ''['' @ ReplaceAll (no_blank s) doc_gap doc_comma @ '']''"
  by (simp add: catalog_json_text_def ReplaceAll_delete no_blank_def doc_gap_def doc_comma_def)

lemma dec_elems_all2:
  "list_all2 (\<lambda>v c. d v z = (c, [])) vs cs \<Longrightarrow> dec_elems d z vs = (cs, [])"
  by (induction rule: list_all2_induct) simp_all

lemma read_catalog:
  assumes "os_ReadFile (path @ ''/'' @ catalogJson) w = Ok (spell (concat docs) ws)"
    and "docs \<noteq> []" "\<And>d. d \<in> set docs \<Longrightarrow> object_text d \<and> pairs_ok d"
    and "\<And>d. d \<in> set (tl docs) \<Longrightarrow> on_new_line d" "list_all is_ws ws"
    and "list_all2 (\<lambda>d. is_document (map despace (map snd d))) docs vs"
    and "list_all2 (\<lambda>v c. dec_DeclarativeConfig v zero_DeclarativeConfig = (c, [])) vs cs"
  shows "readOperatorCatalog path w = (Ok cs, w)"
proof -
  have "parse_json (catalog_json_text (spell (concat docs) ws)) = Inr (JArr vs)"
    unfolding catalog_json_text_blank by (rule parse_catalog_text) (use assms in blast)+
  then show ?thesis
    using assms(1) dec_elems_all2 [of dec_DeclarativeConfig zero_DeclarativeConfig vs cs] assms(7)
    by (simp add: readOperatorCatalog_def read_then unmarshal_go_run json_Unmarshal_def dec_slice_def)
qed

section \<open>Properties\<close>

lemma Split_head: "Split s c = takeWhile (\<lambda>d. d \<noteq> c) s # tl (Split s c)"
  by (induction s) (auto split: list.splits)

text \<open>
  The hexadecimal part of a digest is the text between its first and its second colon, or to
  its end; a digest without a colon panics with an index out of range.
\<close>

theorem digest_hex_cases:
  "digest_hex d =
     (if CHR '':'' \<in> set d
      then Ok (takeWhile (\<lambda>c. c \<noteq> CHR '':'') (tl (dropWhile (\<lambda>c. c \<noteq> CHR '':'') d)))
      else Panic (IndexOutOfRange 1 1))"
proof (cases "CHR '':'' \<in> set d")
  case True
  then obtain a h where d: "d = a @ CHR '':'' # h" "CHR '':'' \<notin> set a"
    by (meson split_list_first)
  then have "Split d CHR '':'' ! 1 = takeWhile (\<lambda>c. c \<noteq> CHR '':'') h"
    using Split_word [of "CHR '':''" a h] Split_head [of h "CHR '':''"]
    by (metis One_nat_def nth_Cons_0 nth_Cons_Suc)
  moreover have "dropWhile (\<lambda>c. c \<noteq> CHR '':'') d = CHR '':'' # h"
    using d by (simp add: dropWhile_append3 dropWhile_append2)
      (metis (mono_tags, lifting) dropWhile_append3 dropWhile_eq_Nil_conv dropWhile_eq_self_iff list.sel(1))
  ultimately show ?thesis using True Split_second_exists [of d "CHR '':''"]
    by (simp add: digest_hex_def slice_at_def)
qed (simp add: digest_hex_panic)

text \<open>
  C21: when the extraction can panic. It never does for a manifest whose layers with \<open>sha256\<close> in
  their digest have a colon in it, whatever the files hold; without a manifest, or when the first
  layer is such a one without a colon, it panics as soon as the target is missing.
\<close>

theorem ExtractLayersOCI_panics:
  "(\<forall>oci :: OCISchema. (\<forall>blob \<in> set (oci_Layers oci). digest_splits blob) \<longrightarrow>
      fst (ExtractLayersOCI gz fromPath toPath label (Some oci) w) \<noteq> Panic x) \<and>
   (missing (toPath @ label) w \<longrightarrow>
      fst (ExtractLayersOCI gz fromPath toPath label None w) = Panic NilDereference) \<and>
   (\<forall>(oci :: OCISchema) blob rest. missing (toPath @ label) w \<and> oci_Layers oci = blob # rest \<and> \<not> digest_splits blob \<longrightarrow>
      fst (ExtractLayersOCI gz fromPath toPath label (Some oci) w) = Panic (IndexOutOfRange 1 1))"
proof (intro conjI allI impI)
  fix oci :: OCISchema assume "\<forall>blob \<in> set (oci_Layers oci). digest_splits blob"
  then show "fst (ExtractLayersOCI gz fromPath toPath label (Some oci) w) \<noteq> Panic x"
    using ExtractLayersOCI_safe by (simp add: no_panic_def)
next
  fix oci :: OCISchema and blob rest
  assume "missing (toPath @ label) w \<and> oci_Layers oci = blob # rest \<and> \<not> digest_splits blob"
  then show "fst (ExtractLayersOCI gz fromPath toPath label (Some oci) w) = Panic (IndexOutOfRange 1 1)"
    by (simp add: ExtractLayersOCI_run extract_layer_def digest_splits_def digest_hex_panic go_bind_def
        go_lift_def)
qed (simp add: ExtractLayersOCI_run)

theorem ExtractLayersOCI_panics_witness:
  "fst (ExtractLayersOCI (\<lambda>_. Inr []) ''from'' ''out'' ''/configs''
     (Some (zero_OCISchema\<lparr>oci_Layers := [zero_OCIManifest\<lparr>om_Digest := ''sha256-0''\<rparr>]\<rparr>)) slip_world) =
   Panic (IndexOutOfRange 1 1)"
proof -
  have "missing (''out'' @ ''/configs'') slip_world" by code_simp
  moreover have "\<not> digest_splits (zero_OCIManifest\<lparr>om_Digest := ''sha256-0''\<rparr>)"
    by (simp add: digest_splits_def)
  ultimately show ?thesis using ExtractLayersOCI_panics [of "\<lambda>_. Inr []"] by simp
qed

text \<open>
  C23: reading a release. \<open>GetReleaseSchema\<close> gives, for each tag of the release in order, its name
  and the image it stands for; an error of reading the file is dropped, and what is returned for
  it is the error of parsing an empty text.
\<close>

theorem GetReleaseSchema_run:
  "GetReleaseSchema p w =
     ((case os_ReadFile p w of
         Ok s \<Rightarrow> res_map (\<lambda>release. map (\<lambda>t. zero_RelatedImage\<lparr>ri_Image := fr_Name (tg_From t), ri_Name := tg_Name t\<rparr>)
             (sp_Tags (rs_Spec release)))
           (json_Unmarshal dec_ReleaseSchema s zero_ReleaseSchema)
       | _ \<Rightarrow> Err bad_end), w)"
proof (cases "os_ReadFile p w")
  case (Ok s)
  then show ?thesis
    by (cases "json_Unmarshal dec_ReleaseSchema s zero_ReleaseSchema")
      (simp_all add: GetReleaseSchema_def go_defs unmarshal_go_def)
next
  case (Err e)
  then show ?thesis by (simp add: GetReleaseSchema_def go_defs unmarshal_go_def)
qed (simp add: os_ReadFile_no_panic)

text \<open>
  C24: what a listing of a catalog prints. The file is a sequence of JSON objects, each but the
  first on a new line, with any white space elsewhere. \<open>ListCatalogs\<close> logs exactly the lines of
  the declarative configurations that these objects decode to, in their order, once every blank
  is deleted from the strings in them (names and version ranges included).
\<close>

theorem ListCatalogs_prints_documents:
  assumes "os_ReadFile (filePath @ ''/'' @ op @ ''/'' @ catalogJson) w = Ok (spell (concat docs) ws)"
    and "docs \<noteq> []" "\<And>d. d \<in> set docs \<Longrightarrow> object_text d \<and> pairs_ok d"
    and "\<And>d. d \<in> set (tl docs) \<Longrightarrow> on_new_line d" "list_all is_ws ws"
    and "list_all2 (\<lambda>d. is_document (map despace (map snd d))) docs vs"
    and "list_all2 (\<lambda>v c. dec_DeclarativeConfig v zero_DeclarativeConfig = (c, [])) vs cs"
  shows "ListCatalogs filePath op w = (Ok (), w\<lparr>stderr := stderr w @
    (if info_on w then map info_line (concat (map config_lines cs)) else [])\<rparr>)"
proof -
  have "readOperatorCatalog (filePath @ ''/'' @ op) w = (Ok cs, w)"
    by (rule read_catalog [where docs = docs and ws = ws and vs = vs]) (use assms in simp_all)
  then show ?thesis by (simp add: ListCatalogs_run)
qed

definition bundle_doc :: "string \<Rightarrow> string \<Rightarrow> (string \<times> tok) list" where
  "bundle_doc space name =
     [(space, LBrace), ([], TStr ''schema''), ([], Colon), ('' '', TStr ''olm.bundle''), ([], Comma),
      ([], TStr ''name''), ([], Colon), ([], TStr name), ([], RBrace)]"

definition bundle_json :: "string \<Rightarrow> json" where
  "bundle_json name = JObj [(''schema'', JStr ''olm.bundle''), (''name'', JStr name)]"

theorem ListCatalogs_prints_documents_witness:
  "let text = spell (concat [bundle_doc [] ''foo v1'', bundle_doc [CHR 0x0A] ''bar'']) [CHR 0x0A];
       w = slip_world\<lparr>fs := [([''home''], Dir), ([''home'', ''c''], Dir), ([''home'', ''c'', ''foo''], Dir),
         ([''home'', ''c'', ''foo'', ''catalog.json''], File text)]\<rparr>
   in ListCatalogs ''c'' ''foo'' w = (Ok (), w\<lparr>stderr :=
        [info_line (esc # ''[1;92m   bundle: foov1 '' @ esc # ''[0m''),
         info_line (esc # ''[1;92m   bundle: bar '' @ esc # ''[0m'')]\<rparr>)"
proof -
  define docs where "docs = [bundle_doc [] ''foo v1'', bundle_doc [CHR 0x0A] ''bar'']"
  define w where "w = slip_world\<lparr>fs := [([''home''], Dir), ([''home'', ''c''], Dir),
     ([''home'', ''c'', ''foo''], Dir),
     ([''home'', ''c'', ''foo'', ''catalog.json''], File (spell (concat docs) [CHR 0x0A]))]\<rparr>"
  let ?c = "\<lambda>name. zero_DeclarativeConfig\<lparr>dc_Schema := ''olm.bundle'', dc_Name := name\<rparr>"
  have "ListCatalogs ''c'' ''foo'' w = (Ok (), w\<lparr>stderr := stderr w @
    (if info_on w then map info_line (concat (map config_lines [?c ''foov1'', ?c ''bar''])) else [])\<rparr>)"
  proof (rule ListCatalogs_prints_documents [where docs = docs and ws = "[CHR 0x0A]"
        and vs = "[bundle_json ''foov1'', bundle_json ''bar'']"])
    show "os_ReadFile (''c'' @ ''/'' @ ''foo'' @ ''/'' @ catalogJson) w = Ok (spell (concat docs) [CHR 0x0A])"
      by (simp add: w_def os_ReadFile_def os_Open_def sys_at_def locate_def start_dir_def HasPrefix_def
          comps_def entry_def slip_world_def catalogJson_def)
    show "docs \<noteq> []" by (simp add: docs_def)
    show "object_text d \<and> pairs_ok d" if "d \<in> set docs" for d
    proof -
      have "list_all (\<lambda>d. object_text d \<and> pairs_ok d) docs" unfolding docs_def by code_simp
      then show ?thesis using that by (simp add: list_all_iff)
    qed
    show "on_new_line d" if "d \<in> set (tl docs)" for d
      using that by (simp add: docs_def on_new_line_def bundle_doc_def)
    show "list_all is_ws [CHR 0x0A]" by code_simp
    show "list_all2 (\<lambda>d. is_document (map despace (map snd d))) docs
        [bundle_json ''foov1'', bundle_json ''bar'']"
      unfolding docs_def bundle_json_def by code_simp
    show "list_all2 (\<lambda>v c. dec_DeclarativeConfig v zero_DeclarativeConfig = (c, []))
        [bundle_json ''foov1'', bundle_json ''bar''] [?c ''foov1'', ?c ''bar'']"
      unfolding bundle_json_def by code_simp
  qed
  moreover have "stderr w = []" "info_on w" by (simp_all add: w_def slip_world_def info_on_def)
  moreover have "config_lines (?c name) = [esc # ''[1;92m   bundle: '' @ name @ '' '' @ esc # ''[0m'']" for name
    by (simp add: config_lines_def SchemaChannel_def SchemaBundle_def)
  ultimately show ?thesis unfolding Let_def w_def docs_def by simp
qed

end
