(* ===== verification/GoStrconv.thy ===== *)
theory GoStrconv
  imports GoFmt GoDecode
begin

text \<open>
  What the program uses of Go's \<open>strconv\<close>: \<open>ParseBool\<close>, and \<open>ParseInt\<close> with base 0 and 64
  bits, where the prefix of the text selects the base and underscores may separate digits.
\<close>

definition num_error :: "string \<Rightarrow> string \<Rightarrow> string \<Rightarrow> go_error" where
  "num_error f s e = ErrorString (''strconv.'' @ f @ '': parsing '' @ go_quote s @ '': '' @ e)"

definition ParseBool :: "string \<Rightarrow> bool res" where
  "ParseBool s =
     (if s \<in> {''1'', ''t'', ''T'', ''true'', ''TRUE'', ''True''} then Ok True
      else if s \<in> {''0'', ''f'', ''F'', ''false'', ''FALSE'', ''False''} then Ok False
      else Err (num_error ''ParseBool'' s ''invalid syntax''))"

definition lower :: "char \<Rightarrow> char" where
  "lower c = (if 65 \<le> code c \<and> code c \<le> 90 then char_of (code c + 32) else c)"

text \<open>The value of a character as a digit, up to base 36\<close>

definition digit_of :: "char \<Rightarrow> nat option" where
  "digit_of c =
     (let n = code (lower c) in
      if 48 \<le> n \<and> n \<le> 57 then Some (n - 48)
      else if 97 \<le> n \<and> n \<le> 122 then Some (n - 97 + 10) else None)"

text \<open>The base an integer text selects, and what is left of it.\<close>

definition base_prefix :: "string \<Rightarrow> nat \<times> string" where
  "base_prefix s =
     (case s of
        z # c # d # r \<Rightarrow>
          if z \<noteq> CHR ''0'' then (10, s)
          else if lower c = CHR ''b'' then (2, d # r)
          else if lower c = CHR ''o'' then (8, d # r)
          else if lower c = CHR ''x'' then (16, d # r)
          else (8, c # d # r)
      | z # r \<Rightarrow> if z = CHR ''0'' then (8, r) else (10, s)
      | [] \<Rightarrow> (10, s))"

fun digits_in :: "nat \<Rightarrow> string \<Rightarrow> int \<Rightarrow> int option" where
  "digits_in b [] n = Some n"
| "digits_in b (c # s) n =
     (if c = CHR ''_'' then digits_in b s n
      else case digit_of c of
        None \<Rightarrow> None
      | Some d \<Rightarrow> if d < b then digits_in b s (n * int b + int d) else None)"

text \<open>
  \<open>underscoreOK\<close>: an underscore stands between digits, or after the prefix of the base. The
  state is what the character before was: a digit (or the prefix), an underscore, or neither.
\<close>

datatype before = BDigit | BUnderscore | BOther

fun underscores_from :: "bool \<Rightarrow> before \<Rightarrow> string \<Rightarrow> bool" where
  "underscores_from hex i [] = (i \<noteq> BUnderscore)"
| "underscores_from hex i (c # s) =
     (if is_digit c \<or> (hex \<and> 97 \<le> code (lower c) \<and> code (lower c) \<le> 102)
      then underscores_from hex BDigit s
      else if c = CHR ''_'' then (i = BDigit \<and> underscores_from hex BUnderscore s)
      else i \<noteq> BUnderscore \<and> underscores_from hex BOther s)"

definition underscoreOK :: "string \<Rightarrow> bool" where
  "underscoreOK s =
     (case s of
        z # c # r \<Rightarrow>
          if z = CHR ''0'' \<and> lower c \<in> {CHR ''b'', CHR ''o'', CHR ''x''}
          then underscores_from (lower c = CHR ''x'') BDigit r
          else underscores_from False BOther s
      | _ \<Rightarrow> underscores_from False BOther s)"

definition int64_limit :: int where
  "int64_limit = 9223372036854775808"

definition ParseInt :: "string \<Rightarrow> int res" where
  "ParseInt s =
     (let u = (case s of c # r \<Rightarrow> if c \<in> {CHR ''+'', CHR ''-''} then r else s | [] \<Rightarrow> []);
          neg = (u \<noteq> s \<and> hd s = CHR ''-''); (b, ds) = base_prefix u;
          bad = Err (num_error ''ParseInt'' s ''invalid syntax'')
      in if u = [] then bad
         else case digits_in b ds 0 of
           None \<Rightarrow> bad
         | Some n \<Rightarrow>
             if CHR ''_'' \<in> set ds \<and> \<not> underscoreOK u then bad
             else if neg then (if n \<le> int64_limit then Ok (- n)
                               else Err (num_error ''ParseInt'' s ''value out of range''))
             else if n < int64_limit then Ok n
             else Err (num_error ''ParseInt'' s ''value out of range''))"

lemma ParseBool_no_panic: "ParseBool s \<noteq> Panic x"
  by (simp add: ParseBool_def)

lemma ParseInt_no_panic: "ParseInt s \<noteq> Panic x"
  by (auto simp: ParseInt_def Let_def split: option.splits prod.splits)

lemma digits_in_nonneg: "digits_in b s n = Some m \<Longrightarrow> 0 \<le> n \<Longrightarrow> 0 \<le> m"
  by (induction b s n rule: digits_in.induct) (auto split: if_splits option.splits)

lemma ParseInt_bounds: "ParseInt s = Ok n \<Longrightarrow> - int64_limit \<le> n \<and> n < int64_limit"
  using digits_in_nonneg
  by (fastforce simp: ParseInt_def Let_def int64_limit_def split: option.splits prod.splits if_splits)

text \<open>Reading a number that was shown gives the number, or an error when it does not fit.\<close>

lemma digits_in_append:
  "CHR ''_'' \<notin> set s \<Longrightarrow> digits_in b (s @ t) n = Option.bind (digits_in b s n) (digits_in b t)"
  by (induction b s n rule: digits_in.induct) (auto split: option.splits)

lemma code_digit: "(d :: nat) < 10 \<Longrightarrow> (of_char (char_of (48 + d) :: char) :: nat) = 48 + d"
  by simp

lemma digit_of_digit: "d < 10 \<Longrightarrow> digit_of (char_of (48 + d)) = Some d"
  by (simp add: digit_of_def lower_def code_def)

lemma digit_not: "(d :: nat) < 10 \<Longrightarrow> of_char c < (48 :: nat) \<or> 57 < (of_char c :: nat) \<Longrightarrow> char_of (48 + d) \<noteq> c"
  using code_digit [of d] by auto

lemma digit_signs:
  "(d :: nat) < 10 \<Longrightarrow> char_of (48 + d) \<notin> {CHR ''_'', CHR ''+'', CHR ''-''}"
  "0 < (d :: nat) \<Longrightarrow> d < 10 \<Longrightarrow> char_of (48 + d) \<noteq> CHR ''0''"
  using digit_not [of d] code_digit [of d] by fastforce+

lemma show_nat_digits:
  "set (show_nat n) \<inter> {CHR ''_'', CHR ''+'', CHR ''-''} = {} \<and> digits_in 10 (show_nat n) 0 = Some (int n) \<and>
   show_nat n \<noteq> [] \<and> (0 < n \<longrightarrow> hd (show_nat n) \<noteq> CHR ''0'')"
proof (induction n rule: show_nat.induct)
  case (1 n)
  show ?case
  proof (cases "n < 10")
    case True
    then show ?thesis using digit_signs [of n] digit_of_digit [of n]
      by (subst (1 2 3 4) show_nat.simps) auto
  next
    case False
    have split: "show_nat n = show_nat (n div 10) @ [char_of (48 + n mod 10)]"
      using False by (subst show_nat.simps) simp
    have "int n = int (n div 10) * 10 + int (n mod 10)" by presburger
    then show ?thesis
      using 1 [OF False] digit_signs [of "n mod 10"] digit_of_digit [of "n mod 10"] False
      unfolding split by (auto simp: digits_in_append hd_append)
  qed
qed

lemma base_prefix_show: "digits_in (fst (base_prefix (show_nat n))) (snd (base_prefix (show_nat n))) 0 =
    Some (int n) \<and> CHR ''_'' \<notin> set (snd (base_prefix (show_nat n)))"
proof (cases "n = 0")
  case True
  have "show_nat 0 = ''0''" by code_simp
  then show ?thesis using True by (simp add: base_prefix_def)
next
  case False
  obtain z r where z: "show_nat n = z # r" "z \<noteq> CHR ''0''"
    using show_nat_digits [of n] False by (cases "show_nat n") auto
  then have "base_prefix (show_nat n) = (10, show_nat n)"
    by (simp add: base_prefix_def split: list.split)
  then show ?thesis using show_nat_digits [of n] by auto
qed

lemma ParseInt_show_int:
  "ParseInt (show_int n) =
     (if - int64_limit \<le> n \<and> n < int64_limit then Ok n
      else Err (num_error ''ParseInt'' (show_int n) ''value out of range''))"
proof -
  have limit: "0 < int64_limit" by (simp add: int64_limit_def)
  obtain z r where z: "show_nat (nat \<bar>n\<bar>) = z # r" "z \<notin> {CHR ''+'', CHR ''-''}"
    using show_nat_digits [of "nat \<bar>n\<bar>"] by (cases "show_nat (nat \<bar>n\<bar>)") auto
  obtain b ds where b: "base_prefix (z # r) = (b, ds)" "digits_in b ds 0 = Some \<bar>n\<bar>" "CHR ''_'' \<notin> set ds"
    using base_prefix_show [of "nat \<bar>n\<bar>"] unfolding z by (cases "base_prefix (z # r)") auto
  show ?thesis
  proof (cases "n < 0")
    case True
    then have "show_int n = CHR ''-'' # z # r" using z by (simp add: show_int_def)
    then show ?thesis using True b limit by (auto simp: ParseInt_def Let_def)
  next
    case False
    then have "show_int n = z # r" using z by (simp add: show_int_def)
    then show ?thesis using False z b limit by (auto simp: ParseInt_def Let_def)
  qed
qed

end
