(* ===== verification/Options.thy ===== *)
theory Options
  imports GoStrconv
begin

text \<open>
  pkg/mirror/options.go: the option structs, the flag sets that write into them, and what is
  made of the options: the policy, the time limit, the system contexts and the manifest type.
  Of a flag set the names matter, with the variable each flag writes to: \<open>pflag\<close> panics when a
  name is defined twice in a set, and skips a name that is already there when it adds one set to
  another. \<open>GlobalOptions\<close>, \<open>SharedImageOptions\<close> and \<open>DeprecatedTLSVerifyOption\<close> are single
  objects that the image options point to; an operation that follows such a pointer takes the
  object as an argument.
\<close>

section \<open>Optional values (github.com/containers/common/pkg/flag)\<close>

record 'a Optional =
  opt_present :: bool
  opt_value :: 'a

definition absent :: "'a \<Rightarrow> 'a Optional" where
  "absent z = \<lparr>opt_present = False, opt_value = z\<rparr>"

section \<open>The option structs\<close>

record DeprecatedTLSVerifyOption =
  dt_tlsVerify :: "bool Optional"

record SharedImageOptions =
  sh_authFilePath :: string

record imageOptions =
  io_authFilePath :: "string Optional"
  io_credsOption :: "string Optional"
  io_userName :: "string Optional"
  io_password :: "string Optional"
  io_registryToken :: "string Optional"
  io_dockerCertPath :: string
  io_tlsVerify :: "bool Optional"
  io_noCreds :: bool
  io_sharedBlobDir :: string
  io_dockerDaemonHost :: string

record imageDestOptions =
  de_imageOptions :: imageOptions
  de_dirForceCompression :: bool
  de_dirForceDecompression :: bool
  de_ociAcceptUncompressedLayers :: bool
  de_compressionFormat :: string
  de_compressionLevel :: "int Optional"
  de_precomputeDigests :: bool

record GlobalOptions =
  gl_LogLevel :: string
  gl_TlsVerify :: bool
  gl_PolicyPath :: string
  gl_InsecurePolicy :: bool
  gl_RegistriesDirPath :: string
  gl_OverrideArch :: string
  gl_OverrideOS :: string
  gl_OverrideVariant :: string
  gl_CommandTimeout :: int
  gl_RegistriesConfPath :: string
  gl_TmpDir :: string
  gl_Dir :: string
  gl_ConfigPath :: string
  gl_From :: string
  gl_Quiet :: bool
  gl_Force :: bool
  gl_ImageIndex :: string
  gl_Reference :: string

text \<open>\<open>retry.Options\<close>\<close>

record RetryOptions =
  re_MaxRetry :: int
  re_Delay :: int

record CopyOptions =
  co_Global :: GlobalOptions
  co_Shared :: SharedImageOptions
  co_DeprecatedTLSVerify :: DeprecatedTLSVerifyOption
  co_SrcImage :: imageOptions
  co_DestImage :: imageDestOptions
  co_RetryOpts :: RetryOptions
  co_AdditionalTags :: "string list"
  co_RemoveSignatures :: bool
  co_SignByFingerprint :: string
  co_SignBySigstorePrivateKey :: string
  co_SignPassphraseFile :: string
  co_SignIdentity :: string
  co_DigestFile :: string
  co_Format :: string
  co_All :: bool
  co_MultiArch :: string
  co_PreserveDigests :: bool
  co_EncryptLayer :: "int list"
  co_EncryptionKeys :: "string list"
  co_DecryptionKeys :: "string list"
  co_Mode :: string
  co_Dev :: bool
  co_Destination :: string
  co_UUID :: "nat list"
  co_ImageType :: string

definition zero_imageOptions :: imageOptions where
  "zero_imageOptions =
     \<lparr>io_authFilePath = absent [], io_credsOption = absent [], io_userName = absent [],
      io_password = absent [], io_registryToken = absent [], io_dockerCertPath = [],
      io_tlsVerify = absent False, io_noCreds = False, io_sharedBlobDir = [],
      io_dockerDaemonHost = []\<rparr>"

definition zero_imageDestOptions :: imageDestOptions where
  "zero_imageDestOptions =
     \<lparr>de_imageOptions = zero_imageOptions, de_dirForceCompression = False,
      de_dirForceDecompression = False, de_ociAcceptUncompressedLayers = False,
      de_compressionFormat = [], de_compressionLevel = absent 0, de_precomputeDigests = False\<rparr>"

definition zero_GlobalOptions :: GlobalOptions where
  "zero_GlobalOptions =
     \<lparr>gl_LogLevel = [], gl_TlsVerify = False, gl_PolicyPath = [], gl_InsecurePolicy = False,
      gl_RegistriesDirPath = [], gl_OverrideArch = [], gl_OverrideOS = [], gl_OverrideVariant = [],
      gl_CommandTimeout = 0, gl_RegistriesConfPath = [], gl_TmpDir = [], gl_Dir = [],
      gl_ConfigPath = [], gl_From = [], gl_Quiet = False, gl_Force = False, gl_ImageIndex = [],
      gl_Reference = []\<rparr>"

section \<open>Flags\<close>

text \<open>The variable a flag writes to: a field of one of the structs above.\<close>

datatype image_field = AuthFile | Creds | UserName | Password | RegistryToken | CertDir
  | TlsVerify | NoCreds | SharedBlobDir | DaemonHost

datatype dest_field = Compress | Decompress | AcceptUncompressed | CompressFormat
  | CompressLevel | PrecomputeDigests

datatype image_obj = SrcImage | DestImage

datatype flag_var = VarAuthFile | VarDepTLS | VarImage image_obj image_field | VarDest dest_field
  | VarRetryTimes | VarLogLevel | VarReference

record flag =
  fl_Name :: string
  fl_Var :: flag_var
  fl_Hidden :: bool

type_synonym flagset = "flag list"

definition flag_names :: "flagset \<Rightarrow> string list" where
  "flag_names fl = map fl_Name fl"

text \<open>\<open>pflag.FlagSet.AddFlag\<close> and \<open>AddFlagSet\<close>\<close>

definition AddFlag :: "flag \<Rightarrow> flagset \<Rightarrow> flagset res" where
  "AddFlag f fl =
     (if fl_Name f \<in> set (flag_names fl) then Panic (FlagRedefined (fl_Name f)) else Ok (fl @ [f]))"

fun AddFlagSet :: "flagset \<Rightarrow> flagset \<Rightarrow> flagset" where
  "AddFlagSet [] fl = fl"
| "AddFlagSet (f # new) fl =
     AddFlagSet new (if fl_Name f \<in> set (flag_names fl) then fl else fl @ [f])"

definition Var :: "flag_var \<Rightarrow> string \<Rightarrow> flagset \<Rightarrow> flagset res" where
  "Var v name = AddFlag \<lparr>fl_Name = name, fl_Var = v, fl_Hidden = False\<rparr>"

definition HiddenVar :: "flag_var \<Rightarrow> string \<Rightarrow> flagset \<Rightarrow> flagset res" where
  "HiddenVar v name = AddFlag \<lparr>fl_Name = name, fl_Var = v, fl_Hidden = True\<rparr>"

fun define_flags :: "(flagset \<Rightarrow> flagset res) list \<Rightarrow> flagset \<Rightarrow> flagset res" where
  "define_flags [] fl = Ok fl"
| "define_flags (d # ds) fl = res_bind (d fl) (define_flags ds)"

section \<open>Building the flag sets\<close>

definition DeprecatedTLSVerifyFlags :: "(flagset \<times> DeprecatedTLSVerifyOption) res" where
  "DeprecatedTLSVerifyFlags =
     res_map (\<lambda>fl. (fl, \<lparr>dt_tlsVerify = absent False\<rparr>)) (HiddenVar VarDepTLS ''tls-verify'' [])"

text \<open>\<open>env\<close> is the value of the environment variable \<open>REGISTRY_AUTH_FILE\<close>.\<close>

definition SharedImageFlags :: "string \<Rightarrow> (flagset \<times> SharedImageOptions) res" where
  "SharedImageFlags env =
     res_map (\<lambda>fl. (fl, \<lparr>sh_authFilePath = env\<rparr>)) (Var VarAuthFile ''authfile'' [])"

definition dockerImageFlags ::
  "image_obj \<Rightarrow> string \<Rightarrow> string \<Rightarrow> (flagset \<times> imageOptions) res" where
  "dockerImageFlags self flagPrefix credsOptionAlias =
     res_map (\<lambda>fl. (fl, zero_imageOptions))
       (define_flags
          ((if flagPrefix \<noteq> [] then [Var (VarImage self AuthFile) (flagPrefix @ ''authfile'')] else []) @
           [Var (VarImage self Creds) (flagPrefix @ ''creds''),
            Var (VarImage self UserName) (flagPrefix @ ''username''),
            Var (VarImage self Password) (flagPrefix @ ''password'')] @
           (if credsOptionAlias \<noteq> [] then [HiddenVar (VarImage self Creds) credsOptionAlias] else []) @
           [Var (VarImage self RegistryToken) (flagPrefix @ ''registry-token''),
            Var (VarImage self CertDir) (flagPrefix @ ''cert-dir''),
            Var (VarImage self TlsVerify) (flagPrefix @ ''tls-verify''),
            Var (VarImage self NoCreds) (flagPrefix @ ''no-creds'')])
          [])"

definition ImageFlags ::
  "image_obj \<Rightarrow> string \<Rightarrow> string \<Rightarrow> (flagset \<times> imageOptions) res" where
  "ImageFlags self flagPrefix credsOptionAlias =
     res_bind (dockerImageFlags self flagPrefix credsOptionAlias) (\<lambda>(dockerFlags, opts).
     res_map (\<lambda>fl. (AddFlagSet dockerFlags fl, opts))
       (define_flags
          [Var (VarImage self SharedBlobDir) (flagPrefix @ ''shared-blob-dir''),
           Var (VarImage self DaemonHost) (flagPrefix @ ''daemon-host'')]
          []))"

definition RetryFlags :: "(flagset \<times> RetryOptions) res" where
  "RetryFlags =
     res_map (\<lambda>fl. (fl, \<lparr>re_MaxRetry = 0, re_Delay = 0\<rparr>)) (Var VarRetryTimes ''retry-times'' [])"

definition ImageDestFlags ::
  "image_obj \<Rightarrow> string \<Rightarrow> string \<Rightarrow> (flagset \<times> imageDestOptions) res" where
  "ImageDestFlags self flagPrefix credsOptionAlias =
     res_bind (ImageFlags self flagPrefix credsOptionAlias) (\<lambda>(genericFlags, genericOptions).
     res_map (\<lambda>fl. (fl, zero_imageDestOptions\<lparr>de_imageOptions := genericOptions\<rparr>))
       (define_flags
          [Var (VarDest Compress) (flagPrefix @ ''compress''),
           Var (VarDest Decompress) (flagPrefix @ ''decompress''),
           Var (VarDest AcceptUncompressed) (flagPrefix @ ''oci-accept-uncompressed-layers''),
           Var (VarDest CompressFormat) (flagPrefix @ ''compress-format''),
           Var (VarDest CompressLevel) (flagPrefix @ ''compress-level''),
           Var (VarDest PrecomputeDigests) (flagPrefix @ ''precompute-digests'')]
          (AddFlagSet genericFlags [])))"

section \<open>What is made of the options\<close>

text \<open>A warning of logrus, without its time stamp.\<close>

definition logrus_Warnf :: "string \<Rightarrow> fmt_arg list \<Rightarrow> unit go" where
  "logrus_Warnf f args = (\<lambda>w.
     (Ok (), w\<lparr>stderr := stderr w @ [''level=warning msg='' @ go_quote (Sprintf f args)]\<rparr>))"

definition WarnIfUsed :: "DeprecatedTLSVerifyOption \<Rightarrow> string list \<Rightarrow> unit go" where
  "WarnIfUsed opts alternatives =
     (if opt_present (dt_tlsVerify opts)
      then logrus_Warnf
        ([CHR 0x27] @ ''--tls-verify'' @ [CHR 0x27] @ '' is deprecated, instead use: %s'')
        [FStr (Join alternatives '', '')]
      else go_return ())"

text \<open>
  \<open>signature.Policy\<close>: the one the program builds itself, or one that the signature package
  read (its default policy file, or the named one).
\<close>

datatype policy = InsecureAcceptAnything | LoadedPolicy string

record policy_lib =
  pl_DefaultPolicy :: "world \<Rightarrow> go_error + policy"
  pl_NewPolicyFromFile :: "string \<Rightarrow> world \<Rightarrow> go_error + policy"
  pl_NewPolicyContext :: "policy \<Rightarrow> go_error + policy"

definition GetPolicyContext :: "policy_lib \<Rightarrow> GlobalOptions \<Rightarrow> world \<Rightarrow> go_error + policy" where
  "GetPolicyContext lib opts w =
     (case (if gl_InsecurePolicy opts then Inr InsecureAcceptAnything
            else if gl_PolicyPath opts = [] then pl_DefaultPolicy lib w
            else pl_NewPolicyFromFile lib (gl_PolicyPath opts) w) of
        Inl err \<Rightarrow> Inl err
      | Inr p \<Rightarrow> pl_NewPolicyContext lib p)"

text \<open>A context is its deadline, if it has one.\<close>

definition CommandTimeoutContext :: "GlobalOptions \<Rightarrow> world \<Rightarrow> int option" where
  "CommandTimeoutContext opts w =
     (if 0 < gl_CommandTimeout opts then Some (clock w + gl_CommandTimeout opts) else None)"

text \<open>\<open>types.SystemContext\<close>: the fields the program sets, and those its flags are about.\<close>

record SystemContext =
  sc_RegistriesDirPath :: string
  sc_ArchitectureChoice :: string
  sc_OSChoice :: string
  sc_VariantChoice :: string
  sc_SystemRegistriesConfPath :: string
  sc_BigFilesTemporaryDir :: string
  sc_DockerRegistryUserAgent :: string
  sc_DockerInsecureSkipTLSVerify :: "bool option"
  sc_DockerCertPath :: string
  sc_OCISharedBlobDirPath :: string
  sc_AuthFilePath :: string
  sc_DockerDaemonHost :: string
  sc_DockerDaemonCertPath :: string
  sc_DockerAuthConfig :: "(string \<times> string) option"
  sc_DockerBearerRegistryToken :: string

definition defaultUserAgent :: string where
  "defaultUserAgent = ''skopeo/v.19.5''"

definition Global_NewSystemContext :: "GlobalOptions \<Rightarrow> SystemContext" where
  "Global_NewSystemContext opts =
     (let ctx =
        \<lparr>sc_RegistriesDirPath = gl_RegistriesDirPath opts,
         sc_ArchitectureChoice = gl_OverrideArch opts,
         sc_OSChoice = gl_OverrideOS opts,
         sc_VariantChoice = gl_OverrideVariant opts,
         sc_SystemRegistriesConfPath = gl_RegistriesConfPath opts,
         sc_BigFilesTemporaryDir = gl_TmpDir opts,
         sc_DockerRegistryUserAgent = defaultUserAgent,
         sc_DockerInsecureSkipTLSVerify = None,
         sc_DockerCertPath = [], sc_OCISharedBlobDirPath = [], sc_AuthFilePath = [],
         sc_DockerDaemonHost = [], sc_DockerDaemonCertPath = [],
         sc_DockerAuthConfig = None, sc_DockerBearerRegistryToken = []\<rparr>
      in if \<not> gl_TlsVerify opts then ctx\<lparr>sc_DockerInsecureSkipTLSVerify := Some True\<rparr> else ctx)"

definition image_NewSystemContext ::
  "GlobalOptions \<Rightarrow> SharedImageOptions \<Rightarrow> imageOptions \<Rightarrow> SystemContext res" where
  "image_NewSystemContext global shared opts =
     (let ctx = Global_NewSystemContext global in
      Ok (ctx\<lparr>sc_DockerCertPath := io_dockerCertPath opts,
              sc_OCISharedBlobDirPath := io_sharedBlobDir opts,
              sc_AuthFilePath := sh_authFilePath shared,
              sc_DockerDaemonHost := io_dockerDaemonHost opts,
              sc_DockerDaemonCertPath := io_dockerCertPath opts\<rparr>))"

definition ParseManifestFormat :: "string \<Rightarrow> string res" where
  "ParseManifestFormat manifestFormat =
     (if manifestFormat = ''oci'' then Ok ''application/vnd.oci.image.manifest.v1+json''
      else if manifestFormat = ''v2s1''
      then Ok ''application/vnd.docker.distribution.manifest.v1+prettyjws''
      else if manifestFormat = ''v2s2''
      then Ok ''application/vnd.docker.distribution.manifest.v2+json''
      else Err (Errorf
        (''unknown format %q. Choose one of the supported formats: '' @
         [CHR 0x27] @ ''oci'' @ [CHR 0x27] @ '', '' @ [CHR 0x27] @ ''v2s1'' @ [CHR 0x27] @
         '', or '' @ [CHR 0x27] @ ''v2s2'' @ [CHR 0x27])
        [FStr manifestFormat]))"

section \<open>Setting a flag\<close>

text \<open>
  \<open>Value.Set\<close> of the value behind a flag, as the flag's constructor chose it: an optional value
  becomes present, a plain one is overwritten; booleans and integers are parsed first.
\<close>

definition set_optional :: "'a \<Rightarrow> 'a Optional \<Rightarrow> 'a Optional" where
  "set_optional v _ = \<lparr>opt_present = True, opt_value = v\<rparr>"

fun set_image :: "image_field \<Rightarrow> string \<Rightarrow> imageOptions \<Rightarrow> imageOptions res" where
  "set_image AuthFile s opts = Ok (io_authFilePath_update (set_optional s) opts)"
| "set_image Creds s opts = Ok (io_credsOption_update (set_optional s) opts)"
| "set_image UserName s opts = Ok (io_userName_update (set_optional s) opts)"
| "set_image Password s opts = Ok (io_password_update (set_optional s) opts)"
| "set_image RegistryToken s opts = Ok (io_registryToken_update (set_optional s) opts)"
| "set_image CertDir s opts = Ok (opts\<lparr>io_dockerCertPath := s\<rparr>)"
| "set_image TlsVerify s opts =
     res_map (\<lambda>b. io_tlsVerify_update (set_optional b) opts) (ParseBool s)"
| "set_image NoCreds s opts = res_map (\<lambda>b. opts\<lparr>io_noCreds := b\<rparr>) (ParseBool s)"
| "set_image SharedBlobDir s opts = Ok (opts\<lparr>io_sharedBlobDir := s\<rparr>)"
| "set_image DaemonHost s opts = Ok (opts\<lparr>io_dockerDaemonHost := s\<rparr>)"

fun set_dest :: "dest_field \<Rightarrow> string \<Rightarrow> imageDestOptions \<Rightarrow> imageDestOptions res" where
  "set_dest Compress s opts = res_map (\<lambda>b. opts\<lparr>de_dirForceCompression := b\<rparr>) (ParseBool s)"
| "set_dest Decompress s opts = res_map (\<lambda>b. opts\<lparr>de_dirForceDecompression := b\<rparr>) (ParseBool s)"
| "set_dest AcceptUncompressed s opts =
     res_map (\<lambda>b. opts\<lparr>de_ociAcceptUncompressedLayers := b\<rparr>) (ParseBool s)"
| "set_dest CompressFormat s opts = Ok (opts\<lparr>de_compressionFormat := s\<rparr>)"
| "set_dest CompressLevel s opts =
     res_map (\<lambda>n. de_compressionLevel_update (set_optional n) opts) (ParseInt s)"
| "set_dest PrecomputeDigests s opts = res_map (\<lambda>b. opts\<lparr>de_precomputeDigests := b\<rparr>) (ParseBool s)"

fun set_var :: "flag_var \<Rightarrow> string \<Rightarrow> CopyOptions \<Rightarrow> CopyOptions res" where
  "set_var VarAuthFile s co = Ok (co\<lparr>co_Shared := \<lparr>sh_authFilePath = s\<rparr>\<rparr>)"
| "set_var VarDepTLS s co =
     res_map (\<lambda>b. co\<lparr>co_DeprecatedTLSVerify := \<lparr>dt_tlsVerify = set_optional b (absent False)\<rparr>\<rparr>)
       (ParseBool s)"
| "set_var (VarImage SrcImage f) s co =
     res_map (\<lambda>i. co\<lparr>co_SrcImage := i\<rparr>) (set_image f s (co_SrcImage co))"
| "set_var (VarImage DestImage f) s co =
     res_map (\<lambda>i. co\<lparr>co_DestImage := (co_DestImage co)\<lparr>de_imageOptions := i\<rparr>\<rparr>)
       (set_image f s (de_imageOptions (co_DestImage co)))"
| "set_var (VarDest f) s co =
     res_map (\<lambda>d. co\<lparr>co_DestImage := d\<rparr>) (set_dest f s (co_DestImage co))"
| "set_var VarRetryTimes s co =
     res_map (\<lambda>n. co\<lparr>co_RetryOpts := (co_RetryOpts co)\<lparr>re_MaxRetry := n\<rparr>\<rparr>) (ParseInt s)"
| "set_var VarLogLevel s co = Ok (co\<lparr>co_Global := (co_Global co)\<lparr>gl_LogLevel := s\<rparr>\<rparr>)"
| "set_var VarReference s co = Ok (co\<lparr>co_Global := (co_Global co)\<lparr>gl_Reference := s\<rparr>\<rparr>)"

text \<open>
  \<open>FlagSet.Set\<close> for the flags of a command line, one after the other: the first value that is not
  accepted ends it.
\<close>

definition find_flag :: "flagset \<Rightarrow> string \<Rightarrow> flag option" where
  "find_flag fl name = List.find (\<lambda>f. fl_Name f = name) fl"

fun set_flags :: "flagset \<Rightarrow> (string \<times> string) list \<Rightarrow> CopyOptions \<Rightarrow> CopyOptions res" where
  "set_flags fl [] co = Ok co"
| "set_flags fl ((name, s) # nvs) co =
     (case find_flag fl name of
        None \<Rightarrow> Err (Errorf ''no such flag -%v'' [FStr name])
      | Some f \<Rightarrow>
          (case set_var (fl_Var f) s co of
             Ok co1 \<Rightarrow> set_flags fl nvs co1
           | Err e \<Rightarrow> Err (Errorf ''invalid argument %q for %q flag: %v''
               [FStr s, FStr (''--'' @ name), FErr e])
           | Panic x \<Rightarrow> Panic x))"

section \<open>The names in a flag set\<close>

lemma flag_names_append [simp]: "flag_names (a @ b) = flag_names a @ flag_names b"
  by (simp add: flag_names_def)

lemma flag_names_Cons [simp]: "flag_names (f # fl) = fl_Name f # flag_names fl"
  by (simp add: flag_names_def)

lemma flag_names_Nil [simp]: "flag_names [] = []"
  by (simp add: flag_names_def)

lemma AddFlag_Ok: "AddFlag f fl = Ok fl' \<longleftrightarrow> fl_Name f \<notin> set (flag_names fl) \<and> fl' = fl @ [f]"
  by (auto simp: AddFlag_def)

lemma AddFlagSet_distinct:
  "distinct (flag_names fl) \<Longrightarrow> distinct (flag_names (AddFlagSet new fl))"
  by (induction new fl rule: AddFlagSet.induct) simp_all

lemma AddFlagSet_names:
  "set (flag_names (AddFlagSet new fl)) = set (flag_names new) \<union> set (flag_names fl)"
  by (induction new fl rule: AddFlagSet.induct) auto

text \<open>The flags that are there stay, and keep their place.\<close>

lemma AddFlagSet_prefix: "prefix fl (AddFlagSet new fl)"
  by (induction new fl rule: AddFlagSet.induct) (auto dest: append_prefixD)

lemma find_flag_prefix: "prefix fl fl' \<Longrightarrow> find_flag fl n = Some f \<Longrightarrow> find_flag fl' n = Some f"
proof -
  have "find_flag fl n = Some f \<Longrightarrow> find_flag (fl @ more) n = Some f" for more
    by (induction fl) (auto simp: find_flag_def)
  then show "prefix fl fl' \<Longrightarrow> find_flag fl n = Some f \<Longrightarrow> find_flag fl' n = Some f"
    by (auto simp: prefix_def)
qed

text \<open>
  Defining flags panics exactly when a name comes twice. A definition here is a flag that is
  added.
\<close>

lemma define_flags_Ok:
  assumes "distinct (flag_names (fl @ new))"
  shows "define_flags (map AddFlag new) fl = Ok (fl @ new)"
  using assms by (induction new arbitrary: fl) (simp_all add: AddFlag_def)

lemma define_flags_panic:
  assumes "distinct (flag_names fl)" "\<not> distinct (flag_names (fl @ new))"
  shows "\<exists>n. define_flags (map AddFlag new) fl = Panic (FlagRedefined n)"
  using assms
proof (induction new arbitrary: fl)
  case (Cons f new)
  show ?case
  proof (cases "fl_Name f \<in> set (flag_names fl)")
    case False
    then show ?thesis using Cons.IH [of "fl @ [f]"] Cons.prems by (simp add: AddFlag_def)
  qed (simp add: AddFlag_def)
qed simp

lemma res_map_Panic [simp]: "res_map f r = Panic x \<longleftrightarrow> r = Panic x"
  by (cases r) simp_all

lemma set_image_no_panic: "set_image f s opts \<noteq> Panic x"
  by (cases f) (simp_all add: ParseBool_no_panic)

lemma set_dest_no_panic: "set_dest f s opts \<noteq> Panic x"
  by (cases f) (simp_all add: ParseBool_no_panic ParseInt_no_panic)

lemma set_var_no_panic: "set_var v s co \<noteq> Panic x"
proof (cases v)
  case (VarImage i f)
  then show ?thesis by (cases i) (simp_all add: set_image_no_panic)
qed (simp_all add: ParseBool_no_panic ParseInt_no_panic set_dest_no_panic)

section \<open>Properties\<close>

text \<open>
  C29: merging flag sets. \<open>AddFlagSet\<close> keeps the flags that are there, in their order and first, and
  adds the new names; a name never comes twice, and a flag that is there wins over a new one of
  the same name.
\<close>

theorem AddFlagSet_merges:
  assumes "distinct (flag_names fl)"
  shows "distinct (flag_names (AddFlagSet new fl)) \<and> prefix fl (AddFlagSet new fl) \<and>
    set (flag_names (AddFlagSet new fl)) = set (flag_names new) \<union> set (flag_names fl) \<and>
    (\<forall>n f. find_flag fl n = Some f \<longrightarrow> find_flag (AddFlagSet new fl) n = Some f)"
  using AddFlagSet_distinct [OF assms] AddFlagSet_prefix [of fl new] AddFlagSet_names [of new fl]
    find_flag_prefix by blast

theorem AddFlagSet_merges_witness:
  "find_flag (AddFlagSet [\<lparr>fl_Name = ''a'', fl_Var = VarReference, fl_Hidden = True\<rparr>]
      [\<lparr>fl_Name = ''a'', fl_Var = VarLogLevel, fl_Hidden = False\<rparr>]) ''a'' =
    Some \<lparr>fl_Name = ''a'', fl_Var = VarLogLevel, fl_Hidden = False\<rparr>"
  using AddFlagSet_merges [of "[\<lparr>fl_Name = ''a'', fl_Var = VarLogLevel, fl_Hidden = False\<rparr>]"
      "[\<lparr>fl_Name = ''a'', fl_Var = VarReference, fl_Hidden = True\<rparr>]"]
  by (simp add: find_flag_def)

lemma set_flags_panic: "set_flags fl settings co \<noteq> Panic x"
  by (induction fl settings co rule: set_flags.induct)
    (auto simp: set_var_no_panic split: option.splits res.splits)

end
