(* ===== verification/Retry.thy ===== *)
theory Retry
  imports Options Logger "HOL-Library.Word"
begin

text \<open>
  The retry loop of github.com/containers/common/pkg/retry, which the mirror runs the copy in:
  \<open>IfNecessary\<close> with its back-off (a 64-bit duration in nanoseconds, which wraps) and the time
  limit of its context. Whether an error is worth a retry is a parameter: \<open>isRetryable\<close> tells
  apart the error types of network libraries.
\<close>

section \<open>Durations\<close>

fun strip_zeros :: "string \<Rightarrow> string" where
  "strip_zeros [] = []"
| "strip_zeros (c # s) =
     (let r = strip_zeros s in if r = [] \<and> c = CHR ''0'' then [] else c # r)"

definition frac_text :: "nat \<Rightarrow> nat \<Rightarrow> string" where
  "frac_text prec v =
     (let s = show_nat v; ds = strip_zeros (replicate (prec - length s) CHR ''0'' @ s)
      in if ds = [] then [] else CHR ''.'' # ds)"

text \<open>\<open>time.Duration.String\<close>\<close>

definition show_duration :: "int \<Rightarrow> string" where
  "show_duration d =
     (let u = nat \<bar>d\<bar>; secs = u div 1000000000; mins = secs div 60; hours = mins div 60;
          small = (\<lambda>prec scale unit. show_nat (u div scale) @ frac_text prec (u mod scale) @ unit);
          s = (if u = 0 then ''0s''
               else if u < 1000 then show_nat u @ ''ns''
               else if u < 1000000 then small 3 1000 [CHR 0xC2, CHR 0xB5, CHR ''s'']
               else if u < 1000000000 then small 6 1000000 ''ms''
               else (if hours = 0 then [] else show_nat hours @ ''h'') @
                    (if mins = 0 then [] else show_nat (mins mod 60) @ ''m'') @
                    show_nat (secs mod 60) @ frac_text 9 (u mod 1000000000) @ ''s'')
      in if d < 0 then CHR ''-'' # s else s)"

text \<open>
  \<open>time.Duration (int (math.Pow (2, attempt))) * time.Second\<close>. For an attempt above 62 the
  conversion of the power gives the least 64-bit integer on amd64; the product is zero then, as
  it is for the power itself modulo the word size.
\<close>

definition backoff :: "nat \<Rightarrow> int" where
  "backoff attempt = sint (2 ^ attempt * 1000000000 :: 64 word)"

section \<open>The loop\<close>

text \<open>
  \<open>select\<close> between \<open>time.After (delay)\<close> and the end of the context; a deadline that comes at the
  same instant wins. The result says that the context ended.
\<close>

definition wait_or_done :: "int option \<Rightarrow> int \<Rightarrow> bool go" where
  "wait_or_done ctx delay = (\<lambda>w.
     let t = clock w + max 0 delay in
     case ctx of
       Some dl \<Rightarrow> if dl \<le> t then (Ok True, w\<lparr>clock := max (clock w) dl\<rparr>) else (Ok False, w\<lparr>clock := t\<rparr>)
     | None \<Rightarrow> (Ok False, w\<lparr>clock := t\<rparr>))"

type_synonym 'c operation = "'c \<Rightarrow> (go_error option \<times> 'c) go"

definition retry_warning :: "RetryOptions \<Rightarrow> nat \<Rightarrow> int \<Rightarrow> go_error \<Rightarrow> unit go" where
  "retry_warning options attempt delay err =
     logrus_Warnf ''Failed, retrying in %s ... (%d/%d). Error: %v''
       [FStr (show_duration delay), FInt (int attempt + 1), FInt (re_MaxRetry options), FErr err]"

definition retry_delay :: "RetryOptions \<Rightarrow> nat \<Rightarrow> int" where
  "retry_delay options attempt = (if re_Delay options \<noteq> 0 then re_Delay options else backoff attempt)"

text \<open>The body of the loop, at an attempt that failed with \<open>err\<close>.\<close>

function retry_loop ::
  "(go_error \<Rightarrow> bool) \<Rightarrow> int option \<Rightarrow> 'c operation \<Rightarrow> RetryOptions \<Rightarrow> nat \<Rightarrow> go_error option \<Rightarrow> 'c \<Rightarrow>
   (go_error option \<times> 'c) go" where
  "retry_loop retryable ctx operation options attempt None c = go_return (None, c)"
| "retry_loop retryable ctx operation options attempt (Some err) c =
     (if retryable err \<and> int attempt < re_MaxRetry options
      then
        go_seq (retry_warning options attempt (retry_delay options attempt) err)
        (go_bind (wait_or_done ctx (retry_delay options attempt)) (\<lambda>expired.
           if expired then go_return (Some err, c)
           else go_bind (operation c) (\<lambda>(err1, c1).
             retry_loop retryable ctx operation options (Suc attempt) err1 c1)))
      else go_return (Some err, c))"
  by pat_completeness auto
termination
  by (relation "measure (\<lambda>(retryable, ctx, operation, options, attempt, err, c).
      nat (re_MaxRetry options - int attempt))") auto

declare retry_loop.simps [simp del]

definition IfNecessary ::
  "(go_error \<Rightarrow> bool) \<Rightarrow> int option \<Rightarrow> 'c operation \<Rightarrow> RetryOptions \<Rightarrow> 'c \<Rightarrow> (go_error option \<times> 'c) go" where
  "IfNecessary retryable ctx operation options c =
     go_bind (operation c) (\<lambda>(err, c1). retry_loop retryable ctx operation options 0 err c1)"

section \<open>What it keeps\<close>

lemma wait_same_files: "keeps same_files (wait_or_done ctx delay)"
  by (auto simp: keeps_def wait_or_done_def Let_def same_files_def split: option.split)

lemma wait_no_copies [keeps_intros]: "keeps no_copies (wait_or_done ctx delay)"
  by (auto simp: keeps_def wait_or_done_def Let_def no_copies_def split: option.split)

lemma logrus_log_only [keeps_intros]: "keeps log_only (logrus_Warnf f args)"
  by (simp add: keeps_def logrus_Warnf_def)

context world_relation
begin

lemma ens_retry_loop:
  assumes "\<And>c. I c \<Longrightarrow> keeps_ens R (\<lambda>(e, c). I c) (operation c)"
    and "\<And>f a. keeps R (logrus_Warnf f a)" "\<And>d. keeps R (wait_or_done ctx d)" "I c"
  shows "keeps_ens R (\<lambda>(e, c). I c) (retry_loop retryable ctx operation options attempt err c)"
  using assms
proof (induction retryable ctx operation options attempt err c rule: retry_loop.induct)
  case (1 retryable ctx operation options attempt c)
  then show ?case by (simp add: retry_loop.simps ens_return)
next
  case (2 retryable ctx operation options attempt err c)
  let ?Q = "\<lambda>(e :: go_error option, c). I c"
  let ?next = "\<lambda>(err1, c1). retry_loop retryable ctx operation options (Suc attempt) err1 c1"
  let ?wait = "wait_or_done ctx (retry_delay options attempt)"
  show ?case
  proof (cases "retryable err \<and> int attempt < re_MaxRetry options")
    case True
    have "keeps_ens R ?Q (?next p)" if "?Q p" for p
      using 2 that True by (cases p) auto
    then have again: "keeps_ens R ?Q (go_bind (operation c) ?next)"
      by (rule ens_bind [OF 2(2) [OF 2(5)]])
    have "keeps_ens R ?Q (go_bind ?wait (\<lambda>expired.
        if expired then go_return (Some err, c) else go_bind (operation c) ?next))"
      by (rule ens_bind [where Q = "\<lambda>_. True"])
        (use again 2(4,5) in \<open>auto intro: ens_return keeps_ensI\<close>)
    then show ?thesis unfolding retry_loop.simps using True
      by (simp add: retry_warning_def ens_seq 2(3))
  next
    case False
    then show ?thesis unfolding retry_loop.simps using 2(5) by (auto simp: ens_return)
  qed
qed

end

section \<open>How often it runs the operation\<close>

lemma logrus_net: "net (snd (logrus_Warnf f a w)) = net w"
  by (simp add: logrus_Warnf_def)

lemma wait_result:
  "\<exists>expired w'. wait_or_done ctx d w = (Ok expired, w') \<and> net w' = net w \<and> (expired \<longrightarrow> ctx \<noteq> None)"
  by (cases ctx) (auto simp: wait_or_done_def Let_def)

lemma retry_prelude:
  "\<exists>expired w'. go_seq (retry_warning options attempt d err)
      (go_bind (wait_or_done ctx d) k) w = k expired w' \<and> net w' = net w \<and> (expired \<longrightarrow> ctx \<noteq> None)"
proof -
  obtain w1 where w1: "retry_warning options attempt d err w = (Ok (), w1)" "net w1 = net w"
    by (simp add: retry_warning_def logrus_Warnf_def)
  obtain expired w2 where "wait_or_done ctx d w1 = (Ok expired, w2)" "net w2 = net w1"
    "expired \<longrightarrow> ctx \<noteq> None"
    using wait_result [of ctx d w1] by blast
  then show ?thesis using w1
    by (intro exI [of _ expired] exI [of _ w2]) (simp add: go_seq_def go_bind_def)
qed

lemma retry_step:
  assumes "retryable err" "int attempt < re_MaxRetry options"
  obtains expired w1 where "net w1 = net w" "expired \<longrightarrow> ctx \<noteq> None"
    "retry_loop retryable ctx operation options attempt (Some err) c w =
      (if expired then (Ok (Some err, c), w1)
       else go_bind (operation c) (\<lambda>(err1, c1).
         retry_loop retryable ctx operation options (Suc attempt) err1 c1) w1)"
proof -
  let ?rest = "\<lambda>expired. if expired then go_return (Some err, c)
    else go_bind (operation c) (\<lambda>(err1, c1).
         retry_loop retryable ctx operation options (Suc attempt) err1 c1)"
  have start: "retry_loop retryable ctx operation options attempt (Some err) c =
      go_seq (retry_warning options attempt (retry_delay options attempt) err)
        (go_bind (wait_or_done ctx (retry_delay options attempt)) ?rest)"
    using assms by (simp add: retry_loop.simps(2))
  obtain expired w1 where "retry_loop retryable ctx operation options attempt (Some err) c w =
      ?rest expired w1" "net w1 = net w" "expired \<longrightarrow> ctx \<noteq> None"
    unfolding start
    using retry_prelude [of options attempt "retry_delay options attempt" err ctx ?rest w] by blast
  then show ?thesis by (intro that [of w1 expired]) (simp_all add: go_return_def)
qed

lemma retry_stop:
  "\<not> (retryable err \<and> int attempt < re_MaxRetry options) \<Longrightarrow>
     retry_loop retryable ctx operation options attempt (Some err) c w = (Ok (Some err, c), w)"
  unfolding retry_loop.simps by (auto simp: go_return_def)

lemma retry_none: "retry_loop retryable ctx operation options attempt None c w = (Ok (None, c), w)"
  by (simp add: retry_loop.simps go_return_def)

text \<open>One run of the operation makes at most one call.\<close>

definition one_call :: "'c operation \<Rightarrow> bool" where
  "one_call operation \<longleftrightarrow>
     (\<forall>c w. length (net (snd (operation c w))) \<le> Suc (length (net w)))"

lemma retry_loop_calls:
  assumes "one_call operation"
  shows "length (net (snd (retry_loop retryable ctx operation options attempt err c w)))
    \<le> length (net w) + nat (re_MaxRetry options - int attempt)"
  using assms
proof (induction retryable ctx operation options attempt err c arbitrary: w rule: retry_loop.induct)
  case (2 retryable ctx operation options attempt err c)
  show ?case
  proof (cases "retryable err \<and> int attempt < re_MaxRetry options")
    case True
    let ?next = "\<lambda>(err1, c1). retry_loop retryable ctx operation options (Suc attempt) err1 c1"
    obtain expired w1 where 1: "net w1 = net w"
      "retry_loop retryable ctx operation options attempt (Some err) c w =
        (if expired then (Ok (Some err, c), w1) else go_bind (operation c) ?next w1)"
      using retry_step [of retryable err attempt options w ctx operation c] True by blast
    show ?thesis
    proof (cases expired)
      case True
      then show ?thesis using 1 by simp
    next
      case False
      obtain r w2 where 2: "operation c w1 = (r, w2)" by fastforce
      have calls: "length (net w2) \<le> Suc (length (net w))"
        using "2.prems" 1(1) 2 unfolding one_call_def by (metis snd_conv)
      have rest: "length (net (snd (?next p w2)))
          \<le> length (net w2) + nat (re_MaxRetry options - int (Suc attempt))" for p
        using "2.IH" [of expired] True False "2.prems" by (cases p) auto
      then have "length (net (snd (?next p w2))) \<le>
          length (net w) + nat (re_MaxRetry options - int attempt)" for p
        using calls rest [of p] True by linarith
      then show ?thesis unfolding 1(2) using False calls 2 True
        by (cases r) (auto simp: go_bind_def)
    qed
  next
    case False
    then show ?thesis by (simp add: retry_stop)
  qed
qed (simp add: retry_none)

lemma IfNecessary_calls:
  assumes "one_call operation"
  shows "length (net (snd (IfNecessary retryable ctx operation options c w)))
    \<le> length (net w) + Suc (nat (re_MaxRetry options))"
proof -
  obtain r w1 where 1: "operation c w = (r, w1)" by fastforce
  have calls: "length (net w1) \<le> Suc (length (net w))"
    using assms 1 unfolding one_call_def by (metis snd_conv)
  have "length (net (snd (retry_loop retryable ctx operation options 0 e c1 w1)))
      \<le> length (net w) + Suc (nat (re_MaxRetry options))" for e c1
    using retry_loop_calls [OF assms, of retryable ctx options 0 e c1 w1] calls by simp
  then show ?thesis using 1 calls
    by (cases r) (auto simp: IfNecessary_def go_bind_def)
qed

text \<open>A success of the loop is a success of the operation.\<close>

lemma retry_loop_sound:
  assumes "retry_loop retryable ctx operation options attempt (Some err) c w = (Ok (None, c'), w')"
  shows "\<exists>c0 w0. operation c0 w0 = (Ok (None, c'), w')"
  using assms
proof (induction retryable ctx operation options attempt "Some err" c arbitrary: err w rule: retry_loop.induct)
  case (2 retryable ctx operation options attempt err c)
  let ?next = "\<lambda>(err1, c1). retry_loop retryable ctx operation options (Suc attempt) err1 c1"
  have tries: "retryable err \<and> int attempt < re_MaxRetry options"
    using 2(2) by (rule contrapos_pp) (simp add: retry_stop)
  then obtain expired w1 where
    1: "(if expired then (Ok (Some err, c), w1) else go_bind (operation c) ?next w1) = (Ok (None, c'), w')"
    using retry_step [of retryable err attempt options w ctx operation c] 2(2) by metis
  then have "\<not> expired" by auto
  then obtain e1 c1 w2 where 3: "operation c w1 = (Ok (e1, c1), w2)"
    "retry_loop retryable ctx operation options (Suc attempt) e1 c1 w2 = (Ok (None, c'), w')"
    using 1 by (auto elim!: go_bind_Ok)
  show ?case
  proof (cases e1)
    case None
    then show ?thesis using 3 by (auto simp: retry_none)
  next
    case (Some e)
    then show ?thesis using 2(1) [OF tries \<open>\<not> expired\<close>] 3(2) by blast
  qed
qed

lemma IfNecessary_sound:
  assumes "IfNecessary retryable ctx operation options c w = (Ok (None, c'), w')"
  shows "\<exists>c0 w0. operation c0 w0 = (Ok (None, c'), w')"
proof -
  obtain e1 c1 w1 where 1: "operation c w = (Ok (e1, c1), w1)"
    "retry_loop retryable ctx operation options 0 e1 c1 w1 = (Ok (None, c'), w')"
    using assms by (auto simp: IfNecessary_def elim!: go_bind_Ok)
  then show ?thesis
    by (cases e1) (auto simp: retry_none dest: retry_loop_sound)
qed

text \<open>An operation that keeps failing with a retryable error, without a time limit.\<close>

definition keeps_failing :: "(go_error \<Rightarrow> bool) \<Rightarrow> 'c operation \<Rightarrow> bool" where
  "keeps_failing retryable operation \<longleftrightarrow>
     (\<forall>c w. \<exists>e c' w'. operation c w = (Ok (Some e, c'), w') \<and> retryable e \<and>
        length (net w') = Suc (length (net w)))"

lemma retry_loop_exhausts:
  assumes "keeps_failing retryable operation" "retryable err"
  shows "length (net (snd (retry_loop retryable None operation options attempt (Some err) c w)))
    = length (net w) + nat (re_MaxRetry options - int attempt)"
  using assms
proof (induction "nat (re_MaxRetry options - int attempt)" arbitrary: attempt err c w)
  case 0
  then show ?case by (simp add: retry_stop)
next
  case (Suc n)
  let ?next = "\<lambda>(err1, c1). retry_loop retryable None operation options (Suc attempt) err1 c1"
  have tries: "int attempt < re_MaxRetry options" using Suc(2) by simp
  obtain w1 where 1: "retry_loop retryable None operation options attempt (Some err) c w =
      go_bind (operation c) ?next w1" "net w1 = net w"
    by (rule retry_step [of retryable err attempt options w None operation c]) (use Suc(4) tries in simp_all)
  obtain e c' w' where 2: "operation c w1 = (Ok (Some e, c'), w')" "retryable e"
    "length (net w') = Suc (length (net w))"
    using Suc(3) 1(2) unfolding keeps_failing_def by metis
  have "n = nat (re_MaxRetry options - int (Suc attempt))" using Suc(2) by simp
  then show ?case
    using Suc(1) [of "Suc attempt" e c' w'] Suc(2,3) 1 2 by (simp add: go_bind_def)
qed

lemma IfNecessary_exhausts:
  assumes "keeps_failing retryable operation"
  shows "length (net (snd (IfNecessary retryable None operation options c w)))
    = length (net w) + Suc (nat (re_MaxRetry options))"
proof -
  obtain e c' w' where "operation c w = (Ok (Some e, c'), w')" "retryable e"
    "length (net w') = Suc (length (net w))"
    using assms unfolding keeps_failing_def by metis
  then show ?thesis
    using retry_loop_exhausts [OF assms, of e options 0 c' w']
    by (simp add: IfNecessary_def go_bind_def)
qed

section \<open>It never panics by itself\<close>

lemma wait_safe [safe_intros]: "no_panic (wait_or_done ctx d)"
  by (rule no_panicI) (auto simp: wait_or_done_def Let_def split: option.splits)

lemma logrus_safe [safe_intros]: "no_panic (logrus_Warnf f a)"
  by (simp add: no_panic_def logrus_Warnf_def)

lemma retry_loop_safe:
  "(\<And>c. no_panic (operation c)) \<Longrightarrow> no_panic (retry_loop retryable ctx operation options attempt err c)"
proof (induction retryable ctx operation options attempt err c rule: retry_loop.induct)
  case (1 retryable ctx operation options attempt c)
  then show ?case by (simp add: retry_loop.simps safe_intros)
next
  case (2 retryable ctx operation options attempt err c)
  show ?case
  proof (cases "retryable err \<and> int attempt < re_MaxRetry options")
    case True
    have "no_panic (go_bind (operation c) (\<lambda>(err1, c1).
        retry_loop retryable ctx operation options (Suc attempt) err1 c1))"
      by (rule no_panic_bind [OF 2(2)]) (use 2 True in auto)
    then have rest: "no_panic (if expired then go_return (Some err, c) else
        go_bind (operation c) (\<lambda>(err1, c1).
          retry_loop retryable ctx operation options (Suc attempt) err1 c1))" for expired
      by (simp add: safe_intros)
    show ?thesis unfolding retry_loop.simps retry_warning_def
      using True rest by (auto intro!: no_panic_seq no_panic_bind wait_safe logrus_safe)
  next
    case False
    then show ?thesis unfolding retry_loop.simps by (auto intro: safe_intros)
  qed
qed

lemma IfNecessary_safe:
  "(\<And>c. no_panic (operation c)) \<Longrightarrow> no_panic (IfNecessary retryable ctx operation options c)"
  unfolding IfNecessary_def by (auto intro!: no_panic_bind retry_loop_safe)

context world_relation
begin

lemma keeps_IfNecessary:
  assumes "\<And>c. I c \<Longrightarrow> keeps_ens R (\<lambda>(e, c). I c) (operation c)"
    and "\<And>f a. keeps R (logrus_Warnf f a)" "\<And>d. keeps R (wait_or_done ctx d)" "I c"
  shows "keeps R (IfNecessary retryable ctx operation options c)"
  unfolding IfNecessary_def
proof (rule keeps_bind_ens [OF assms(1) [OF assms(4)]])
  show "keeps R (case p of (err, c1) \<Rightarrow> retry_loop retryable ctx operation options 0 err c1)"
    if "case p of (e, c) \<Rightarrow> I c" for p
    using that ens_retry_loop [of I operation, OF assms(1-3)] keeps_ensD(1) by (cases p) fastforce
qed

end

section \<open>Properties\<close>

text \<open>
  C25: the contract of the retry loop: when it comes back, the operation was called at most once
  more than the retries allow, and a success of the loop is a success of one of these calls, in
  the world the loop leaves.
\<close>

theorem IfNecessary_contract:
  assumes "one_call operation"
    and "IfNecessary retryable ctx operation options c w = (Ok (err, c'), w')"
  shows "length (net w') \<le> length (net w) + Suc (nat (re_MaxRetry options)) \<and>
    (err = None \<longrightarrow> (\<exists>c0 w0. operation c0 w0 = (Ok (None, c'), w')))"
  using IfNecessary_calls [OF assms(1), of retryable ctx options c w] assms(2)
    IfNecessary_sound [of retryable ctx operation options c w c' w'] by auto

text \<open>An operation that fails \<open>n\<close> times and then succeeds; its state counts the calls.\<close>

definition fails_first :: "nat \<Rightarrow> nat operation" where
  "fails_first n c = (\<lambda>w. (Ok (if c < n then Some (ErrorString ''no'') else None, Suc c),
     w\<lparr>net := net w @ [([], [])]\<rparr>))"

definition idle_world :: world where
  "idle_world = \<lparr>fs = [], cwd = [], faults = (\<lambda>_ _. None), level = ''info'', stderr = [], stdout = [],
     net = [], clock = 0\<rparr>"

theorem IfNecessary_contract_witness:
  "\<exists>c' w'. IfNecessary (\<lambda>_. True) None (fails_first 1) \<lparr>re_MaxRetry = 2, re_Delay = 0\<rparr> 0 idle_world =
      (Ok (None, c'), w') \<and> length (net w') \<le> 3"
proof -
  have "fst (IfNecessary (\<lambda>_. True) None (fails_first 1) \<lparr>re_MaxRetry = 2, re_Delay = 0\<rparr> 0 idle_world) =
      Ok (None, 2)"
    by (simp add: IfNecessary_def retry_loop.simps fails_first_def go_defs retry_warning_def
        logrus_Warnf_def wait_or_done_def Let_def)
  then obtain w' where run: "IfNecessary (\<lambda>_. True) None (fails_first 1) \<lparr>re_MaxRetry = 2, re_Delay = 0\<rparr>
      0 idle_world = (Ok (None, 2), w')"
    by (metis prod.collapse)
  have "one_call (fails_first 1)" by (simp add: one_call_def fails_first_def)
  then have "length (net w') \<le> length (net idle_world) + Suc (nat 2)"
    using IfNecessary_contract [OF _ run] by simp
  then show ?thesis using run by (simp add: idle_world_def)
qed

lemma retry_loop_returns:
  assumes "\<And>c w. is_ok (fst (operation c w))"
  shows "is_ok (fst (retry_loop retryable ctx operation options attempt err c w))"
  using assms
proof (induction retryable ctx operation options attempt err c arbitrary: w rule: retry_loop.induct)
  case (2 retryable ctx operation options attempt err c)
  show ?case
  proof (cases "retryable err \<and> int attempt < re_MaxRetry options")
    case True
    then obtain expired w1 where 1: "retry_loop retryable ctx operation options attempt (Some err) c w =
        (if expired then (Ok (Some err, c), w1) else go_bind (operation c) (\<lambda>(err1, c1).
           retry_loop retryable ctx operation options (Suc attempt) err1 c1) w1)"
      using retry_step [of retryable err attempt options w ctx operation c] by metis
    obtain e1 c1 w2 where op: "operation c w1 = (Ok (e1, c1), w2)"
      using "2.prems" [of c w1] by (metis is_ok_iff prod.collapse)
    show ?thesis
    proof (cases expired)
      case False
      have "is_ok (fst (retry_loop retryable ctx operation options (Suc attempt) e1 c1 w2))"
        using "2.IH" [of False] "2.prems" True by auto
      then show ?thesis unfolding 1 using False op by (simp add: go_bind_def)
    qed (simp add: 1)
  qed (simp add: retry_stop)
qed (simp add: retry_none)

lemma IfNecessary_ok:
  assumes "\<And>c w. is_ok (fst (operation c w))"
  shows "is_ok (fst (IfNecessary retryable ctx operation options c w))"
proof -
  obtain e1 c1 w1 where "operation c w = (Ok (e1, c1), w1)"
    using assms [of c w] by (metis is_ok_iff prod.collapse)
  then show ?thesis using retry_loop_returns [OF assms] by (simp add: IfNecessary_def go_bind_def)
qed

text \<open>
  A reference for the loop. The calls of the operation are numbered; call \<open>n\<close> has the result \<open>es n\<close>
  and takes the time \<open>took n\<close>. When it comes back, after the waits before it, is \<open>call_end\<close>; and the
  loop gives up after it when it has no error, an error that is not worth a retry, or no retry left,
  or when the time limit comes before the end of the next wait.
\<close>

fun call_end :: "RetryOptions \<Rightarrow> (nat \<Rightarrow> int) \<Rightarrow> int \<Rightarrow> nat \<Rightarrow> int" where
  "call_end options took t 0 = t + took 0"
| "call_end options took t (Suc n) =
     call_end options took t n + max 0 (retry_delay options n) + took (Suc n)"

definition out_of_time :: "int option \<Rightarrow> RetryOptions \<Rightarrow> int \<Rightarrow> nat \<Rightarrow> bool" where
  "out_of_time ctx options t n \<longleftrightarrow>
     (case ctx of None \<Rightarrow> False | Some dl \<Rightarrow> dl \<le> t + max 0 (retry_delay options n))"

definition gives_up ::
  "(go_error \<Rightarrow> bool) \<Rightarrow> int option \<Rightarrow> RetryOptions \<Rightarrow> (nat \<Rightarrow> go_error option) \<Rightarrow> (nat \<Rightarrow> int) \<Rightarrow> nat \<Rightarrow> bool" where
  "gives_up retryable ctx options es ends n \<longleftrightarrow>
     (case es n of
        None \<Rightarrow> True
      | Some e \<Rightarrow> \<not> retryable e \<or> re_MaxRetry options \<le> int n \<or> out_of_time ctx options (ends n) n)"

text \<open>The operation follows the script; the state it is given counts its calls.\<close>

definition scripted :: "(nat \<Rightarrow> go_error option) \<Rightarrow> (nat \<Rightarrow> int) \<Rightarrow> nat operation \<Rightarrow> bool" where
  "scripted es took operation \<longleftrightarrow>
     (\<forall>n w. \<exists>w'. operation n w = (Ok (es n, Suc n), w') \<and> clock w' = clock w + took n)"

lemma retry_loop_retries:
  assumes "retryable err" "int attempt < re_MaxRetry options" "\<not> out_of_time ctx options (clock w) attempt"
  obtains w1 where "clock w1 = clock w + max 0 (retry_delay options attempt)"
    "retry_loop retryable ctx operation options attempt (Some err) c w =
      go_bind (operation c) (\<lambda>(err1, c1).
        retry_loop retryable ctx operation options (Suc attempt) err1 c1) w1"
proof -
  obtain w0 where w0: "retry_warning options attempt (retry_delay options attempt) err w = (Ok (), w0)"
    "clock w0 = clock w"
    by (simp add: retry_warning_def logrus_Warnf_def)
  then obtain w1 where "wait_or_done ctx (retry_delay options attempt) w0 = (Ok False, w1)"
    "clock w1 = clock w + max 0 (retry_delay options attempt)"
    using assms(3) by (auto simp: wait_or_done_def out_of_time_def Let_def split: option.splits)
  then show ?thesis using w0 assms(1,2)
    by (intro that [of w1]) (simp_all add: retry_loop.simps(2) go_seq_def go_bind_def)
qed

lemma retry_loop_stops:
  assumes "gives_up retryable ctx options es ends n" "clock w = ends n"
  shows "\<exists>w'. retry_loop retryable ctx operation options n (es n) c w = (Ok (es n, c), w') \<and>
    (ctx = None \<longrightarrow> clock w' = ends n)"
proof (cases "es n")
  case None
  then show ?thesis using assms(2) by (simp add: retry_none)
next
  case (Some e)
  show ?thesis
  proof (cases "retryable e \<and> int n < re_MaxRetry options")
    case True
    then obtain dl where dl: "ctx = Some dl" "dl \<le> clock w + max 0 (retry_delay options n)"
      using assms Some by (auto simp: gives_up_def out_of_time_def split: option.splits)
    then show ?thesis using True Some
      by (simp add: retry_loop.simps(2) retry_warning_def logrus_Warnf_def wait_or_done_def Let_def
          go_seq_def go_bind_def go_return_def)
  qed (use Some assms(2) in \<open>simp add: retry_stop\<close>)
qed

lemma retry_loop_follows:
  assumes "scripted es took operation" "ends = call_end options took t"
    and "\<forall>m. n \<le> m \<and> m < k \<longrightarrow> \<not> gives_up retryable ctx options es ends m"
    and "gives_up retryable ctx options es ends k" "n \<le> k" "clock w = ends n"
  shows "\<exists>w'. retry_loop retryable ctx operation options n (es n) (Suc n) w = (Ok (es k, Suc k), w') \<and>
    (ctx = None \<longrightarrow> clock w' = ends k)"
  using assms(3,5,6)
proof (induction "k - n" arbitrary: n w)
  case 0
  then show ?case using retry_loop_stops [OF assms(4), of w operation "Suc k"] by simp
next
  case (Suc x)
  then have "\<not> gives_up retryable ctx options es ends n" by simp
  then obtain e where e: "es n = Some e" "retryable e" "int n < re_MaxRetry options"
    "\<not> out_of_time ctx options (clock w) n"
    using Suc.prems(3) by (auto simp: gives_up_def split: option.splits)
  obtain w1 where w1: "clock w1 = clock w + max 0 (retry_delay options n)"
    "retry_loop retryable ctx operation options n (Some e) (Suc n) w =
      go_bind (operation (Suc n)) (\<lambda>(err1, c1).
        retry_loop retryable ctx operation options (Suc n) err1 c1) w1"
    by (rule retry_loop_retries [of retryable e n options ctx w operation "Suc n"]) (use e(2-4) in auto)
  obtain w2 where w2: "operation (Suc n) w1 = (Ok (es (Suc n), Suc (Suc n)), w2)"
    "clock w2 = clock w1 + took (Suc n)"
    using assms(1) unfolding scripted_def by blast
  have "clock w2 = ends (Suc n)" using w1(1) w2(2) Suc.prems(3) assms(2) by simp
  then show ?case using Suc.hyps(1) [of "Suc n" w2] Suc.hyps(2) Suc.prems w1(2) w2(1) e(1)
    by (simp add: go_bind_def)
qed

text \<open>
  C26: the retry loop ends, and when. Against an operation whose calls come back with any results,
  after any times, there is a first call after which the reference gives up, at the latest the one
  that uses up the retries; the loop makes the calls up to that one and no more, and gives its
  result. Without a time limit it ends when that call comes back, so that the time it has waited is
  the sum of the delays before it.
\<close>

theorem IfNecessary_follows:
  assumes "scripted es took operation" "ends = call_end options took (clock w)"
  shows "\<exists>k w'. k \<le> nat (re_MaxRetry options) \<and> gives_up retryable ctx options es ends k \<and>
    (\<forall>n < k. \<not> gives_up retryable ctx options es ends n) \<and>
    IfNecessary retryable ctx operation options 0 w = (Ok (es k, Suc k), w') \<and>
    (ctx = None \<longrightarrow> clock w' = ends k)"
proof -
  let ?up = "gives_up retryable ctx options es ends"
  have last: "?up (nat (re_MaxRetry options))" by (simp add: gives_up_def split: option.split)
  define k where "k = (LEAST n. ?up n)"
  have k: "?up k" "\<forall>n < k. \<not> ?up n" "k \<le> nat (re_MaxRetry options)"
    unfolding k_def using LeastI [of ?up, OF last] not_less_Least Least_le [of ?up, OF last] by blast+
  obtain w0 where w0: "operation 0 w = (Ok (es 0, Suc 0), w0)" "clock w0 = clock w + took 0"
    using assms(1) unfolding scripted_def by blast
  have "clock w0 = ends 0" using w0(2) assms(2) by simp
  then obtain w' where "retry_loop retryable ctx operation options 0 (es 0) (Suc 0) w0 = (Ok (es k, Suc k), w')"
    "ctx = None \<longrightarrow> clock w' = ends k"
    using retry_loop_follows [OF assms(1,2) _ k(1), of 0 w0] k(2) by auto
  then show ?thesis using k w0(1)
    by (intro exI [of _ k] exI [of _ w']) (simp add: IfNecessary_def go_bind_def)
qed

text \<open>Two failures, then a success: three calls, and waits of one and two seconds between them.\<close>

lemma fails_first_scripted:
  "scripted (\<lambda>n. if n < m then Some (ErrorString ''no'') else None) (\<lambda>_. 0) (fails_first m)"
  by (simp add: scripted_def fails_first_def)

theorem IfNecessary_follows_witness:
  "\<exists>w'. IfNecessary (\<lambda>_. True) None (fails_first 2) \<lparr>re_MaxRetry = 5, re_Delay = 0\<rparr> 0 idle_world =
      (Ok (None, 3), w') \<and> clock w' = 3000000000"
proof -
  let ?o = "\<lparr>re_MaxRetry = 5, re_Delay = 0\<rparr>" and ?es = "\<lambda>n. if n < 2 then Some (ErrorString ''no'') else None"
  let ?ends = "call_end ?o (\<lambda>_. 0) (clock idle_world)"
  obtain k w' where k: "gives_up (\<lambda>_. True) None ?o ?es ?ends k"
    "\<forall>n < k. \<not> gives_up (\<lambda>_. True) None ?o ?es ?ends n"
    "IfNecessary (\<lambda>_. True) None (fails_first 2) ?o 0 idle_world = (Ok (?es k, Suc k), w')" "clock w' = ?ends k"
    using IfNecessary_follows [OF fails_first_scripted [of 2] HOL.refl, where options = ?o
        and w = idle_world and retryable = "\<lambda>_. True" and ctx = None] by auto
  have "gives_up (\<lambda>_. True) None ?o ?es ?ends 2" by (simp add: gives_up_def)
  then have "k \<le> 2" using k(2) by (metis leI)
  moreover have "\<not> k < 2" using k(1) by (auto simp: gives_up_def out_of_time_def)
  ultimately have "k = 2" by simp
  then show ?thesis using k(3,4) by (simp add: numeral_2_eq_2 numeral_3_eq_3 retry_delay_def backoff_def idle_world_def)
qed

text \<open>
  C27: the retries are used up. Against an operation that keeps failing with a retryable error, and
  without a time limit, the operation is called exactly once more than the retries say, and the
  result is an error.
\<close>

theorem IfNecessary_used_up:
  assumes "keeps_failing retryable operation"
  shows "length (net (snd (IfNecessary retryable None operation options c w))) =
      length (net w) + Suc (nat (re_MaxRetry options)) \<and>
    (\<exists>e c'. fst (IfNecessary retryable None operation options c w) = Ok (Some e, c'))"
proof -
  have "is_ok (fst (operation c w))" for c w
    using assms unfolding keeps_failing_def by (metis fst_conv is_ok.simps(1))
  then obtain e c' w' where run: "IfNecessary retryable None operation options c w = (Ok (e, c'), w')"
    using IfNecessary_ok [of operation retryable None options c w] by (metis is_ok_iff prod.collapse)
  have "e \<noteq> None"
  proof
    assume "e = None"
    then obtain c0 w0 where "operation c0 w0 = (Ok (None, c'), w')"
      using IfNecessary_sound [of retryable None operation options c w c' w'] run by auto
    then show False using assms unfolding keeps_failing_def by (metis Pair_inject option.distinct(1) res.inject(1))
  qed
  then show ?thesis using run IfNecessary_exhausts [OF assms, of options c w] by auto
qed

theorem IfNecessary_used_up_witness:
  "length (net (snd (IfNecessary (\<lambda>_. True) None (\<lambda>c w. (Ok (Some (ErrorString ''no''), c),
      w\<lparr>net := net w @ [([], [])]\<rparr>)) \<lparr>re_MaxRetry = 3, re_Delay = 0\<rparr> () idle_world))) = 4"
  using IfNecessary_used_up [of "\<lambda>_. True" "\<lambda>c w. (Ok (Some (ErrorString ''no''), c),
      w\<lparr>net := net w @ [([], [])]\<rparr>)" "\<lparr>re_MaxRetry = 3, re_Delay = 0\<rparr>" "()" idle_world]
  by (simp add: keeps_failing_def idle_world_def)

lemma backoff_small: "list_all (\<lambda>n. backoff n = 2 ^ n * 1000000000) [0..<34]"
  by (simp add: backoff_def upt_rec)

text \<open>
  C28: the back-off doubles, until it overflows. Without a fixed delay the wait before attempt
  \<open>n + 1\<close> is \<open>2 ^ n\<close> seconds for the first 34 attempts; the next one is negative, and from attempt
  55 on it is zero, so that the loop does not wait at all.
\<close>

theorem backoff_wraps:
  "re_Delay options = 0 \<longrightarrow>
     (n < 34 \<longrightarrow> retry_delay options n = 2 ^ n * 1000000000) \<and>
     retry_delay options 34 < 0 \<and>
     (55 \<le> n \<longrightarrow> retry_delay options n = 0)"
proof -
  have "backoff n = 2 ^ n * 1000000000" if "n < 34"
    using backoff_small that by (simp add: list_all_iff)
  moreover have "backoff 34 < 0" by (simp add: backoff_def)
  moreover have "backoff n = 0" if "55 \<le> n"
  proof -
    have "(2 :: 64 word) ^ n = 2 ^ 55 * 2 ^ (n - 55)" by (subst power_add [symmetric]) (simp only: le_add_diff_inverse that)
    then have "(2 :: 64 word) ^ n * 1000000000 = (2 ^ 55 * 1000000000) * 2 ^ (n - 55)"
      by (simp only: ac_simps)
    also have "(2 :: 64 word) ^ 55 * 1000000000 = 0" by simp
    finally show ?thesis by (simp add: backoff_def)
  qed
  ultimately show ?thesis by (simp add: retry_delay_def)
qed

theorem backoff_wraps_witness:
  "retry_delay \<lparr>re_MaxRetry = 60, re_Delay = 0\<rparr> 3 = 8000000000"
  using backoff_wraps [of "\<lparr>re_MaxRetry = 60, re_Delay = 0\<rparr>" 3] by simp

end
