(* ===== verification/GoBufio.thy ===== *)
theory GoBufio
  imports GoFiles
begin

text \<open>
  Go's \<open>bufio.Writer\<close> over a file, with the default buffer of 4096 bytes. The program passes
  one by value: the copy has its own fill level, so what is written to the copy is not seen by
  a flush of the original. The file may be nil (when it could not be created); writing to it is
  then an error, which a \<open>bufio.Writer\<close> remembers.
\<close>

record bufio_Writer =
  bw_file :: "file_handle option"
  bw_buf :: string
  bw_err :: "go_error option"

definition bufio_size :: nat where
  "bufio_size = 4096"

definition bufio_NewWriter :: "file_handle option \<Rightarrow> bufio_Writer" where
  "bufio_NewWriter f = \<lparr>bw_file = f, bw_buf = [], bw_err = None\<rparr>"

definition file_Write :: "file_handle option \<Rightarrow> string \<Rightarrow> unit go" where
  "file_Write f p =
     (case f of None \<Rightarrow> go_fail (ErrorString ''invalid argument'') | Some h \<Rightarrow> os_Write h p)"

text \<open>Hand \<open>p\<close> to the file: an error is remembered and keeps the buffer as it is.\<close>

definition bw_emit :: "string \<Rightarrow> bufio_Writer \<Rightarrow> bufio_Writer \<Rightarrow> bufio_Writer go" where
  "bw_emit p b done =
     go_try (file_Write (bw_file b) p)
       (\<lambda>r. case r of Inl e \<Rightarrow> go_return (b\<lparr>bw_err := Some e\<rparr>) | Inr _ \<Rightarrow> go_return done)"

definition bw_Flush :: "bufio_Writer \<Rightarrow> bufio_Writer go" where
  "bw_Flush b =
     (if bw_err b \<noteq> None \<or> bw_buf b = [] then go_return b
      else bw_emit (bw_buf b) b (b\<lparr>bw_buf := []\<rparr>))"

text \<open>
  \<open>Write\<close>: what does not fit fills the buffer up, which is flushed; what remains is buffered,
  or goes to the file at once when it is larger than the buffer.
\<close>

definition bw_put :: "string \<Rightarrow> bufio_Writer \<Rightarrow> bufio_Writer go" where
  "bw_put p b =
     (if bw_err b \<noteq> None then go_return b
      else if bufio_size < length p then bw_emit p b b
      else go_return (b\<lparr>bw_buf := p\<rparr>))"

definition bw_Write :: "string \<Rightarrow> bufio_Writer \<Rightarrow> bufio_Writer go" where
  "bw_Write p b =
     (let room = bufio_size - length (bw_buf b) in
      if bw_err b \<noteq> None then go_return b
      else if length p \<le> room then go_return (b\<lparr>bw_buf := bw_buf b @ p\<rparr>)
      else if bw_buf b = [] then bw_put p b
      else go_bind (bw_Flush (b\<lparr>bw_buf := bw_buf b @ take room p\<rparr>)) (bw_put (drop room p)))"

fun bw_writes :: "string list \<Rightarrow> bufio_Writer \<Rightarrow> bufio_Writer go" where
  "bw_writes [] b = go_return b"
| "bw_writes (p # ps) b = go_bind (bw_Write p b) (bw_writes ps)"

section \<open>What it keeps\<close>

text \<open>The writer stays one on the file \<open>f\<close>.\<close>

abbreviation keeps_writer ::
  "(world \<Rightarrow> world \<Rightarrow> bool) \<Rightarrow> file_handle option \<Rightarrow> bufio_Writer go \<Rightarrow> bool" where
  "keeps_writer R f \<equiv> keeps_ens R (\<lambda>b. bw_file b = f)"

context world_relation
begin

lemma writer_return: "bw_file b = f \<Longrightarrow> keeps_writer R f (go_return b)"
  by (rule ens_return)

lemma writer_emit:
  assumes "\<And>p. keeps R (file_Write f p)" "bw_file b = f" "bw_file done = f"
  shows "keeps_writer R f (bw_emit p b done)"
proof -
  have "keeps_ens R (\<lambda>_. True) (file_Write f p)" by (rule keeps_ensI [OF assms(1)]) simp
  then show ?thesis
    unfolding bw_emit_def assms(2)
    by (rule ens_try) (use assms(2,3) in \<open>auto intro!: ens_return split: sum.splits\<close>)
qed

lemma writer_Flush:
  assumes "\<And>p. keeps R (file_Write f p)" "bw_file b = f"
  shows "keeps_writer R f (bw_Flush b)"
  unfolding bw_Flush_def using writer_emit [OF assms] writer_return [OF assms(2)] assms(2) by simp

lemma writer_put:
  assumes "\<And>p. keeps R (file_Write f p)" "bw_file b = f"
  shows "keeps_writer R f (bw_put p b)"
  unfolding bw_put_def using writer_emit [OF assms] writer_return [of _ f] assms(2) by simp

lemma writer_Write:
  assumes "\<And>p. keeps R (file_Write f p)" "bw_file b = f"
  shows "keeps_writer R f (bw_Write p b)"
proof -
  let ?b = "b\<lparr>bw_buf := bw_buf b @ take (bufio_size - length (bw_buf b)) p\<rparr>"
  have "keeps_writer R f (go_bind (bw_Flush ?b) (bw_put q))" for q
    by (rule ens_bind [OF writer_Flush [of f]]) (simp_all add: assms writer_put)
  moreover have "keeps_writer R f (bw_put p b)" by (intro writer_put assms)
  ultimately show ?thesis unfolding bw_Write_def Let_def using assms(2) by (simp add: writer_return)
qed

lemma writer_writes:
  assumes "\<And>p. keeps R (file_Write f p)" "bw_file b = f"
  shows "keeps_writer R f (bw_writes ps b)"
  using assms(2)
  by (induction ps arbitrary: b) (auto intro!: writer_return ens_bind [OF writer_Write] assms(1))

end

section \<open>It never fails\<close>

lemma file_Write_safe [safe_intros]: "no_panic (file_Write f p)"
  unfolding file_Write_def by (cases f) (simp_all add: safe_intros)

lemma bw_emit_safe [safe_intros]: "no_panic (bw_emit p b done)"
  unfolding bw_emit_def by (rule no_panic_try) (auto intro!: safe_intros split: sum.splits)

lemma bw_Flush_safe [safe_intros]: "no_panic (bw_Flush b)"
  unfolding bw_Flush_def by (simp add: safe_intros)

lemma bw_put_safe [safe_intros]: "no_panic (bw_put p b)"
  unfolding bw_put_def by (simp add: safe_intros)

lemma bw_Write_safe [safe_intros]: "no_panic (bw_Write p b)"
  unfolding bw_Write_def Let_def by (auto intro!: safe_intros)

lemma bw_writes_safe [safe_intros]: "no_panic (bw_writes ps b)"
  by (induction ps arbitrary: b) (simp_all add: safe_intros)

section \<open>What reaches the file\<close>

text \<open>Text that fits the buffer stays there.\<close>

lemma bw_writes_buffered:
  assumes "bw_err b = None" "length (bw_buf b) + length (concat ps) \<le> bufio_size"
  shows "bw_writes ps b w = (Ok (b\<lparr>bw_buf := bw_buf b @ concat ps\<rparr>), w)"
  using assms
proof (induction ps arbitrary: b)
  case (Cons p ps)
  then have "bw_Write p b = go_return (b\<lparr>bw_buf := bw_buf b @ p\<rparr>)"
    by (auto simp: bw_Write_def Let_def)
  then show ?case using Cons.IH [of "b\<lparr>bw_buf := bw_buf b @ p\<rparr>"] Cons.prems by simp
qed (simp add: go_return_def)

text \<open>A flush of an empty buffer does nothing.\<close>

lemma bw_Flush_empty [simp]: "bw_buf b = [] \<Longrightarrow> bw_Flush b = go_return b"
  by (simp add: bw_Flush_def)

end
