(* ===== verification/Mirror.thy ===== *)
theory Mirror
  imports Retry GoBufio
begin

text \<open>
  pkg/mirror/mirror.go and unshare_linux.go: the copy of an image with containers/image, run in
  the retry loop. The packages of containers/image are the parameter \<open>lib\<close>: the transport of an
  image name (as it prints), the parser of image names, the policy, which errors are worth a
  retry, and \<open>copy.Image\<close> itself, which gives the lines it reports and its error, and acts on the
  world. \<open>MirrorInterface\<close> is the record \<open>mirror_iface\<close>; the locale \<open>mirror_api\<close> states what its
  client relies on, and \<open>Mirror_New\<close> provides it.
\<close>

section \<open>The library\<close>

record copy_Options =
  cp_RemoveSignatures :: bool
  cp_SignBy :: string
  cp_SignBySigstorePrivateKeyFile :: string
  cp_SourceCtx :: SystemContext
  cp_DestinationCtx :: SystemContext
  cp_ForceManifestMIMEType :: string
  cp_PreserveDigests :: bool

text \<open>The arguments are the context, the policy, the destination, the source and the options.\<close>

type_synonym copier =
  "int option \<Rightarrow> policy \<Rightarrow> string \<Rightarrow> string \<Rightarrow> copy_Options \<Rightarrow> (string list \<times> go_error option) go"

record image_lib =
  il_TransportText :: "string \<Rightarrow> string"
  il_ParseImageName :: "string \<Rightarrow> go_error + string"
  il_Policy :: policy_lib
  il_Destroy :: "policy \<Rightarrow> go_error option"
  il_isRetryable :: "go_error \<Rightarrow> bool"
  il_copy_Image :: "int option \<Rightarrow> policy \<Rightarrow> string \<Rightarrow> string \<Rightarrow> copy_Options \<Rightarrow>
    world \<Rightarrow> (string list \<times> go_error option) \<times> world"

section \<open>The operations\<close>

text \<open>\<open>MirrorCopy.CopyImage\<close>; \<open>net\<close> keeps the history of its calls.\<close>

definition CopyImage :: "image_lib \<Rightarrow> copier" where
  "CopyImage lib ctx pc destRef srcRef co = (\<lambda>w.
     case il_copy_Image lib ctx pc destRef srcRef co (w\<lparr>net := net w @ [(srcRef, destRef)]\<rparr>) of
       (r, w') \<Rightarrow> (Ok r, w'))"

definition println :: "string list \<Rightarrow> unit go" where
  "println ws = (\<lambda>w. (Ok (), w\<lparr>stdout := stdout w @ [Join ws '' '']\<rparr>))"

definition ReexecIfNecessaryForImages :: "image_lib \<Rightarrow> string list \<Rightarrow> unit go" where
  "ReexecIfNecessaryForImages lib imageNames =
     go_for imageNames (\<lambda>imageName. println [''info '', il_TransportText lib imageName])"

text \<open>The function that is retried: copy, and on success flush the report.\<close>

definition copy_attempt ::
  "copier \<Rightarrow> int option \<Rightarrow> policy \<Rightarrow> string \<Rightarrow> string \<Rightarrow> copy_Options \<Rightarrow> bufio_Writer operation" where
  "copy_attempt mc ctx pc destRef srcRef co out =
     go_bind (mc ctx pc destRef srcRef co) (\<lambda>(report, err).
     go_bind (bw_writes report out) (\<lambda>out1.
     case err of
       Some e \<Rightarrow> go_return (Some e, out1)
     | None \<Rightarrow> go_bind (bw_Flush out1) (\<lambda>out2. go_return (None, out2))))"

definition or_fail :: "go_error + 'a \<Rightarrow> (go_error \<Rightarrow> go_error) \<Rightarrow> 'a go" where
  "or_fail r f = (case r of Inl e \<Rightarrow> go_fail (f e) | Inr a \<Rightarrow> go_return a)"

text \<open>\<open>copy\<close> once both names are parsed, and from the parsing on.\<close>

definition copy_refs ::
  "image_lib \<Rightarrow> copier \<Rightarrow> CopyOptions \<Rightarrow> bufio_Writer \<Rightarrow> policy \<Rightarrow> string \<Rightarrow> string \<Rightarrow> unit go" where
  "copy_refs lib mc opts out pc srcRef destRef =
     go_bind (go_lift (image_NewSystemContext (co_Global opts) (co_Shared opts) (co_SrcImage opts)))
       (\<lambda>sourceCtx.
     go_bind (go_lift (image_NewSystemContext (co_Global opts) (co_Shared opts)
         (de_imageOptions (co_DestImage opts)))) (\<lambda>destinationCtx.
     go_bind (if co_Format opts \<noteq> [] then go_lift (ParseManifestFormat (co_Format opts))
              else go_return []) (\<lambda>manifestType.
     go_bind (go_read (\<lambda>w. Ok (CommandTimeoutContext (co_Global opts) w))) (\<lambda>ctx.
     let co = \<lparr>cp_RemoveSignatures = co_RemoveSignatures opts,
               cp_SignBy = co_SignByFingerprint opts,
               cp_SignBySigstorePrivateKeyFile = co_SignBySigstorePrivateKey opts,
               cp_SourceCtx = sourceCtx, cp_DestinationCtx = destinationCtx,
               cp_ForceManifestMIMEType = manifestType,
               cp_PreserveDigests = co_PreserveDigests opts\<rparr>
     in go_bind (IfNecessary (il_isRetryable lib) ctx
           (copy_attempt mc ctx pc destRef srcRef co) (co_RetryOpts opts) out) (\<lambda>(err, _).
        case err of Some e \<Rightarrow> go_fail e | None \<Rightarrow> go_return ())))))"

definition copy_with_policy ::
  "image_lib \<Rightarrow> copier \<Rightarrow> string \<Rightarrow> string \<Rightarrow> CopyOptions \<Rightarrow> bufio_Writer \<Rightarrow> policy \<Rightarrow> unit go" where
  "copy_with_policy lib mc src dest opts out pc =
     go_bind (or_fail (il_ParseImageName lib src)
       (\<lambda>e. Errorf ''Invalid source name %s: %v'' [FStr src, FErr e])) (\<lambda>srcRef.
     go_bind (or_fail (il_ParseImageName lib dest)
       (\<lambda>e. Errorf ''Invalid destination name %s: %v'' [FStr dest, FErr e])) (\<lambda>destRef.
     copy_refs lib mc opts out pc srcRef destRef))"

text \<open>The deferred \<open>Destroy\<close>: its error replaces the result.\<close>

definition destroying :: "image_lib \<Rightarrow> policy \<Rightarrow> unit go \<Rightarrow> unit go" where
  "destroying lib pc m =
     go_try m (\<lambda>r.
       case il_Destroy lib pc of
         Some e \<Rightarrow> go_fail (Errorf ''%v'' [FErr e])
       | None \<Rightarrow> (case r of Inl e \<Rightarrow> go_fail e | Inr _ \<Rightarrow> go_return ()))"

definition with_RemoveSignatures :: "CopyOptions \<Rightarrow> CopyOptions" where
  "with_RemoveSignatures opts =
     opts\<lparr>co_RemoveSignatures := (case ParseBool ''true'' of Ok b \<Rightarrow> b | _ \<Rightarrow> False)\<rparr>"

definition Mirror_copy ::
  "image_lib \<Rightarrow> copier \<Rightarrow> string \<Rightarrow> string \<Rightarrow> CopyOptions \<Rightarrow> bufio_Writer \<Rightarrow> unit go" where
  "Mirror_copy lib mc src dest opts out =
     go_seq (WarnIfUsed (co_DeprecatedTLSVerify opts) [''--src-tls-verify'', ''--dest-tls-verify''])
     (go_seq (ReexecIfNecessaryForImages lib [src, dest])
     (go_bind (go_read (\<lambda>w. Ok (GetPolicyContext (il_Policy lib) (co_Global opts) w))) (\<lambda>r.
     case r of
       Inl e \<Rightarrow> go_fail (Errorf ''Error loading trust policy: %v'' [FErr e])
     | Inr pc \<Rightarrow>
         destroying lib pc
           (copy_with_policy lib mc src dest (with_RemoveSignatures opts) out pc))))"

text \<open>\<open>Run\<close> gives its error, and the options as it leaves them (they are passed by pointer).\<close>

definition Mirror_Run ::
  "image_lib \<Rightarrow> copier \<Rightarrow> string \<Rightarrow> string \<Rightarrow> string \<Rightarrow> CopyOptions \<Rightarrow> bufio_Writer \<Rightarrow>
   (CopyOptions \<times> go_error option) go" where
  "Mirror_Run lib mc src dest mode opts stdout_w =
     go_try (Mirror_copy lib mc src dest opts stdout_w)
       (\<lambda>r. go_return (with_RemoveSignatures opts, case r of Inl e \<Rightarrow> Some e | Inr _ \<Rightarrow> None))"

record mirror_iface =
  mr_Run :: "string \<Rightarrow> string \<Rightarrow> string \<Rightarrow> CopyOptions \<Rightarrow> bufio_Writer \<Rightarrow>
    (CopyOptions \<times> go_error option) go"

definition Mirror_New :: "image_lib \<Rightarrow> copier \<Rightarrow> mirror_iface" where
  "Mirror_New lib mc = \<lparr>mr_Run = Mirror_Run lib mc\<rparr>"

section \<open>What a copy keeps\<close>

text \<open>Every call of \<open>copy.Image\<close> on what \<open>dest\<close> parses to keeps \<open>R\<close>.\<close>

definition lib_keeps :: "(world \<Rightarrow> world \<Rightarrow> bool) \<Rightarrow> image_lib \<Rightarrow> string \<Rightarrow> bool" where
  "lib_keeps R lib dest \<longleftrightarrow>
     (\<forall>r ctx pc s co w. il_ParseImageName lib dest = Inr r \<longrightarrow>
        R w (snd (il_copy_Image lib ctx pc r s co w)))"

lemma println_keeps [keeps_intros]: "keeps same_files (println ws)" "keeps no_copies (println ws)"
  by (simp_all add: keeps_def println_def same_files_def no_copies_def)

lemma println_safe [safe_intros]: "no_panic (println ws)"
  by (simp add: no_panic_def println_def)

context world_relation
begin

lemma ens_copy_attempt:
  assumes "keeps R (mc ctx pc destRef srcRef co)" "\<And>p. keeps R (file_Write f p)" "bw_file out = f"
  shows "keeps_ens R (\<lambda>(e, out). bw_file out = f) (copy_attempt mc ctx pc destRef srcRef co out)"
  unfolding copy_attempt_def
proof (rule ens_bind [where Q = "\<lambda>_. True"], goal_cases)
  case 1
  show ?case by (rule keeps_ensI [OF assms(1)]) simp
next
  case (2 p)
  obtain report err where p: "p = (report, err)" by fastforce
  have "keeps_ens R (\<lambda>(e, out). bw_file out = f)
      (case err of Some e \<Rightarrow> go_return (Some e, out1)
       | None \<Rightarrow> go_bind (bw_Flush out1) (\<lambda>out2. go_return (None, out2)))"
    if "bw_file out1 = f" for out1
    using that by (cases err) (auto intro!: ens_return ens_bind [OF writer_Flush] assms(2))
  then show ?case unfolding p by (auto intro!: ens_bind [OF writer_writes] assms(2,3))
qed

lemma keeps_or_fail: "keeps R (or_fail r f)"
  unfolding or_fail_def by (auto simp: keeps_fail keeps_return split: sum.splits)

text \<open>The control structure around the retry loop.\<close>

lemma keeps_copy_refs_loop:
  assumes "\<And>ctx co. keeps R (IfNecessary (il_isRetryable lib) ctx
      (copy_attempt mc ctx pc destRef srcRef co) (co_RetryOpts opts) out)"
  shows "keeps R (copy_refs lib mc opts out pc srcRef destRef)"
  unfolding copy_refs_def Let_def
  by (auto intro!: keeps_bind keeps_lift keeps_return keeps_read keeps_fail assms split: option.splits)

lemma keeps_copy_with_policy_refs:
  assumes "\<And>s r. il_ParseImageName lib dest = Inr r \<Longrightarrow> keeps R (copy_refs lib mc opts out pc s r)"
  shows "keeps R (copy_with_policy lib mc src dest opts out pc)"
proof (cases "il_ParseImageName lib dest")
  case (Inl e)
  then show ?thesis unfolding copy_with_policy_def
    by (auto simp: or_fail_def keeps_fail split: sum.splits)
next
  case (Inr r)
  then show ?thesis using assms [OF Inr] unfolding copy_with_policy_def Inr
    by (auto intro!: keeps_bind keeps_fail keeps_return simp: or_fail_def split: sum.splits)
qed

lemma keeps_Mirror_Run_policy:
  assumes "\<And>pc. keeps R (copy_with_policy lib mc src dest (with_RemoveSignatures opts) out pc)"
    and "\<And>ws. keeps R (println ws)" "\<And>f a. keeps R (logrus_Warnf f a)"
  shows "keeps R (Mirror_Run lib mc src dest mode opts out)"
proof -
  have body: "keeps R (destroying lib pc
      (copy_with_policy lib mc src dest (with_RemoveSignatures opts) out pc))" for pc
    using assms(1) unfolding destroying_def
    by (auto intro!: keeps_try keeps_fail keeps_return split: option.splits sum.splits)
  have "keeps R (WarnIfUsed o' alts)" for o' alts
    unfolding WarnIfUsed_def by (simp add: assms(3) keeps_return)
  then show ?thesis unfolding Mirror_Run_def Mirror_copy_def ReexecIfNecessaryForImages_def
    by (intro keeps_try keeps_return keeps_seq keeps_for keeps_bind keeps_read assms(2))
      (auto intro!: keeps_fail body split: sum.splits)
qed

lemma keeps_copy_refs:
  assumes "\<And>ctx co. keeps R (mc ctx pc destRef srcRef co)"
    and "\<And>p. keeps R (file_Write (bw_file out) p)"
    and "\<And>f a. keeps R (logrus_Warnf f a)" "\<And>ctx d. keeps R (wait_or_done ctx d)"
  shows "keeps R (copy_refs lib mc opts out pc srcRef destRef)"
  by (rule keeps_copy_refs_loop, rule keeps_IfNecessary [where I = "\<lambda>b. bw_file b = bw_file out"])
    (use assms in \<open>auto intro!: ens_copy_attempt\<close>)

lemma keeps_Mirror_Run:
  assumes "\<And>r ctx pc s co. il_ParseImageName lib dest = Inr r \<Longrightarrow> keeps R (mc ctx pc r s co)"
    and "\<And>p. keeps R (file_Write (bw_file out) p)" "\<And>ws. keeps R (println ws)"
    and "\<And>f a. keeps R (logrus_Warnf f a)" "\<And>ctx d. keeps R (wait_or_done ctx d)"
  shows "keeps R (Mirror_Run lib mc src dest mode opts out)"
  by (intro keeps_Mirror_Run_policy keeps_copy_with_policy_refs keeps_copy_refs assms)

end

section \<open>It never panics by itself\<close>

lemma CopyImage_safe [safe_intros]: "no_panic (CopyImage lib ctx pc d s co)"
  by (simp add: no_panic_def CopyImage_def split: prod.split)

lemma copy_attempt_safe:
  "no_panic (mc ctx pc d s co) \<Longrightarrow> no_panic (copy_attempt mc ctx pc d s co out)"
  unfolding copy_attempt_def by (auto intro!: safe_intros split: option.splits)

lemma or_fail_safe [safe_intros]: "no_panic (or_fail r f)"
  unfolding or_fail_def by (auto intro!: safe_intros split: sum.splits)

lemma ParseManifestFormat_no_panic: "ParseManifestFormat f \<noteq> Panic x"
  by (simp add: ParseManifestFormat_def)

lemma image_NewSystemContext_no_panic: "image_NewSystemContext g s i \<noteq> Panic x"
  by (simp add: image_NewSystemContext_def Let_def)

lemma copy_refs_safe:
  assumes "\<And>ctx co. no_panic (mc ctx pc d s co)"
  shows "no_panic (copy_refs lib mc opts out pc s d)"
proof -
  have "no_panic (IfNecessary (il_isRetryable lib) ctx (copy_attempt mc ctx pc d s co) ro out)" for ctx co ro
    by (intro IfNecessary_safe copy_attempt_safe assms)
  then show ?thesis unfolding copy_refs_def Let_def
    by (auto intro!: safe_intros no_panic_lift ParseManifestFormat_no_panic
        image_NewSystemContext_no_panic split: option.splits)
qed

lemma Mirror_Run_safe:
  assumes "\<And>ctx pc d s co. no_panic (mc ctx pc d s co)"
  shows "no_panic (Mirror_Run lib mc src dest mode opts out)"
proof -
  have "no_panic (copy_refs lib mc o' out pc s d)" for o' pc s d
    by (rule copy_refs_safe) (rule assms)
  then have "no_panic (copy_with_policy lib mc src dest o' out pc)" for o' pc
    unfolding copy_with_policy_def by (auto intro!: safe_intros)
  then have "no_panic (destroying lib pc (copy_with_policy lib mc src dest o' out pc))" for o' pc
    unfolding destroying_def by (auto intro!: safe_intros split: option.splits sum.splits)
  then show ?thesis
    unfolding Mirror_Run_def Mirror_copy_def ReexecIfNecessaryForImages_def WarnIfUsed_def
    by (auto intro!: safe_intros split: sum.splits)
qed

section \<open>How often it calls the library\<close>

text \<open>The copier makes at most one call each time.\<close>

definition calls_once :: "copier \<Rightarrow> bool" where
  "calls_once mc \<longleftrightarrow>
     (\<forall>ctx pc d s co w. length (net (snd (mc ctx pc d s co w))) \<le> Suc (length (net w)))"

lemma file_Write_no_copies [keeps_intros]: "keeps no_copies (file_Write f p)"
  unfolding file_Write_def by (cases f) (simp_all add: keeps_intros)

lemma keeps_no_copies_net: "keeps no_copies m \<Longrightarrow> net (snd (m w)) = net w"
  by (simp add: keeps_def no_copies_def)

text \<open>Calls made before or after a computation that makes none.\<close>

lemma net_bind_quiet:
  assumes "keeps no_copies m" "\<And>a w. length (net (snd (k a w))) \<le> length (net w) + n"
  shows "length (net (snd (go_bind m k w))) \<le> length (net w) + n"
proof -
  obtain r w1 where 1: "m w = (r, w1)" by fastforce
  then have "net w1 = net w" using keeps_no_copies_net [OF assms(1), of w] by simp
  then show ?thesis using 1 assms(2) [of _ w1] by (cases r) (simp_all add: go_bind_def)
qed

lemma net_try_return:
  assumes "\<And>a. keeps no_copies (k a)" "length (net (snd (m w))) \<le> n"
  shows "length (net (snd (go_try m k w))) \<le> n"
proof -
  obtain r w1 where 1: "m w = (r, w1)" by fastforce
  show ?thesis using 1 assms keeps_no_copies_net [of "k _" w1]
    by (cases r) (simp_all add: go_try_def)
qed

lemma net_quiet_bind:
  assumes "\<And>a. keeps no_copies (k a)" "length (net (snd (m w))) \<le> n"
  shows "length (net (snd (go_bind m k w))) \<le> n"
proof -
  obtain r w1 where 1: "m w = (r, w1)" by fastforce
  show ?thesis using 1 assms keeps_no_copies_net [of "k _" w1]
    by (cases r) (simp_all add: go_bind_def)
qed

lemma writers_no_copies: "keeps no_copies (bw_writes ps b)" "keeps no_copies (bw_Flush b)"
  using no_copies.writer_writes [of "bw_file b" b ps] no_copies.writer_Flush [of "bw_file b" b]
    file_Write_no_copies keeps_ensD(1) by blast+

lemma copy_attempt_one_call:
  assumes "calls_once mc"
  shows "one_call (copy_attempt mc ctx pc d s co)"
  unfolding one_call_def copy_attempt_def
proof (intro allI net_quiet_bind)
  show "length (net (snd (mc ctx pc d s co w))) \<le> Suc (length (net w))" for w
    using assms unfolding calls_once_def by blast
qed (auto intro!: no_copies.keeps_bind no_copies.keeps_return writers_no_copies split: option.splits)

lemma copy_refs_calls:
  assumes "calls_once mc"
  shows "length (net (snd (copy_refs lib mc opts out pc s d w)))
    \<le> length (net w) + Suc (nat (re_MaxRetry (co_RetryOpts opts)))"
proof -
  have loop: "length (net (snd (go_bind (IfNecessary (il_isRetryable lib) ctx
      (copy_attempt mc ctx pc d s co) (co_RetryOpts opts) out) (\<lambda>(err, _).
        case err of Some e \<Rightarrow> go_fail e | None \<Rightarrow> go_return ()) w1)))
      \<le> length (net w1) + Suc (nat (re_MaxRetry (co_RetryOpts opts)))" for ctx co w1
    by (intro net_quiet_bind IfNecessary_calls copy_attempt_one_call assms)
      (auto intro!: no_copies.keeps_fail no_copies.keeps_return split: option.splits)
  show ?thesis unfolding copy_refs_def Let_def
    by (rule net_bind_quiet [OF no_copies.keeps_lift], rule net_bind_quiet [OF no_copies.keeps_lift],
        rule net_bind_quiet, simp add: no_copies.keeps_lift no_copies.keeps_return,
        rule net_bind_quiet [OF no_copies.keeps_read], rule loop)
qed

lemma Mirror_Run_calls:
  assumes "calls_once mc"
  shows "length (net (snd (Mirror_Run lib mc src dest mode opts out w)))
    \<le> length (net w) + Suc (nat (re_MaxRetry (co_RetryOpts opts)))" (is "_ \<le> _ + ?n")
proof -
  have or_fail: "keeps no_copies (or_fail r f)" for r :: "go_error + string" and f
    by (rule no_copies.keeps_or_fail)
  have "length (net (snd (copy_with_policy lib mc src dest (with_RemoveSignatures opts) out pc w1)))
      \<le> length (net w1) + ?n" for pc w1
    unfolding copy_with_policy_def
    using copy_refs_calls [OF assms, of lib "with_RemoveSignatures opts"]
    by (intro net_bind_quiet or_fail) (simp add: with_RemoveSignatures_def)
  then have "length (net (snd (destroying lib pc
      (copy_with_policy lib mc src dest (with_RemoveSignatures opts) out pc) w1)))
      \<le> length (net w1) + ?n" for pc w1
    unfolding destroying_def
    by (intro net_try_return) (auto intro!: no_copies.keeps_fail no_copies.keeps_return split: option.splits sum.splits)
  then have "length (net (snd (Mirror_copy lib mc src dest opts out w))) \<le> length (net w) + ?n"
    unfolding Mirror_copy_def go_seq_def ReexecIfNecessaryForImages_def WarnIfUsed_def
    by (intro net_bind_quiet no_copies.keeps_for no_copies.keeps_read)
      (auto intro!: keeps_intros keeps_log_only split: sum.splits simp: go_fail_def)
  then show ?thesis unfolding Mirror_Run_def
    by (intro net_try_return no_copies.keeps_return)
qed

section \<open>The contract of the interface\<close>

text \<open>The file a writer is on, if there is one, lies in the region.\<close>

definition writes_in :: "(path \<Rightarrow> bool) \<Rightarrow> bufio_Writer \<Rightarrow> bool" where
  "writes_in P b \<longleftrightarrow> (case bw_file b of None \<Rightarrow> True | Some h \<Rightarrow> P (snd h))"

lemma os_Write_at: "P (snd f) \<Longrightarrow> keeps (changes_at d P) (os_Write f data)"
  by (rule keepsI) (auto simp: os_Write_def changes_at_def entry_set_entry split: option.splits node.splits)

lemma file_Write_at: "writes_in P b \<Longrightarrow> keeps (changes_at d P) (file_Write (bw_file b) p)"
  unfolding file_Write_def writes_in_def
  by (auto simp: changes_at.keeps_fail os_Write_at split: option.splits)

lemma file_Write_wf: "keeps keeps_wf (file_Write f p)"
  unfolding file_Write_def by (cases f) (simp_all add: keeps_intros)

lemma file_Write_dirs: "keeps dirs_grow (file_Write f p)"
  unfolding file_Write_def by (cases f) (simp_all add: keeps_intros)

text \<open>
  What a client relies on: \<open>Run\<close> does not panic, it changes nothing but what the library may
  change for that destination and the file of the report, it removes no directory elsewhere, it makes at most one call more than
  the retries, and it leaves the global options alone.
\<close>

locale mirror_api =
  fixes r :: mirror_iface and region :: "string \<Rightarrow> path \<Rightarrow> path \<Rightarrow> bool" and trusted :: bool
  assumes run_safe: "no_panic (mr_Run r src dest mode opts out)"
    and run_changes: "trusted \<Longrightarrow> (\<And>q. region dest d q \<Longrightarrow> P q) \<Longrightarrow> writes_in P out \<Longrightarrow>
      keeps (changes_at d P) (mr_Run r src dest mode opts out)"
    and run_wf: "trusted \<Longrightarrow> keeps keeps_wf (mr_Run r src dest mode opts out)"
    and run_dir: "trusted \<Longrightarrow> \<not> region dest d q \<Longrightarrow> keeps (keeps_dir d q) (mr_Run r src dest mode opts out)"
    and run_calls: "trusted \<Longrightarrow> length (net (snd (mr_Run r src dest mode opts out w)))
      \<le> length (net w) + Suc (nat (re_MaxRetry (co_RetryOpts opts)))"
    and run_options: "mr_Run r src dest mode opts out w = (Ok (opts', e), w') \<Longrightarrow>
      co_Global opts' = co_Global opts \<and> co_RetryOpts opts' = co_RetryOpts opts"
begin

text \<open>Without retries there is one call.\<close>

lemma run_once:
  "trusted \<Longrightarrow> re_MaxRetry (co_RetryOpts opts) \<le> 0 \<Longrightarrow>
     length (net (snd (mr_Run r src dest mode opts out w))) \<le> Suc (length (net w))"
  using run_calls [of src dest mode opts out w] by simp

text \<open>A run always ends with an error value or without one.\<close>

lemma run_result:
  "\<exists>r' w'. mr_Run r src dest mode opts out w = (r', w') \<and> (\<forall>x. r' \<noteq> Panic x)"
  using run_safe [of src dest mode opts out]
  by (cases "mr_Run r src dest mode opts out w") (auto dest: no_panicD)

end

text \<open>
  The destination of the \<open>oci\<close> transport, \<open>oci:path[:reference]\<close>: the library puts the image below
  the directory the text names. It also keeps files of its own elsewhere (\<open>copy.Image\<close> opens a
  database of blobs, \<open>blobinfocache.DefaultCache\<close>, below /var/lib/containers/cache or the user's
  data directory), so what it writes is bounded by its destination and a region \<open>R\<close>: nothing else
  changes, it makes no call of its own, and the file system stays a tree.
\<close>

definition oci_dir :: "string \<Rightarrow> string" where
  "oci_dir dest = takeWhile (\<lambda>c. c \<noteq> CHR '':'') (TrimPrefix dest ''oci:'')"

definition oci_region :: "string \<Rightarrow> path \<Rightarrow> path \<Rightarrow> bool" where
  "oci_region dest d q \<longleftrightarrow> prefix (place d (oci_dir dest)) q"

definition lib_region :: "(path \<Rightarrow> path \<Rightarrow> bool) \<Rightarrow> string \<Rightarrow> path \<Rightarrow> path \<Rightarrow> bool" where
  "lib_region R dest d q \<longleftrightarrow> oci_region dest d q \<or> R d q"

definition library_writes :: "(path \<Rightarrow> path \<Rightarrow> bool) \<Rightarrow> image_lib \<Rightarrow> bool" where
  "library_writes R lib \<longleftrightarrow>
     (\<forall>dest. lib_keeps (changes_only (lib_region R dest)) lib dest) \<and>
     (\<forall>ctx pc d s co w. net (snd (il_copy_Image lib ctx pc d s co w)) = net w) \<and>
     (\<forall>ctx pc d s co w. keeps_wf w (snd (il_copy_Image lib ctx pc d s co w)))"

lemma library_writes_mono:
  assumes "library_writes R lib" "\<And>d q. R d q \<Longrightarrow> S d q"
  shows "library_writes S lib"
proof -
  have "changes_only (lib_region S dest) w v" if "changes_only (lib_region R dest) w v" for dest w v
    using that by (rule changes_only_mono) (use assms(2) in \<open>auto simp: lib_region_def\<close>)
  then have "lib_keeps (changes_only (lib_region S dest)) lib dest" for dest
    using assms(1) by (simp add: library_writes_def lib_keeps_def)
  then show ?thesis using assms(1) by (simp add: library_writes_def)
qed

text \<open>
  A library is trusted when the files it keeps for itself are not among those the program uses, the
  log directory and the working directory of the place it runs in.
\<close>

definition program_place :: "path \<Rightarrow> path \<Rightarrow> bool" where
  "program_place d q \<longleftrightarrow>
     (\<exists>x \<in> {''logs'', ''working-dir''}. prefix (d @ [x]) q \<or> prefix q (d @ [x]))"

abbreviation elsewhere :: "path \<Rightarrow> path \<Rightarrow> bool" where
  "elsewhere d q \<equiv> \<not> program_place d q"

definition trusted_lib :: "image_lib \<Rightarrow> bool" where
  "trusted_lib lib \<longleftrightarrow> library_writes elsewhere lib"

lemma trusted_writes: "trusted_lib lib \<Longrightarrow> library_writes elsewhere lib"
  by (simp add: trusted_lib_def)

lemma CopyImage_world:
  "snd (CopyImage lib ctx pc d s co w) =
     snd (il_copy_Image lib ctx pc d s co (w\<lparr>net := net w @ [(s, d)]\<rparr>))"
  by (simp add: CopyImage_def split: prod.split)

lemma keeps_wf_net: "keeps_wf (w\<lparr>net := n\<rparr>) w' \<longleftrightarrow> keeps_wf w w'"
  by (simp add: keeps_wf_def fs_wf_def entry_def)

lemma changes_at_net: "changes_only P (w\<lparr>net := n\<rparr>) w' \<longleftrightarrow> changes_only P w w'"
  by (simp add: changes_only_def entry_def)

lemma CopyImage_changes:
  assumes "library_writes R lib" "il_ParseImageName lib dest = Inr r"
  shows "keeps (changes_only (lib_region R dest)) (CopyImage lib ctx pc r s co)"
proof (rule keepsI)
  fix w :: world
  let ?w = "w\<lparr>net := net w @ [(s, r)]\<rparr>"
  have "changes_only (lib_region R dest) ?w (snd (il_copy_Image lib ctx pc r s co ?w))"
    using assms unfolding library_writes_def lib_keeps_def by blast
  then show "changes_only (lib_region R dest) w (snd (CopyImage lib ctx pc r s co w))"
    by (simp only: CopyImage_world changes_at_net)
qed

lemma CopyImage_wf: "library_writes R lib \<Longrightarrow> keeps keeps_wf (CopyImage lib ctx pc r s co)"
  unfolding keeps_def library_writes_def CopyImage_world by (metis keeps_wf_net)

lemma CopyImage_calls: "library_writes R lib \<Longrightarrow> calls_once (CopyImage lib)"
  unfolding calls_once_def library_writes_def CopyImage_world by simp

lemma Mirror_Run_options:
  "Mirror_Run lib mc src dest mode opts out w = (Ok (opts', e), w') \<Longrightarrow>
     opts' = with_RemoveSignatures opts"
  by (auto simp: Mirror_Run_def go_try_def go_return_def split: prod.splits res.splits)

interpretation oci_copy: mirror_api "Mirror_New lib (CopyImage lib)" "lib_region R" "library_writes R lib"
  for lib R
proof unfold_locales
  fix src dest mode opts out
  show "no_panic (mr_Run (Mirror_New lib (CopyImage lib)) src dest mode opts out)"
    unfolding Mirror_New_def mirror_iface.simps by (rule Mirror_Run_safe) (rule CopyImage_safe)
  assume lib: "library_writes R lib"
  show "keeps keeps_wf (mr_Run (Mirror_New lib (CopyImage lib)) src dest mode opts out)"
    unfolding Mirror_New_def mirror_iface.simps
    by (rule wf.keeps_Mirror_Run) (intro CopyImage_wf [OF lib] file_Write_wf keeps_same_files_wf
        println_keeps wait_same_files keeps_log_only logrus_log_only)+
  show "keeps (keeps_dir d q) (mr_Run (Mirror_New lib (CopyImage lib)) src dest mode opts out)"
    if "\<not> lib_region R dest d q" for d q
  proof -
    have "keeps (keeps_dir d q) (CopyImage lib ctx pc r s co)"
      if "il_ParseImageName lib dest = Inr r" for ctx pc r s co
      using CopyImage_changes [OF lib that] by (rule changes_keeps_dir) fact
    then show ?thesis
      unfolding Mirror_New_def mirror_iface.simps
      by (rule stays_dir.keeps_Mirror_Run) (simp_all add: dirs_keeps_dir [OF file_Write_dirs]
        same_files_keeps_dir println_keeps wait_same_files keeps_log_only(1) [OF logrus_log_only])
  qed
  show "length (net (snd (mr_Run (Mirror_New lib (CopyImage lib)) src dest mode opts out w)))
      \<le> length (net w) + Suc (nat (re_MaxRetry (co_RetryOpts opts)))" for w
    unfolding Mirror_New_def mirror_iface.simps by (rule Mirror_Run_calls) (rule CopyImage_calls [OF lib])
  show "keeps (changes_at d P) (mr_Run (Mirror_New lib (CopyImage lib)) src dest mode opts out)"
    if "\<And>q. lib_region R dest d q \<Longrightarrow> P q" "writes_in P out" for d P
  proof -
    have "keeps (changes_at d P) (CopyImage lib ctx pc r s co)"
      if "il_ParseImageName lib dest = Inr r" for ctx pc r s co
      using CopyImage_changes [OF lib that] by (rule keeps_changes_at) fact
    then show ?thesis
      unfolding Mirror_New_def mirror_iface.simps
      by (rule changes_at.keeps_Mirror_Run) (assumption | intro file_Write_at that same_files_at
        println_keeps wait_same_files keeps_log_only logrus_log_only)+
  qed
next
  show "co_Global opts' = co_Global opts \<and> co_RetryOpts opts' = co_RetryOpts opts"
    if "mr_Run (Mirror_New lib (CopyImage lib)) src dest mode opts out w = (Ok (opts', e), w')"
    for src dest mode opts out w opts' e w'
    using that by (auto simp: Mirror_New_def with_RemoveSignatures_def dest: Mirror_Run_options)
qed

section \<open>Properties\<close>

lemma copy_attempt_success:
  assumes "copy_attempt mc ctx pc d s co out w = (Ok (None, out'), w')"
  shows "\<exists>report v. mc ctx pc d s co w = (Ok (report, None), v)"
proof -
  obtain p v where p: "mc ctx pc d s co w = (Ok p, v)"
    "(case p of (report, err) \<Rightarrow> go_bind (bw_writes report out) (\<lambda>out1.
       case err of Some e \<Rightarrow> go_return (Some e, out1)
       | None \<Rightarrow> go_bind (bw_Flush out1) (\<lambda>out2. go_return (None, out2)))) v = (Ok (None, out'), w')"
    using assms unfolding copy_attempt_def by (rule go_bind_Ok)
  obtain report err where v: "p = (report, err)" by fastforce
  have "err = None" using p(2) unfolding v by (cases err) (auto elim!: go_bind_Ok simp: go_return_def)
  then show ?thesis using p(1) v by blast
qed

lemma copy_refs_success:
  assumes "copy_refs lib mc opts out pc s d w = (Ok (), w')"
  shows "\<exists>ctx co report v v'. mc ctx pc d s co v = (Ok (report, None), v') \<and>
    cp_RemoveSignatures co = co_RemoveSignatures opts"
proof -
  obtain ctx co w1 err b w2 where run: "IfNecessary (il_isRetryable lib) ctx
      (copy_attempt mc ctx pc d s co) (co_RetryOpts opts) out w1 = (Ok (err, b), w2)"
    "(case err of Some e \<Rightarrow> go_fail e | None \<Rightarrow> go_return ()) w2 = (Ok (), w')"
    "cp_RemoveSignatures co = co_RemoveSignatures opts"
    using assms unfolding copy_refs_def Let_def by (auto elim!: go_bind_Ok)
  then have "err = None" by (cases err) (simp_all add: go_fail_def)
  then show ?thesis using IfNecessary_sound run(1,3) copy_attempt_success by metis
qed

text \<open>
  C33: a success is a success of the library. When \<open>Run\<close> ends without an error, both names were
  parsed, the policy was loaded and destroyed without an error, and a call of \<open>copy.Image\<close> with
  them, which removes the signatures of the image, came back without an error.
\<close>

theorem Mirror_Run_success:
  assumes "Mirror_Run lib mc src dest mode opts out w = (Ok (opts', None), w')"
  shows "\<exists>s d pc u ctx co report v v'.
    il_ParseImageName lib src = Inr s \<and> il_ParseImageName lib dest = Inr d \<and>
    GetPolicyContext (il_Policy lib) (co_Global opts) u = Inr pc \<and> il_Destroy lib pc = None \<and>
    mc ctx pc d s co v = (Ok (report, None), v') \<and> cp_RemoveSignatures co"
proof -
  have "Mirror_copy lib mc src dest opts out w = (Ok (), w')"
    using assms by (auto simp: Mirror_Run_def go_try_def go_return_def split: prod.splits res.splits)
  then obtain u pc w1 where u: "GetPolicyContext (il_Policy lib) (co_Global opts) u = Inr pc"
    "destroying lib pc (copy_with_policy lib mc src dest (with_RemoveSignatures opts) out pc) w1 = (Ok (), w')"
    unfolding Mirror_copy_def go_seq_def
    by (auto elim!: go_bind_Ok simp: go_read_def go_fail_def split: sum.splits)
  then obtain w2 where 2: "il_Destroy lib pc = None"
    "copy_with_policy lib mc src dest (with_RemoveSignatures opts) out pc w1 = (Ok (), w2)"
    by (auto simp: destroying_def go_try_def go_fail_def split: prod.splits res.splits option.splits)
  then obtain s d where 3: "il_ParseImageName lib src = Inr s" "il_ParseImageName lib dest = Inr d"
    "copy_refs lib mc (with_RemoveSignatures opts) out pc s d w1 = (Ok (), w2)"
    unfolding copy_with_policy_def or_fail_def
    by (auto elim!: go_bind_Ok simp: go_fail_def go_return_def split: sum.splits)
  have "co_RemoveSignatures (with_RemoveSignatures opts)"
    by (simp add: with_RemoveSignatures_def ParseBool_def)
  then show ?thesis using copy_refs_success [OF 3(3)] 2(1) 3(1,2) u(1) by blast
qed

definition tiny_lib :: "string list \<Rightarrow> go_error option \<Rightarrow> image_lib" where
  "tiny_lib report err =
     \<lparr>il_TransportText = (\<lambda>_. []), il_ParseImageName = Inr,
      il_Policy = \<lparr>pl_DefaultPolicy = \<lambda>_. Inr (LoadedPolicy []),
        pl_NewPolicyFromFile = \<lambda>f _. Inr (LoadedPolicy f), pl_NewPolicyContext = Inr\<rparr>,
      il_Destroy = (\<lambda>_. None), il_isRetryable = (\<lambda>_. False),
      il_copy_Image = (\<lambda>_ _ _ _ _ w. ((report, err), w))\<rparr>"

lemma tiny_lib_writes: "library_writes R (tiny_lib report err)"
  by (simp add: library_writes_def lib_keeps_def tiny_lib_def changes.refl wf.refl)

definition plain_opts :: CopyOptions where
  "plain_opts =
     \<lparr>co_Global = zero_GlobalOptions\<lparr>gl_InsecurePolicy := True\<rparr>, co_Shared = \<lparr>sh_authFilePath = []\<rparr>,
      co_DeprecatedTLSVerify = \<lparr>dt_tlsVerify = absent False\<rparr>, co_SrcImage = zero_imageOptions,
      co_DestImage = zero_imageDestOptions, co_RetryOpts = \<lparr>re_MaxRetry = 0, re_Delay = 0\<rparr>,
      co_AdditionalTags = [], co_RemoveSignatures = False, co_SignByFingerprint = [],
      co_SignBySigstorePrivateKey = [], co_SignPassphraseFile = [], co_SignIdentity = [],
      co_DigestFile = [], co_Format = [], co_All = False, co_MultiArch = [],
      co_PreserveDigests = False, co_EncryptLayer = [], co_EncryptionKeys = [],
      co_DecryptionKeys = [], co_Mode = [], co_Dev = False, co_Destination = [],
      co_UUID = replicate 16 0, co_ImageType = []\<rparr>"

theorem Mirror_Run_success_witness:
  "\<exists>ctx pc co report v v'. CopyImage (tiny_lib [] None) ctx pc ''oci:d'' ''docker://s'' co v =
     (Ok (report, None), v') \<and> cp_RemoveSignatures co"
proof -
  have "fst (Mirror_Run (tiny_lib [] None) (CopyImage (tiny_lib [] None)) ''docker://s'' ''oci:d'' ''copy''
      plain_opts (bufio_NewWriter None) idle_world) = Ok (with_RemoveSignatures plain_opts, None)"
    by code_simp
  then obtain w' where run: "Mirror_Run (tiny_lib [] None) (CopyImage (tiny_lib [] None)) ''docker://s''
      ''oci:d'' ''copy'' plain_opts (bufio_NewWriter None) idle_world =
      (Ok (with_RemoveSignatures plain_opts, None), w')"
    by (metis prod.collapse)
  have "il_ParseImageName (tiny_lib [] None) = Inr" by (simp add: tiny_lib_def)
  then show ?thesis using Mirror_Run_success [OF run] by fastforce
qed

end
