(* ===== verification/Index.thy ===== *)
theory Index
  imports Manifest Mirror
begin

text \<open>
  The collector of pkg/index/list-images.go: it fetches the image of interest into the cache
  unless it is there, and lists what the image says. It is given the manifest and the mirror
  through their interfaces. The options hold what the command line and \<open>Complete\<close> have set; the
  mirror gets them by pointer, so \<open>Run\<close> gives them back.
\<close>

section \<open>Constants\<close>

definition operatorImageDir :: string where "operatorImageDir = ''operator-images''"
definition releaseImageDir :: string where "releaseImageDir = ''release-images''"
definition operatorImageExtractDir :: string where "operatorImageExtractDir = ''hold-operators''"
definition releaseImageExtractDir :: string where "releaseImageExtractDir = ''hold-releases''"
definition blobsDir :: string where "blobsDir = ''blobs/sha256''"
definition errMsg :: string where "errMsg = ''[Collect] %v ''"
definition dockerProtocol :: string where "dockerProtocol = ''docker://''"
definition ociProtocolTrimmed :: string where "ociProtocolTrimmed = ''oci:''"
definition logsFile :: string where "logsFile = ''logs/util.log''"
definition releaseJSONPath :: string where "releaseJSONPath = ''release-manifests/image-references''"
definition releaseManifest :: string where "releaseManifest = ''release-manifests''"

lemmas index_consts = operatorImageDir_def releaseImageDir_def operatorImageExtractDir_def
  releaseImageExtractDir_def blobsDir_def dockerProtocol_def ociProtocolTrimmed_def logsFile_def
  releaseJSONPath_def releaseManifest_def

section \<open>The collector\<close>

record Collector =
  cl_Manifest :: manifest_iface
  cl_Mirror :: mirror_iface
  cl_Opts :: CopyOptions

definition Index_New :: "manifest_iface \<Rightarrow> mirror_iface \<Rightarrow> CopyOptions \<Rightarrow> Collector" where
  "Index_New manifest mirror opts =
     \<lparr>cl_Manifest = manifest, cl_Mirror = mirror, cl_Opts = opts\<rparr>"

lemma Index_New_simps [simp]:
  "cl_Manifest (Index_New m r opts) = m" "cl_Mirror (Index_New m r opts) = r"
  "cl_Opts (Index_New m r opts) = opts"
  by (simp_all add: Index_New_def)

text \<open>The last segment of the reference, its colons turned into slashes.\<close>

definition image_index_dir :: "string \<Rightarrow> string" where
  "image_index_dir reference =
     (let hld = Split reference CHR ''/'' in ReplaceAll (hld ! (length hld - 1)) '':'' ''/'')"

definition dir_path :: "string list \<Rightarrow> string" where
  "dir_path ws = Join ws ''/''"

text \<open>From the copy to the image index, for either kind: the directory, the call of the mirror.\<close>

definition copy_image :: "mirror_iface \<Rightarrow> CopyOptions \<Rightarrow> bufio_Writer \<Rightarrow> string \<Rightarrow> CopyOptions go" where
  "copy_image r opts writer copyDir =
     go_seq (os_MkdirAll copyDir)
    (go_seq (log_Info ''copying %s image '' [FStr (gl_Reference (co_Global opts))])
    (go_bind (mr_Run r (dockerProtocol @ gl_Reference (co_Global opts))
        (ociProtocolTrimmed @ copyDir) ''copy'' opts writer) (\<lambda>(opts1, err).
     go_bind (bw_Flush writer) (\<lambda>_.
     case err of Some e \<Rightarrow> go_fail e | None \<Rightarrow> go_return opts1))))"

text \<open>What is done with the operator image that was copied.\<close>

definition extract_operator :: "manifest_iface \<Rightarrow> CopyOptions \<Rightarrow> string \<Rightarrow> string \<Rightarrow> unit go" where
  "extract_operator m opts copyDir imageIndexDir =
    (let dir = gl_Dir (co_Global opts); ref = gl_Reference (co_Global opts) in
     go_bind (mi_GetImageIndex m copyDir) (\<lambda>oci.
     go_bind (go_lift (deref oci)) (\<lambda>o1.
     if oci_Manifests o1 = [] then go_fail (Errorf ''[Inspect] no manifests found for %s '' [FStr ref])
     else if \<not> Contains (om_Digest (hd (oci_Manifests o1))) ''sha256''
     then go_fail (Errorf ''[Inspect] the digest seems to incorrect for %s '' [FStr ref])
     else
     go_bind (go_lift (digest_hex (om_Digest (hd (oci_Manifests o1))))) (\<lambda>manifest.
     go_seq (log_Info ''manifest %v'' [FStr manifest])
    (go_bind (mi_GetImageManifest m
        (dir_path [dir, operatorImageDir, imageIndexDir, blobsDir, manifest])) (\<lambda>oci2.
     go_bind (go_lift (deref oci2)) (\<lambda>o2.
     go_bind (go_lift (digest_hex (om_Digest (oci_Config o2)))) (\<lambda>config.
     go_bind (mi_GetOperatorConfig m
        (dir_path [dir, operatorImageDir, imageIndexDir, blobsDir, config])) (\<lambda>ocs.
     go_bind (go_lift (deref ocs)) (\<lambda>c.
     let label = ol_OperatorsOperatorframeworkIoIndexConfigsV1 (oc_Labels (ocs_Config c)) in
     go_seq (log_Info ''label %s'' [FStr label])
       (mi_ExtractLayersOCI m (dir_path [dir, operatorImageDir, imageIndexDir, blobsDir])
          (dir_path [dir, operatorImageExtractDir, imageIndexDir]) label oci2)))))))))))"

definition fetch_operator ::
  "Collector \<Rightarrow> bufio_Writer \<Rightarrow> string \<Rightarrow> CopyOptions go" where
  "fetch_operator o' writer imageIndexDir =
    (let opts = cl_Opts o'; dir = gl_Dir (co_Global opts);
         copyDir = dir_path [dir, operatorImageDir, imageIndexDir] in
     go_bind (copy_image (cl_Mirror o') opts writer copyDir) (\<lambda>opts1.
     go_seq (extract_operator (cl_Manifest o') opts1 copyDir imageIndexDir) (go_return opts1)))"

text \<open>One operator: its name, and its catalog; an error is logged and the next one follows.\<close>

definition list_operator :: "manifest_iface \<Rightarrow> string \<Rightarrow> string \<Rightarrow> unit go" where
  "list_operator m configsDir name =
     go_seq (log_Info (esc # ''[1;95m %s '' @ esc # ''[0m'') [FStr name])
       (go_try (mi_ListCatalogs m configsDir name) (\<lambda>r.
          case r of Inl err \<Rightarrow> log_Error ''%v'' [FErr err] | Inr _ \<Rightarrow> go_return ()))"

definition list_operators :: "manifest_iface \<Rightarrow> CopyOptions \<Rightarrow> string \<Rightarrow> string \<Rightarrow> unit go" where
  "list_operators m opts imageIndexDir label =
    (let configsDir = dir_path [gl_Dir (co_Global opts), operatorImageExtractDir, imageIndexDir, label] in
     go_bind (go_read (os_ReadDir configsDir)) (\<lambda>files.
     go_seq (log_Debug ''List channels for %s'' [FStr (gl_Reference (co_Global opts))])
    (go_seq (log_Debug ''List of all operators in %s'' [FStr configsDir])
       (go_for files (list_operator m configsDir)))))"

text \<open>\<open>_, err := os.Stat (p); errors.Is (err, os.ErrNotExist)\<close>\<close>

definition if_missing :: "string \<Rightarrow> 'a go \<Rightarrow> 'a go \<Rightarrow> 'a go" where
  "if_missing p m k = go_bind (go_read (\<lambda>w. Ok (missing p w))) (\<lambda>b. if b then m else k)"

definition collect_operator :: "Collector \<Rightarrow> bufio_Writer \<Rightarrow> string \<Rightarrow> string \<Rightarrow> CopyOptions go" where
  "collect_operator o' writer imageIndexDir label =
    (let opts = cl_Opts o';
         cacheDir = dir_path [gl_Dir (co_Global opts), operatorImageExtractDir, imageIndexDir] in
     go_bind (if_missing cacheDir (fetch_operator o' writer imageIndexDir) (go_return opts)) (\<lambda>opts1.
     go_seq (list_operators (cl_Manifest o') opts1 imageIndexDir label) (go_return opts1)))"

text \<open>The same for a release image.\<close>

definition extract_release :: "manifest_iface \<Rightarrow> CopyOptions \<Rightarrow> string \<Rightarrow> string \<Rightarrow> unit go" where
  "extract_release m opts copyDir imageIndexDir =
    (let dir = gl_Dir (co_Global opts) in
     go_try (mi_GetImageIndex m copyDir) (\<lambda>r.
     case r of
       Inl err \<Rightarrow> go_seq (log_Error ''[Collector] %v '' [FErr err]) (go_fail (Errorf errMsg [FErr err]))
     | Inr oci \<Rightarrow>
     go_bind (go_lift (deref oci)) (\<lambda>o1.
     if oci_Manifests o1 = [] then go_fail (Errorf errMsg [FStr ''image index not found ''])
     else
     go_bind (go_lift (digest_hex (om_Digest (hd (oci_Manifests o1))))) (\<lambda>manifest.
     go_seq (log_Debug ''image index %v'' [FStr manifest])
    (go_try (mi_GetImageManifest m (dir_path [copyDir, blobsDir, manifest])) (\<lambda>r2.
     case r2 of
       Inl err \<Rightarrow> go_fail (Errorf errMsg [FErr err])
     | Inr oci2 \<Rightarrow>
     go_bind (go_lift (deref oci2)) (\<lambda>o2.
     go_seq (log_Debug ''manifest %v '' [FStr (om_Digest (oci_Config o2))])
       (mi_ExtractLayersOCI m (dir_path [dir, releaseImageDir, imageIndexDir, blobsDir])
          (dir_path [dir @ releaseImageExtractDir @ imageIndexDir]) releaseManifest oci2))))))))"

definition fetch_release :: "Collector \<Rightarrow> CopyOptions \<Rightarrow> bufio_Writer \<Rightarrow> string \<Rightarrow> CopyOptions go" where
  "fetch_release o' opts writer imageIndexDir =
    (let dir = gl_Dir (co_Global opts); copyDir = dir_path [dir, releaseImageDir, imageIndexDir] in
     go_bind (copy_image (cl_Mirror o') opts writer copyDir) (\<lambda>opts1.
     go_seq (extract_release (cl_Manifest o') opts1 copyDir imageIndexDir) (go_return opts1)))"

definition list_release :: "manifest_iface \<Rightarrow> CopyOptions \<Rightarrow> string \<Rightarrow> unit go" where
  "list_release m opts imageIndexDir =
    (let artifactsDir = dir_path [gl_Dir (co_Global opts), releaseImageExtractDir, imageIndexDir,
           releaseJSONPath] in
     go_seq (log_Debug ''List release for %s'' [FStr (gl_Reference (co_Global opts))])
    (go_seq (log_Debug ''List of all release artifacts in %s'' [FStr artifactsDir])
    (go_bind (mi_GetReleaseSchema m artifactsDir) (\<lambda>components.
     go_for components (\<lambda>img.
       log_Info (esc # ''[1;95m  %s '' @ esc # ''[0m'') [FStr (ri_Name img)])))))"

definition collect_release :: "Collector \<Rightarrow> CopyOptions \<Rightarrow> bufio_Writer \<Rightarrow> string \<Rightarrow> unit go" where
  "collect_release o' opts writer imageIndexDir =
    (let cacheDir = dir_path [gl_Dir (co_Global opts), releaseImageExtractDir, imageIndexDir] in
     go_bind (if_missing cacheDir (fetch_release o' opts writer imageIndexDir) (go_return opts)) (\<lambda>opts1.
     list_release (cl_Manifest o') opts1 imageIndexDir))"

text \<open>What follows once the log file is open (or could not be opened).\<close>

definition collect_with :: "Collector \<Rightarrow> bufio_Writer \<Rightarrow> unit go" where
  "collect_with o' writer =
    (let opts = cl_Opts o'; label = ''/configs'';
         imageIndexDir = image_index_dir (gl_Reference (co_Global opts)) in
     go_bind (if Contains (gl_ImageIndex (co_Global opts)) ''operator''
              then collect_operator o' writer imageIndexDir label else go_return opts) (\<lambda>opts1.
     if Contains (gl_ImageIndex (co_Global opts1)) ''release''
     then collect_release o' opts1 writer imageIndexDir else go_return ()))"

definition Collector_Collect :: "Collector \<Rightarrow> unit go" where
  "Collector_Collect o' =
     go_try (os_Create logsFile) (\<lambda>r.
       case r of
         Inl err \<Rightarrow> go_seq (log_Error errMsg [FErr err]) (collect_with o' (bufio_NewWriter None))
       | Inr f \<Rightarrow> collect_with o' (bufio_NewWriter (Some f)))"

section \<open>Properties\<close>

lemma failed_attempt:
  assumes "\<And>w. fst (il_copy_Image lib ctx pc d s co w) = (report, Some e)"
    and "length (concat report) \<le> bufio_size"
  shows "copy_attempt (CopyImage lib) ctx pc d s co (bufio_NewWriter f) w =
    (Ok (Some e, (bufio_NewWriter f)\<lparr>bw_buf := concat report\<rparr>), snd (CopyImage lib ctx pc d s co w))"
proof -
  let ?w = "w\<lparr>net := net w @ [(s, d)]\<rparr>"
  have "il_copy_Image lib ctx pc d s co ?w = ((report, Some e), snd (il_copy_Image lib ctx pc d s co ?w))"
    using assms(1) [of ?w] by (simp add: prod_eq_iff)
  then have call: "CopyImage lib ctx pc d s co w = (Ok (report, Some e), snd (CopyImage lib ctx pc d s co w))"
    unfolding CopyImage_world by (subst CopyImage_def) (metis (no_types, lifting) case_prod_conv)
  have "bw_writes report (bufio_NewWriter f) v = (Ok ((bufio_NewWriter f)\<lparr>bw_buf := concat report\<rparr>), v)" for v
    using bw_writes_buffered [of "bufio_NewWriter f" report v] assms(2) by (simp add: bufio_NewWriter_def)
  moreover have "go_bind (CopyImage lib ctx pc d s co) k w =
      k (report, Some e) (snd (CopyImage lib ctx pc d s co w))" for k :: "_ \<Rightarrow> (go_error option \<times> bufio_Writer) go"
    by (rule go_bind_run(1)) (rule call)
  ultimately show ?thesis by (simp add: copy_attempt_def) (simp add: go_bind_def go_return_def)
qed

text \<open>
  C34: the report of a failed copy is lost. The collector gives the mirror its writer by value and
  flushes its own, which stays empty: when the copy fails with an error that is not retried and its
  report fits the buffer of 4096 bytes, nothing is written to the log file (or to any other file but
  what the library itself writes), although the report is there to explain the failure.
\<close>

theorem failed_report_lost:
  assumes "library_writes R lib" "plain copyDir"
    and "\<And>ctx pc d s co w. fst (il_copy_Image lib ctx pc d s co w) = (report, Some e)"
    and "\<not> il_isRetryable lib e" "length (concat report) \<le> bufio_size"
  shows "keeps (changes_only (\<lambda>d q. prefix q (place d copyDir) \<or> lib_region R (ociProtocolTrimmed @ copyDir) d q))
    (copy_image (Mirror_New lib (CopyImage lib)) opts (bufio_NewWriter f) copyDir)"
    (is "keeps (changes_only ?P) _")
proof -
  have loop: "keeps (changes_only ?P) (IfNecessary (il_isRetryable lib) ctx
      (copy_attempt (CopyImage lib) ctx pc r s co) ro (bufio_NewWriter f))"
    if parse: "il_ParseImageName lib (ociProtocolTrimmed @ copyDir) = Inr r" for r s pc ctx co ro
  proof (rule keepsI)
    fix w
    have "keeps (changes_only ?P) (CopyImage lib ctx pc r s co)"
      using CopyImage_changes [OF assms(1) parse] by (rule keeps_changes_mono) blast
    then show "changes_only ?P w (snd (IfNecessary (il_isRetryable lib) ctx
      (copy_attempt (CopyImage lib) ctx pc r s co) ro (bufio_NewWriter f) w))"
      using failed_attempt [OF assms(3,5), of ctx pc r s co] assms(4)
      by (simp add: IfNecessary_def go_bind_def retry_stop keeps_def)
  qed
  have run: "keeps (changes_only ?P) (Mirror_Run lib (CopyImage lib) src (ociProtocolTrimmed @ copyDir) mode
      opts (bufio_NewWriter f))" for src mode
    by (intro changes.keeps_Mirror_Run_policy changes.keeps_copy_with_policy_refs
        changes.keeps_copy_refs_loop loop keeps_same_files_changes println_keeps keeps_log_only logrus_log_only)
  have "bw_Flush (bufio_NewWriter f) = go_return (bufio_NewWriter f)"
    by (rule bw_Flush_empty) (simp add: bufio_NewWriter_def)
  then show ?thesis unfolding copy_image_def Mirror_New_def mirror_iface.simps
    by (auto intro!: changes.keeps_seq changes.keeps_bind changes.keeps_return changes.keeps_fail run
        os_MkdirAll_changes assms(2) log_changes split: option.split)
qed

theorem failed_report_lost_witness:
  "entry (snd (copy_image (Mirror_New (tiny_lib [''unauthorized''] (Some (ErrorString ''no'')))
      (CopyImage (tiny_lib [''unauthorized''] (Some (ErrorString ''no''))))) plain_opts
      (bufio_NewWriter (Some (''log'', [''home'', ''log'']))) ''out''
      (slip_world\<lparr>fs := [([''home''], Dir), ([''home'', ''log''], File [])]\<rparr>))) [''home'', ''log''] =
    Some (File [])"
proof -
  let ?lib = "tiny_lib [''unauthorized''] (Some (ErrorString ''no''))"
  let ?w = "slip_world\<lparr>fs := [([''home''], Dir), ([''home'', ''log''], File [])]\<rparr>"
  have "plain ''out''" by (simp add: plain_def comps_def)
  then have "keeps (changes_only (\<lambda>d q. prefix q (place d ''out'') \<or> lib_region (\<lambda>_ _. False) (ociProtocolTrimmed @ ''out'') d q))
    (copy_image (Mirror_New ?lib (CopyImage ?lib)) plain_opts (bufio_NewWriter (Some (''log'', [''home'', ''log'']))) ''out'')"
    by (rule failed_report_lost [OF tiny_lib_writes, where report = "[''unauthorized'']" and e = "ErrorString ''no''"])
      (simp_all add: tiny_lib_def bufio_size_def)
  moreover have "place (cwd ?w) ''out'' = [''home'', ''out'']"
    "oci_dir (ociProtocolTrimmed @ ''out'') = ''out''" "cwd ?w = [''home'']"
    "entry ?w [''home'', ''log''] = Some (File [])"
    by (simp_all add: place_def HasPrefix_def comps_def slip_world_def oci_dir_def ociProtocolTrimmed_def
        TrimPrefix_def entry_def)
  ultimately show ?thesis by (simp add: keeps_def changes_only_def lib_region_def oci_region_def)
qed

end
