(* ===== verification/Collecting.thy ===== *)
theory Collecting
  imports Index
begin

text \<open>
  What a collection does to the world, proved over the interfaces of the manifest and the mirror
  (the locale \<open>collector\<close>) and carried to the program's own providers by its interpretation:
  where it writes, how often it calls the mirror's library, and that it keeps the file system a tree.
\<close>

section \<open>One walk through the collector\<close>

text \<open>The directories a collection makes, copies to, and extracts to.\<close>

definition copy_dir :: "CopyOptions \<Rightarrow> string \<Rightarrow> string" where
  "copy_dir opts kind =
     dir_path [gl_Dir (co_Global opts), kind, image_index_dir (gl_Reference (co_Global opts))]"

definition operator_extract_dir :: "CopyOptions \<Rightarrow> string" where
  "operator_extract_dir opts = copy_dir opts operatorImageExtractDir"

definition release_extract_dir :: "CopyOptions \<Rightarrow> string" where
  "release_extract_dir opts =
     dir_path [gl_Dir (co_Global opts) @ releaseImageExtractDir @
       image_index_dir (gl_Reference (co_Global opts))]"

text \<open>The image kinds the argument asks for.\<close>

definition asks :: "string \<Rightarrow> CopyOptions \<Rightarrow> bool" where
  "asks kind opts = Contains (gl_ImageIndex (co_Global opts)) kind"

context world_relation
begin

lemma ens_copy_image:
  assumes "keeps R (os_MkdirAll copyDir)" "\<And>f a. keeps R (log_Info f a)"
    and "keeps R (mr_Run r (dockerProtocol @ gl_Reference (co_Global opts))
      (ociProtocolTrimmed @ copyDir) ''copy'' opts writer)"
    and "keeps R (bw_Flush writer)"
    and "\<And>src dest mode w opts' e w'. mr_Run r src dest mode opts writer w = (Ok (opts', e), w') \<Longrightarrow>
      co_Global opts' = co_Global opts"
  shows "keeps_ens R (\<lambda>opts1. co_Global opts1 = co_Global opts) (copy_image r opts writer copyDir)"
proof -
  let ?Q = "\<lambda>(opts1, e :: go_error option). co_Global opts1 = co_Global opts"
  have run: "keeps_ens R ?Q (mr_Run r (dockerProtocol @ gl_Reference (co_Global opts))
      (ociProtocolTrimmed @ copyDir) ''copy'' opts writer)"
    by (rule keeps_ensI [OF assms(3)]) (use assms(5) in auto)
  have flush: "keeps_ens R (\<lambda>_. True) (bw_Flush writer)" by (rule keeps_ensI [OF assms(4)]) simp
  show ?thesis unfolding copy_image_def
    by (intro ens_seq assms(1,2) ens_bind [OF run])
      (auto intro!: ens_bind [OF flush] ens_fail ens_return split: option.splits)
qed

lemma keeps_extract_operator:
  assumes "\<And>f a. keeps R (log_Info f a)" "\<And>d. keeps R (mi_GetImageIndex m d)"
    "\<And>d. keeps R (mi_GetImageManifest m d)" "\<And>d. keeps R (mi_GetOperatorConfig m d)"
    and "\<And>from label oci. keeps R (mi_ExtractLayersOCI m from
      (dir_path [gl_Dir (co_Global opts), operatorImageExtractDir, imageIndexDir]) label oci)"
  shows "keeps R (extract_operator m opts copyDir imageIndexDir)"
  unfolding extract_operator_def Let_def
  by (auto intro!: keeps_bind keeps_seq keeps_lift keeps_fail assms)

lemma keeps_extract_release:
  assumes "\<And>f a. keeps R (log_Debug f a)" "\<And>f a. keeps R (log_Error f a)"
    "\<And>d. keeps R (mi_GetImageIndex m d)" "\<And>d. keeps R (mi_GetImageManifest m d)"
    and "\<And>from label oci. keeps R (mi_ExtractLayersOCI m from
      (dir_path [gl_Dir (co_Global opts) @ releaseImageExtractDir @ imageIndexDir]) label oci)"
  shows "keeps R (extract_release m opts copyDir imageIndexDir)"
  unfolding extract_release_def Let_def
  by (auto intro!: keeps_bind keeps_try keeps_seq keeps_lift keeps_fail assms split: sum.splits)

lemma keeps_list_operators:
  assumes "\<And>f a. keeps R (log_Info f a)" "\<And>f a. keeps R (log_Debug f a)"
    "\<And>f a. keeps R (log_Error f a)" "\<And>d op. keeps R (mi_ListCatalogs m d op)"
  shows "keeps R (list_operators m opts imageIndexDir label)"
  unfolding list_operators_def list_operator_def Let_def
  by (auto intro!: keeps_bind keeps_try keeps_seq keeps_read keeps_for keeps_return assms
      split: sum.splits)

lemma keeps_list_release:
  assumes "\<And>f a. keeps R (log_Info f a)" "\<And>f a. keeps R (log_Debug f a)"
    "\<And>d. keeps R (mi_GetReleaseSchema m d)"
  shows "keeps R (list_release m opts imageIndexDir)"
  unfolding list_release_def Let_def
  by (auto intro!: keeps_bind keeps_seq keeps_for assms)

lemma ens_if_missing:
  "keeps_ens R Q m \<Longrightarrow> keeps_ens R Q k \<Longrightarrow> keeps_ens R Q (if_missing p m k)"
  unfolding if_missing_def
  by (rule ens_bind [where Q = "\<lambda>_. True"]) (auto intro: keeps_ensI keeps_read)

lemma ens_seq_return: "keeps R m \<Longrightarrow> Q a \<Longrightarrow> keeps_ens R Q (go_seq m (go_return a))"
  by (intro ens_seq ens_return)

lemma ens_fetch_operator:
  assumes opts: "cl_Opts o' = opts" and dir: "imageIndexDir = image_index_dir (gl_Reference (co_Global opts))"
    and logs: "\<And>m f a. m \<in> {log_Error, log_Info, log_Debug} \<Longrightarrow> keeps R (m f a)"
    and mkdir: "keeps R (os_MkdirAll (copy_dir opts operatorImageDir))"
    and run: "keeps R (mr_Run (cl_Mirror o') (dockerProtocol @ gl_Reference (co_Global opts))
      (ociProtocolTrimmed @ copy_dir opts operatorImageDir) ''copy'' opts writer)"
    and flush: "keeps R (bw_Flush writer)"
    and globals: "\<And>src dest mode opts w opts' e w'.
      mr_Run (cl_Mirror o') src dest mode opts writer w = (Ok (opts', e), w') \<Longrightarrow>
      co_Global opts' = co_Global opts"
    and reads: "\<And>d. keeps R (mi_GetImageIndex (cl_Manifest o') d)"
      "\<And>d. keeps R (mi_GetImageManifest (cl_Manifest o') d)"
      "\<And>d. keeps R (mi_GetOperatorConfig (cl_Manifest o') d)"
    and extracts: "\<And>from label oci.
      keeps R (mi_ExtractLayersOCI (cl_Manifest o') from (operator_extract_dir opts) label oci)"
  shows "keeps_ens R (\<lambda>opts1. co_Global opts1 = co_Global opts) (fetch_operator o' writer imageIndexDir)"
proof -
  let ?dir = "dir_path [gl_Dir (co_Global opts), operatorImageDir, imageIndexDir]"
  have copy: "keeps_ens R (\<lambda>opts1. co_Global opts1 = co_Global opts)
      (copy_image (cl_Mirror o') opts writer ?dir)"
    by (rule ens_copy_image) (use mkdir run flush globals logs in \<open>auto simp: copy_dir_def dir\<close>)
  have "keeps R (extract_operator (cl_Manifest o') opts1 ?dir imageIndexDir)"
    if "co_Global opts1 = co_Global opts" for opts1
    by (rule keeps_extract_operator)
      (use that reads logs extracts in \<open>simp_all add: operator_extract_dir_def copy_dir_def dir\<close>)
  then show ?thesis unfolding fetch_operator_def Let_def opts
    by (auto intro!: ens_bind [OF copy] ens_seq_return)
qed

lemma ens_fetch_release:
  assumes opts: "co_Global opts1 = co_Global opts"
    and dir: "imageIndexDir = image_index_dir (gl_Reference (co_Global opts))"
    and logs: "\<And>m f a. m \<in> {log_Error, log_Info, log_Debug} \<Longrightarrow> keeps R (m f a)"
    and mkdir: "keeps R (os_MkdirAll (copy_dir opts releaseImageDir))"
    and run: "keeps R (mr_Run (cl_Mirror o') (dockerProtocol @ gl_Reference (co_Global opts))
      (ociProtocolTrimmed @ copy_dir opts releaseImageDir) ''copy'' opts1 writer)"
    and flush: "keeps R (bw_Flush writer)"
    and globals: "\<And>src dest mode opts w opts' e w'.
      mr_Run (cl_Mirror o') src dest mode opts writer w = (Ok (opts', e), w') \<Longrightarrow>
      co_Global opts' = co_Global opts"
    and reads: "\<And>d. keeps R (mi_GetImageIndex (cl_Manifest o') d)"
      "\<And>d. keeps R (mi_GetImageManifest (cl_Manifest o') d)"
    and extracts: "\<And>from label oci.
      keeps R (mi_ExtractLayersOCI (cl_Manifest o') from (release_extract_dir opts) label oci)"
  shows "keeps_ens R (\<lambda>opts2. co_Global opts2 = co_Global opts)
    (fetch_release o' opts1 writer imageIndexDir)"
proof -
  let ?dir = "dir_path [gl_Dir (co_Global opts), releaseImageDir, imageIndexDir]"
  have copy: "keeps_ens R (\<lambda>opts2. co_Global opts2 = co_Global opts1)
      (copy_image (cl_Mirror o') opts1 writer ?dir)"
    by (rule ens_copy_image) (use mkdir run flush globals logs opts in \<open>auto simp: copy_dir_def dir\<close>)
  have "keeps R (extract_release (cl_Manifest o') opts2 ?dir imageIndexDir)"
    if "co_Global opts2 = co_Global opts" for opts2
    by (rule keeps_extract_release)
      (use that reads logs extracts in \<open>simp_all add: release_extract_dir_def dir\<close>)
  then show ?thesis unfolding fetch_release_def Let_def opts
    by (auto intro!: ens_bind [OF copy] ens_seq_return simp: opts)
qed

lemma ens_collect_operator:
  assumes opts: "cl_Opts o' = opts" and dir: "imageIndexDir = image_index_dir (gl_Reference (co_Global opts))"
    and logs: "\<And>m f a. m \<in> {log_Error, log_Info, log_Debug} \<Longrightarrow> keeps R (m f a)"
    and fetch: "keeps_ens R (\<lambda>opts1. co_Global opts1 = co_Global opts)
      (fetch_operator o' writer imageIndexDir)"
    and lists: "\<And>d op. keeps R (mi_ListCatalogs (cl_Manifest o') d op)"
  shows "keeps_ens R (\<lambda>opts1. co_Global opts1 = co_Global opts)
    (collect_operator o' writer imageIndexDir label)"
proof -
  let ?Q = "\<lambda>opts1. co_Global opts1 = co_Global opts"
  have "keeps_ens R ?Q (if_missing p (fetch_operator o' writer imageIndexDir) (go_return opts))" for p
    using fetch by (intro ens_if_missing ens_return) simp_all
  moreover have "keeps R (list_operators (cl_Manifest o') opts1 imageIndexDir label)" for opts1
    by (rule keeps_list_operators) (use logs lists in auto)
  ultimately show ?thesis unfolding collect_operator_def Let_def opts
    by (intro ens_bind [where Q = ?Q]) (auto intro: ens_seq_return)
qed

lemma keeps_collect_with:
  assumes opts: "cl_Opts o' = opts"
    and logs: "\<And>m f a. m \<in> {log_Error, log_Info, log_Debug} \<Longrightarrow> keeps R (m f a)"
    and flush: "keeps R (bw_Flush writer)"
    and globals: "\<And>src dest mode opts w opts' e w'.
      mr_Run (cl_Mirror o') src dest mode opts writer w = (Ok (opts', e), w') \<Longrightarrow>
      co_Global opts' = co_Global opts"
    and reads: "\<And>d. keeps R (mi_GetImageIndex (cl_Manifest o') d)"
      "\<And>d. keeps R (mi_GetImageManifest (cl_Manifest o') d)"
      "\<And>d. keeps R (mi_GetOperatorConfig (cl_Manifest o') d)"
      "\<And>d. keeps R (mi_GetReleaseSchema (cl_Manifest o') d)"
      "\<And>d op. keeps R (mi_ListCatalogs (cl_Manifest o') d op)"
    and operator: "asks ''operator'' opts \<Longrightarrow>
        keeps R (os_MkdirAll (copy_dir opts operatorImageDir))"
      "\<And>src mode o2. asks ''operator'' opts \<Longrightarrow> keeps R (mr_Run (cl_Mirror o') src
        (ociProtocolTrimmed @ copy_dir opts operatorImageDir) mode o2 writer)"
      "\<And>from label oci. asks ''operator'' opts \<Longrightarrow>
        keeps R (mi_ExtractLayersOCI (cl_Manifest o') from (operator_extract_dir opts) label oci)"
    and release: "asks ''release'' opts \<Longrightarrow>
        keeps R (os_MkdirAll (copy_dir opts releaseImageDir))"
      "\<And>src mode o2. asks ''release'' opts \<Longrightarrow> keeps R (mr_Run (cl_Mirror o') src
        (ociProtocolTrimmed @ copy_dir opts releaseImageDir) mode o2 writer)"
      "\<And>from label oci. asks ''release'' opts \<Longrightarrow>
        keeps R (mi_ExtractLayersOCI (cl_Manifest o') from (release_extract_dir opts) label oci)"
  shows "keeps R (collect_with o' writer)"
proof -
  let ?dir = "image_index_dir (gl_Reference (co_Global opts))"
  let ?Q = "\<lambda>opts1. co_Global opts1 = co_Global opts"
  have op: "keeps_ens R ?Q (collect_operator o' writer ?dir ''/configs'')" if "asks ''operator'' opts"
  proof -
    have "keeps_ens R ?Q (fetch_operator o' writer ?dir)"
      by (rule ens_fetch_operator) (use assms that in auto)
    then show ?thesis by (intro ens_collect_operator [OF opts HOL.refl]) (use logs reads in auto)
  qed
  have rel: "keeps R (collect_release o' opts1 writer ?dir)"
    if "asks ''release'' opts" "co_Global opts1 = co_Global opts" for opts1
  proof -
    have "keeps_ens R ?Q (fetch_release o' opts1 writer ?dir)"
      by (rule ens_fetch_release) (use assms that in auto)
    then have "keeps_ens R ?Q (if_missing p (fetch_release o' opts1 writer ?dir) (go_return opts1))" for p
      using that(2) by (intro ens_if_missing ens_return) simp_all
    moreover have "keeps R (list_release (cl_Manifest o') opts2 ?dir)" for opts2
      by (rule keeps_list_release) (use logs reads in auto)
    ultimately show ?thesis unfolding collect_release_def Let_def by (intro keeps_bind_ens)
  qed
  have "keeps_ens R ?Q (if asks ''operator'' opts then collect_operator o' writer ?dir ''/configs''
      else go_return opts)"
    using op by (auto intro: ens_return)
  then show ?thesis unfolding collect_with_def Let_def opts asks_def [symmetric]
    by (rule keeps_bind_ens) (use rel in \<open>auto simp: asks_def keeps_return\<close>)
qed

end

section \<open>Over the interfaces\<close>

interpretation any: world_relation "\<lambda>_ _. True"
  by unfold_locales simp_all

text \<open>Where a collection may write: its log, and what each kind of image copies and extracts.\<close>

definition kind_region ::
  "(string \<Rightarrow> path \<Rightarrow> path \<Rightarrow> bool) \<Rightarrow> string \<Rightarrow> string \<Rightarrow> path \<Rightarrow> path \<Rightarrow> bool" where
  "kind_region region copyDir extractDir d q \<longleftrightarrow>
     prefix q (place d copyDir) \<or> region (ociProtocolTrimmed @ copyDir) d q \<or> around extractDir d q"

definition collect_region ::
  "(string \<Rightarrow> path \<Rightarrow> path \<Rightarrow> bool) \<Rightarrow> CopyOptions \<Rightarrow> path \<Rightarrow> path \<Rightarrow> bool" where
  "collect_region region opts d q \<longleftrightarrow>
     q = place d logsFile \<or>
     asks ''operator'' opts \<and>
       kind_region region (copy_dir opts operatorImageDir) (operator_extract_dir opts) d q \<or>
     asks ''release'' opts \<and>
       kind_region region (copy_dir opts releaseImageDir) (release_extract_dir opts) d q"

lemma logsFile_plain: "plain logsFile"
  by (simp add: plain_def logsFile_def comps_def)

lemma Collect_run:
  "Collector_Collect o' w =
     (case os_Create logsFile w of
        (Ok f, w1) \<Rightarrow> collect_with o' (bufio_NewWriter (Some f)) w1
      | (Err e, w1) \<Rightarrow>
          collect_with o' (bufio_NewWriter None) (snd (log_Error errMsg [FErr e] w1))
      | (Panic x, w1) \<Rightarrow> (Panic x, w1))"
proof -
  have "go_seq (log_Error f a) k w1 = k (snd (log_Error f a w1))" for f a w1 and k :: "unit go"
    using log_methods_Ok(1) [of f a w1]
    by (cases "log_Error f a w1") (simp add: go_seq_def go_bind_def)
  then show ?thesis
    by (auto simp: Collector_Collect_def go_try_def split: prod.split res.split)
qed

context world_relation
begin

lemma keeps_Collect:
  assumes "keeps R (os_Create logsFile)" "\<And>f a. keeps R (log_Error f a)"
    and "\<And>f. keeps R (collect_with o' (bufio_NewWriter f))"
  shows "keeps R (Collector_Collect o')"
  unfolding Collector_Collect_def
  by (rule keeps_try) (auto intro!: keeps_seq assms split: sum.splits)

end

lemma bw_Flush_new: "bw_Flush (bufio_NewWriter f) = go_return (bufio_NewWriter f)"
  by (rule bw_Flush_empty) (simp add: bufio_NewWriter_def)

text \<open>Neither the working directory nor what the system refuses changes.\<close>

definition steady :: "world \<Rightarrow> world \<Rightarrow> bool" where
  "steady w w' \<longleftrightarrow> cwd w' = cwd w \<and> faults w' = faults w"

interpretation steady: world_relation steady
  by unfold_locales (auto simp: steady_def)

lemma keeps_steady: "keeps same_files m \<Longrightarrow> keeps steady m" "keeps dirs_grow m \<Longrightarrow> keeps steady m"
    "keeps (changes_at d P) m \<Longrightarrow> keeps steady m"
  by (auto simp: keeps_def steady_def same_files_def dirs_grow_def changes_at_def)

locale collector = mf: manifest_api m ok + mr: mirror_api r region trusted
  for m ok r region trusted
begin

lemma globals: "mr_Run r src dest mode opts writer w = (Ok (opts', e), w') \<Longrightarrow>
    co_Global opts' = co_Global opts"
  using mr.run_options by blast

lemma collect_wf:
  assumes trusts: trusted
  shows "keeps keeps_wf (Collector_Collect (Index_New m r opts))"
proof (rule wf.keeps_Collect)
  show "keeps keeps_wf (collect_with (Index_New m r opts) (bufio_NewWriter f))" for f
  proof (rule wf.keeps_collect_with [where opts = opts], goal_cases)
    case (3)
    then show ?case by (simp add: bw_Flush_new wf.keeps_return)
  next
    case (4 src dest mode opts w opts' e w')
    then show ?case using globals by simp
  qed (use trusts in \<open>auto simp: mf.reads_keep mf.extract_wf mr.run_wf keeps_intros\<close>)
qed (intro keeps_intros)+

lemma collect_steady:
  assumes trusts: trusted
  shows "keeps steady (Collector_Collect (Index_New m r opts))"
proof (rule steady.keeps_Collect)
  show "keeps steady (collect_with (Index_New m r opts) (bufio_NewWriter f))" for f
  proof (rule steady.keeps_collect_with [where opts = opts], goal_cases)
    case (3)
    then show ?case by (simp add: bw_Flush_new steady.keeps_return)
  next
    case (4 src dest mode opts w opts' e w')
    then show ?case using globals by simp
  next
    case (11 src mode o2)
    show ?case unfolding Index_New_simps
      by (rule keeps_steady(3) [OF mr.run_changes [OF trusts, where P = "\<lambda>_. True"]])
        (simp_all add: writes_in_def split: option.split)
  next
    case (14 src mode o2)
    show ?case unfolding Index_New_simps
      by (rule keeps_steady(3) [OF mr.run_changes [OF trusts, where P = "\<lambda>_. True"]])
        (simp_all add: writes_in_def split: option.split)
  qed (auto intro: keeps_steady(1) keeps_steady(2) mf.reads_keep mf.extract_dirs log_same_files
      os_MkdirAll_dirs)
qed (intro keeps_steady(1) log_same_files keeps_steady(2) os_Create_dirs)+

lemma collect_keeps_dir:
  assumes trusts: trusted
    and "asks ''operator'' opts \<Longrightarrow> \<not> region (ociProtocolTrimmed @ copy_dir opts operatorImageDir) d q"
    and "asks ''release'' opts \<Longrightarrow> \<not> region (ociProtocolTrimmed @ copy_dir opts releaseImageDir) d q"
  shows "keeps (keeps_dir d q) (Collector_Collect (Index_New m r opts))"
proof (rule stays_dir.keeps_Collect)
  show "keeps (keeps_dir d q) (collect_with (Index_New m r opts) (bufio_NewWriter f))" for f
  proof (rule stays_dir.keeps_collect_with [where opts = opts], goal_cases)
    case (3)
    then show ?case by (simp add: bw_Flush_new stays_dir.keeps_return)
  next
    case (4 src dest mode opts w opts' e w')
    then show ?case using globals by simp
  next
    case (11 src mode o2)
    then show ?case unfolding Index_New_simps by (intro mr.run_dir [OF trusts] assms(2))
  next
    case (14 src mode o2)
    then show ?case unfolding Index_New_simps by (intro mr.run_dir [OF trusts] assms(3))
  qed (auto intro: same_files_keeps_dir dirs_keeps_dir mf.reads_keep mf.extract_dirs log_same_files
      os_MkdirAll_dirs)
qed (intro same_files_keeps_dir log_same_files dirs_keeps_dir os_Create_dirs)+

lemma collect_changes:
  assumes trusts: trusted and "asks ''operator'' opts \<Longrightarrow>
      plain (copy_dir opts operatorImageDir) \<and> ok (operator_extract_dir opts)"
    and "asks ''release'' opts \<Longrightarrow>
      plain (copy_dir opts releaseImageDir) \<and> ok (release_extract_dir opts)"
  shows "keeps (changes_only (collect_region region opts)) (Collector_Collect (Index_New m r opts))"
proof (rule keepsI)
  fix w
  let ?P = "collect_region region opts" and ?o = "Index_New m r opts"
  have rest: "keeps (changes_at d (?P d)) (collect_with ?o (bufio_NewWriter f))"
    if f: "\<And>h. f = Some h \<Longrightarrow> snd h = place d logsFile" for d f
  proof (rule changes_at.keeps_collect_with [where opts = opts], goal_cases)
    case (2 m f a)
    then show ?case by (auto intro: same_files_at log_same_files)
  next
    case 3
    then show ?case by (simp add: bw_Flush_new changes_at.keeps_return)
  next
    case (4 src dest mode opts w opts' e w')
    then show ?case using globals by simp
  next
    case 10
    show ?case by (rule keeps_changes_at [OF os_MkdirAll_changes])
      (use assms(2) 10 in \<open>auto simp: collect_region_def kind_region_def\<close>)
  next
    case (11 src mode o2)
    show ?case unfolding Index_New_simps
      by (rule mr.run_changes [OF trusts])
        (use 11 f in \<open>auto simp: collect_region_def kind_region_def writes_in_def
          bufio_NewWriter_def split: option.splits\<close>)
  next
    case (12 from_dir label oci)
    then have "ok (operator_extract_dir opts)" using assms(2) by blast
    then show ?case unfolding Index_New_simps
      by (rule keeps_changes_at [OF mf.extract_confined])
        (use 12 in \<open>simp add: collect_region_def kind_region_def\<close>)
  next
    case 13
    show ?case by (rule keeps_changes_at [OF os_MkdirAll_changes])
      (use assms(3) 13 in \<open>auto simp: collect_region_def kind_region_def\<close>)
  next
    case (14 src mode o2)
    show ?case unfolding Index_New_simps
      by (rule mr.run_changes [OF trusts])
        (use 14 f in \<open>auto simp: collect_region_def kind_region_def writes_in_def
          bufio_NewWriter_def split: option.splits\<close>)
  next
    case (15 from_dir label oci)
    then have "ok (release_extract_dir opts)" using assms(3) by blast
    then show ?case unfolding Index_New_simps
      by (rule keeps_changes_at [OF mf.extract_confined])
        (use 15 in \<open>simp add: collect_region_def kind_region_def\<close>)
  qed (simp_all add: mf.reads_keep same_files_at)
  have at: "changes_only ?P v (snd (collect_with ?o (bufio_NewWriter f) v))"
    if "\<And>h. f = Some h \<Longrightarrow> snd h = place (cwd v) logsFile" for f v
  proof -
    have "changes_at (cwd v) (?P (cwd v)) v (snd (collect_with ?o (bufio_NewWriter f) v))"
      using rest [of f "cwd v"] that by (simp add: keeps_def)
    then show ?thesis by (simp add: changes_at_def changes_only_def)
  qed
  obtain r w1 where create: "os_Create logsFile w = (r, w1)" by fastforce
  have "keeps (changes_only ?P) (os_Create logsFile)"
    by (rule os_Create_changes [OF logsFile_plain]) (simp add: collect_region_def)
  then have 1: "changes_only ?P w w1" using create by (rule keepsD)
  show "changes_only ?P w (snd (Collector_Collect ?o w))"
  proof (cases r)
    case (Ok f)
    then obtain q where "f = (logsFile, q)" "locate w logsFile = Inr q" "w1 = set_entry q (File []) w"
      using os_Create_Ok create by blast
    then have "snd f = place (cwd w1) logsFile" using locate_plain [OF logsFile_plain] by simp
    then show ?thesis using changes.trans [OF 1 at [of "Some f" w1]] Ok create
      by (simp add: Collect_run)
  next
    case (Err e)
    have "changes_only ?P w1 (snd (log_Error errMsg [FErr e] w1))"
      using log_same_files(1) by (simp add: keeps_def same_files_changes)
    then show ?thesis using changes.trans [OF changes.trans [OF 1] at [of None]] Err create
      by (simp add: Collect_run)
  next
    case (Panic x)
    then show ?thesis using 1 create by (simp add: Collect_run)
  qed
qed

text \<open>The calls of the library are those of the one run of the mirror.\<close>

lemma extract_operator_no_copies: "keeps no_copies (extract_operator m opts copyDir dir)"
  by (rule no_copies.keeps_extract_operator) (intro keeps_intros mf.reads_keep mf.extract_no_copies)+

lemma extract_release_no_copies: "keeps no_copies (extract_release m opts copyDir dir)"
  by (rule no_copies.keeps_extract_release) (intro keeps_intros mf.reads_keep mf.extract_no_copies)+

lemma list_operators_no_copies: "keeps no_copies (list_operators m opts dir label)"
  by (rule no_copies.keeps_list_operators) (intro keeps_intros mf.reads_keep)+

lemma list_release_no_copies: "keeps no_copies (list_release m opts dir)"
  by (rule no_copies.keeps_list_release) (intro keeps_intros mf.reads_keep)+

lemma copy_image_calls:
  assumes trusts: trusted
  shows "length (net (snd (copy_image r opts (bufio_NewWriter f) copyDir w)))
     \<le> length (net w) + Suc (nat (re_MaxRetry (co_RetryOpts opts)))"
  unfolding copy_image_def go_seq_def
proof (rule net_bind_quiet [OF os_MkdirAll_no_copies], rule net_bind_quiet [OF log_no_copies(2)],
    rule net_quiet_bind [OF _ mr.run_calls [OF trusts]])
  fix p :: "CopyOptions \<times> go_error option"
  show "keeps no_copies (case p of (opts1, err) \<Rightarrow> go_bind (bw_Flush (bufio_NewWriter f))
      (\<lambda>_. case err of None \<Rightarrow> go_return opts1 | Some e \<Rightarrow> go_fail e))"
    by (auto simp: bw_Flush_new intro!: no_copies.keeps_return no_copies.keeps_fail
        split: prod.split option.split)
qed

lemma fetch_calls:
  assumes trusts: trusted
  shows "length (net (snd (fetch_operator (Index_New m r opts) (bufio_NewWriter f) dir w)))
     \<le> length (net w) + Suc (nat (re_MaxRetry (co_RetryOpts opts)))"
    and "length (net (snd (fetch_release (Index_New m r opts) opts (bufio_NewWriter f) dir w)))
     \<le> length (net w) + Suc (nat (re_MaxRetry (co_RetryOpts opts)))"
  unfolding fetch_operator_def fetch_release_def Let_def Index_New_simps
  by (intro net_quiet_bind copy_image_calls [OF trusts] no_copies.keeps_seq no_copies.keeps_return
      extract_operator_no_copies extract_release_no_copies)+

lemma if_missing_calls:
  assumes "length (net (snd (n w))) \<le> length (net w) + k"
  shows "length (net (snd (if_missing p n (go_return a) w))) \<le> length (net w) + k"
  using assms by (simp add: if_missing_def go_bind_def go_read_def go_return_def)

lemma fetch_if_missing_calls:
  assumes trusted
  shows "length (net (snd (if_missing p (fetch_operator (Index_New m r opts) (bufio_NewWriter f) dir)
       (go_return opts1) w))) \<le> length (net w) + Suc (nat (re_MaxRetry (co_RetryOpts opts)))"
    and "length (net (snd (if_missing p (fetch_release (Index_New m r opts) opts (bufio_NewWriter f) dir)
       (go_return opts1) w))) \<le> length (net w) + Suc (nat (re_MaxRetry (co_RetryOpts opts)))"
  by (rule if_missing_calls, rule fetch_calls [OF assms])+

lemma collect_operator_globals:
  "collect_operator (Index_New m r opts) (bufio_NewWriter f)
     (image_index_dir (gl_Reference (co_Global opts))) label w = (Ok opts1, w') \<Longrightarrow>
   co_Global opts1 = co_Global opts"
proof (rule keeps_ensD(2) [of "\<lambda>_ _. True" "\<lambda>opts1. co_Global opts1 = co_Global opts"])
  show "keeps_ens (\<lambda>_ _. True) (\<lambda>opts1. co_Global opts1 = co_Global opts)
      (collect_operator (Index_New m r opts) (bufio_NewWriter f)
        (image_index_dir (gl_Reference (co_Global opts))) label)"
    by (intro any.ens_collect_operator any.ens_fetch_operator)
      (auto simp: keeps_def dest: globals)
qed

lemma collect_with_calls:
  assumes trusts: trusted and "\<not> (asks ''operator'' opts \<and> asks ''release'' opts)"
  shows "length (net (snd (collect_with (Index_New m r opts) (bufio_NewWriter f) w)))
     \<le> length (net w) + Suc (nat (re_MaxRetry (co_RetryOpts opts)))"
proof -
  let ?o = "Index_New m r opts" and ?b = "bufio_NewWriter f"
  let ?dir = "image_index_dir (gl_Reference (co_Global opts))"
  let ?n = "Suc (nat (re_MaxRetry (co_RetryOpts opts)))"
  have op: "length (net (snd (collect_operator ?o ?b ?dir label w))) \<le> length (net w) + ?n" for label
    unfolding collect_operator_def Let_def
    using fetch_if_missing_calls(1) [OF trusts]
    by (intro net_quiet_bind no_copies.keeps_seq no_copies.keeps_return)
      (simp_all add: list_operators_no_copies)
  have rel: "length (net (snd (collect_release ?o opts ?b ?dir w))) \<le> length (net w) + ?n" for w
    unfolding collect_release_def Let_def
    using fetch_if_missing_calls(2) [OF trusts]
    by (intro net_quiet_bind) (simp_all add: list_release_no_copies)
  show ?thesis
  proof (cases "asks ''operator'' opts")
    case True
    obtain r1 w1 where 1: "collect_operator ?o ?b ?dir ''/configs'' w = (r1, w1)" by fastforce
    then have "length (net w1) \<le> length (net w) + ?n" using op [of "''/configs''"] by simp
    moreover have "\<not> Contains (gl_ImageIndex (co_Global opts1)) ''release''" if "r1 = Ok opts1" for opts1
      using collect_operator_globals 1 that assms(2) True by (auto simp: asks_def)
    ultimately show ?thesis using 1 True unfolding collect_with_def Let_def asks_def
      by (cases r1) (simp_all add: go_bind_def go_return_def)
  next
    case False
    then show ?thesis using rel [of w] unfolding collect_with_def Let_def asks_def
      by (auto simp: go_bind_def go_return_def)
  qed
qed

lemma collect_calls:
  assumes trusted "\<not> (asks ''operator'' opts \<and> asks ''release'' opts)"
  shows "length (net (snd (Collector_Collect (Index_New m r opts) w)))
     \<le> length (net w) + Suc (nat (re_MaxRetry (co_RetryOpts opts)))"
proof -
  obtain r1 w1 where 1: "os_Create logsFile w = (r1, w1)" by fastforce
  then have w1: "net w1 = net w" using keeps_no_copies_net [OF os_Create_no_copies, of logsFile w] by simp
  have "length (net (snd (collect_with (Index_New m r opts) (bufio_NewWriter None)
      (snd (log_Error f a w1))))) \<le> length (net w) + Suc (nat (re_MaxRetry (co_RetryOpts opts)))" for f a
    using collect_with_calls [OF assms, of None "snd (log_Error f a w1)"]
      keeps_no_copies_net [OF log_no_copies(1), of f a w1] w1 by simp
  then show ?thesis using 1 w1 collect_with_calls [OF assms, of _ w1]
    by (cases r1) (simp_all add: Collect_run)
qed

end

interpretation imageindex: collector "Manifest_New gz" "extract_ok gz"
  "Mirror_New lib (CopyImage lib)" "lib_region R" "library_writes R lib" for gz lib R
  by unfold_locales

end
