(* ===== verification/Cache.thy ===== *)
theory Cache
  imports Collecting
begin

text \<open>
  What a collection finds in the cache, and what it can put there: the listing of the operators
  when their catalogs are in the cache, and the release cache, which no collection fills.
\<close>

section \<open>Reading depends on the files only\<close>

lemma sys_at_same_files: "same_files w w' \<Longrightarrow> sys_at op verb p w' = sys_at op verb p w"
  using locate_same_files [of w w' p]
  by (simp add: sys_at_def same_files_def split: sum.split option.split)

lemma os_ReadFile_same_files: "same_files w w' \<Longrightarrow> os_ReadFile p w' = os_ReadFile p w"
  by (simp add: os_ReadFile_def os_Open_def sys_at_same_files same_files_entry split: sum.split)

lemma readOperatorCatalog_run:
  "readOperatorCatalog path w =
     (case os_ReadFile (path @ ''/'' @ catalogJson) w of
        Ok data \<Rightarrow> (json_Unmarshal (dec_slice ''[]v1alpha3.DeclarativeConfig'' dec_DeclarativeConfig
            zero_DeclarativeConfig) (catalog_json_text data) [], w)
      | Err e \<Rightarrow> (Err e, w) | Panic x \<Rightarrow> (Panic x, w))"
  by (simp add: readOperatorCatalog_def read_then unmarshal_go_run split: res.split)

lemma readOperatorCatalog_same_files:
  "same_files w w' \<Longrightarrow> fst (readOperatorCatalog path w') = fst (readOperatorCatalog path w)"
  by (simp add: readOperatorCatalog_run os_ReadFile_same_files split: res.split)

lemma same_files_stderr [simp]: "same_files w (w\<lparr>stderr := x\<rparr>)"
  by (simp add: same_files_def)

section \<open>The listing of the operators\<close>

definition error_line :: "string \<Rightarrow> string" where
  "error_line msg = esc # ''[1;91m [ERROR] '' @ esc # ''[0m : '' @ msg"

lemma Sprintf_error:
  "Sprintf (esc # ''[1;91m [%s] '' @ esc # ''[0m : %s'') [FStr ''ERROR'', FStr m] = error_line m"
  by (simp add: fmt_verb_def fmt_extra_def error_line_def esc_def)

lemma log_Error_run:
  "log_Error f a w = (Ok (), w\<lparr>stderr := stderr w @ [error_line (Sprintf f a)]\<rparr>)"
  by (simp only: log_Error_def simple_Error_def log_Printf_def Sprintf_error)

text \<open>
  The lines about one operator: its name, then its catalog or the error of reading it. The levels
  that do not log what is at the level info leave only the error.
\<close>

definition operator_report :: "world \<Rightarrow> string \<Rightarrow> string \<Rightarrow> string list" where
  "operator_report w configsDir name =
     (if info_on w then [info_line (esc # ''[1;95m '' @ name @ '' '' @ esc # ''[0m'')] else []) @
     (case fst (readOperatorCatalog (configsDir @ ''/'' @ name) w) of
        Ok olm \<Rightarrow> if info_on w then map info_line (concat (map config_lines olm)) else []
      | Err e \<Rightarrow> [error_line (err_text e)]
      | Panic x \<Rightarrow> [])"

lemma operator_report_same_files:
  "same_files w w' \<Longrightarrow> level w' = level w \<Longrightarrow> operator_report w' d name = operator_report w d name"
proof -
  assume same: "same_files w w'" "level w' = level w"
  then have "info_on w' = info_on w" by (simp add: info_on_def)
  then show ?thesis using readOperatorCatalog_same_files [OF same(1)]
    by (simp add: operator_report_def split: res.split)
qed

lemma Sprintf_v: "Sprintf ''%v'' [FErr e] = err_text e"
  by (simp add: fmt_verb_def fmt_extra_def)

lemma list_operator_run:
  "list_operator (Manifest_New gz) configsDir name w =
    (Ok (), w\<lparr>stderr := stderr w @ operator_report w configsDir name\<rparr>)"
proof -
  define msg where "msg = esc # ''[1;95m '' @ name @ '' '' @ esc # ''[0m''"
  define r where "r = fst (readOperatorCatalog (configsDir @ ''/'' @ name) w)"
  define title where "title = (if info_on w then [info_line msg] else [])"
  let ?w1 = "w\<lparr>stderr := stderr w @ title\<rparr>"
  have "emits [msg] (log_Info (esc # ''[1;95m %s '' @ esc # ''[0m'') [FStr name])"
    unfolding msg_def by (rule emits_line) (simp add: fmt_verb_def fmt_extra_def esc_def)
  then have 1: "log_Info (esc # ''[1;95m %s '' @ esc # ''[0m'') [FStr name] w = (Ok (), ?w1)"
    by (simp add: emits_def title_def)
  have same: "fst (readOperatorCatalog p ?w1) = fst (readOperatorCatalog p w)" for p
    by (rule readOperatorCatalog_same_files) simp
  have on: "info_on ?w1 = info_on w" by (simp add: info_on_def)
  have cat: "mi_ListCatalogs (Manifest_New gz) configsDir name ?w1 =
     (case r of
        Ok olm \<Rightarrow> (Ok (), ?w1\<lparr>stderr := stderr ?w1 @
          (if info_on w then map info_line (concat (map config_lines olm)) else [])\<rparr>)
      | Err e \<Rightarrow> (Err e, ?w1) | Panic x \<Rightarrow> (Panic x, ?w1))"
    by (simp only: r_def Manifest_New_def manifest_iface.simps ListCatalogs_run same on)
  have report: "operator_report w configsDir name = title @
     (case r of Ok olm \<Rightarrow> if info_on w then map info_line (concat (map config_lines olm)) else []
      | Err e \<Rightarrow> [error_line (err_text e)] | Panic x \<Rightarrow> [])"
    by (simp only: operator_report_def msg_def r_def title_def)
  have start: "list_operator (Manifest_New gz) configsDir name w =
     go_try (mi_ListCatalogs (Manifest_New gz) configsDir name)
       (\<lambda>r. case r of Inl err \<Rightarrow> log_Error ''%v'' [FErr err] | Inr _ \<Rightarrow> go_return ()) ?w1"
    unfolding list_operator_def go_seq_def by (rule go_bind_run(1)) (rule 1)
  have "r \<noteq> Panic x" for x
    using readers_safe(5) [of "configsDir @ ''/'' @ name"] by (simp add: no_panic_def r_def)
  then show ?thesis unfolding start report
    by (cases r) (simp_all add: go_try_def cat go_return_def log_Error_run Sprintf_v del: Sprintf.simps, blast)
qed

lemma list_operators_loop:
  "go_for files (list_operator (Manifest_New gz) configsDir) w =
    (Ok (), w\<lparr>stderr := stderr w @ concat (map (operator_report w configsDir) files)\<rparr>)"
proof (induction files arbitrary: w)
  case (Cons name files)
  let ?w1 = "w\<lparr>stderr := stderr w @ operator_report w configsDir name\<rparr>"
  have "operator_report ?w1 configsDir = operator_report w configsDir"
    by (rule ext) (simp add: operator_report_same_files)
  then show ?case using Cons.IH [of ?w1] list_operator_run by (simp add: go_bind_def)
qed (simp add: go_return_def)

text \<open>Before the operators, a listing logs two lines at the level debug.\<close>

lemma list_operators_run:
  assumes "os_ReadDir (dir_path [gl_Dir (co_Global opts), operatorImageExtractDir, dir, label]) w = Ok files"
  shows "\<exists>ls. list_operators (Manifest_New gz) opts dir label w =
    (Ok (), w\<lparr>stderr := stderr w @ ls @ concat (map (operator_report w
      (dir_path [gl_Dir (co_Global opts), operatorImageExtractDir, dir, label])) files)\<rparr>)"
proof -
  let ?d = "dir_path [gl_Dir (co_Global opts), operatorImageExtractDir, dir, label]"
  let ?m = "go_seq (log_Debug ''List channels for %s'' [FStr (gl_Reference (co_Global opts))])
    (log_Debug ''List of all operators in %s'' [FStr ?d])"
  have read: "go_bind (go_read (os_ReadDir ?d)) k w = k files w" for k :: "string list \<Rightarrow> unit go"
    using assms by (simp add: go_bind_def go_read_def)
  have keeps: "keeps log_only ?m" by (intro log_only.keeps_seq log_appends)
  have "fst (?m w) = Ok ()"
    using log_methods_Ok(3) by (simp add: go_seq_def go_bind_def split: prod.split res.split)
      (metis fst_conv res.distinct(1) res.distinct(3))
  then obtain w1 where m: "?m w = (Ok (), w1)" by (metis prod.collapse)
  obtain ls where ls: "w1 = w\<lparr>stderr := stderr w @ ls\<rparr>" using keepsD [OF keeps m] by (auto simp: log_only_def)
  have "operator_report w1 = operator_report w"
    by (intro ext) (simp add: operator_report_same_files ls)
  moreover have "list_operators (Manifest_New gz) opts dir label w =
      go_seq ?m (go_for files (list_operator (Manifest_New gz) ?d)) w"
    using read unfolding list_operators_def Let_def go_seq_assoc by simp
  then have "list_operators (Manifest_New gz) opts dir label w =
      go_for files (list_operator (Manifest_New gz) ?d) w1"
    using m by (simp add: go_seq_def go_bind_def)
  ultimately show ?thesis by (intro exI [of _ ls]) (simp add: list_operators_loop ls)
qed

section \<open>A release image is never found in the cache\<close>

text \<open>Without the file of the release the schema is not read.\<close>

lemma GetReleaseSchema_missing:
  assumes "\<not> is_ok (os_ReadFile p w)"
  shows "GetReleaseSchema p w = (Err bad_end, w)"
proof (cases "os_ReadFile p w")
  case (Err e)
  then show ?thesis by (simp add: GetReleaseSchema_def go_defs unmarshal_go_def)
next
  case (Panic x)
  then show ?thesis using os_ReadFile_no_panic [of p w] by simp
qed (use assms in simp)

lemma Split_prefix:
  "c \<notin> set p \<Longrightarrow> Split (p @ s) c = (p @ hd (Split s c)) # tl (Split s c)"
  by (induction p) auto

lemma list_release_needs_file:
  assumes "list_release (Manifest_New gz) opts dir w = (Ok (), w')"
  shows "\<exists>s w1. same_files w w1 \<and> os_ReadFile (dir_path [gl_Dir (co_Global opts),
      releaseImageExtractDir, dir, releaseJSONPath]) w1 = Ok s"
proof -
  let ?p = "dir_path [gl_Dir (co_Global opts), releaseImageExtractDir, dir, releaseJSONPath]"
  obtain w1 w2 as w3 where run: "log_Debug ''List release for %s'' [FStr (gl_Reference (co_Global opts))] w = (Ok (), w1)"
    "log_Debug ''List of all release artifacts in %s'' [FStr ?p] w1 = (Ok (), w2)"
    "GetReleaseSchema ?p w2 = (Ok as, w3)"
    using assms unfolding list_release_def Let_def go_seq_def
    by (elim go_bind_Ok) (simp add: Manifest_New_def)
  have "same_files w w2"
    using keepsD [OF log_same_files(3) run(1)] keepsD [OF log_same_files(3) run(2)]
    by (rule same_files.trans)
  moreover have "\<exists>s. os_ReadFile ?p w2 = Ok s"
    using run(3) GetReleaseSchema_missing [of ?p w2] by (fastforce simp: is_ok_iff)
  ultimately show ?thesis by blast
qed

text \<open>
  The places of the release cache. The extraction goes to a directory whose name is the working
  directory's run together with the cache's: it is beside the working directory, not in it.
\<close>

lemma comps_below: "comps (a @ CHR ''/'' # b @ CHR ''/'' # c) = comps a @ comps b @ comps c"
  by (simp add: comps_append_slash)

lemma comps_dir_path3: "comps (dir_path [a, b, c]) = comps a @ comps b @ comps c"
  by (simp add: dir_path_def comps_append_slash)

lemma place_relative: "\<not> HasPrefix p ''/'' \<Longrightarrow> place d p = d @ comps p"
  by (simp add: place_def)

definition in_working_dir :: "CopyOptions \<Rightarrow> bool" where
  "in_working_dir opts \<longleftrightarrow> gl_Dir (co_Global opts) = ''working-dir''"

lemma place_copy_dir:
  "in_working_dir opts \<Longrightarrow> CHR ''/'' \<notin> set kind \<Longrightarrow> kind \<noteq> [] \<Longrightarrow> kind \<noteq> ''.'' \<Longrightarrow>
     place d (copy_dir opts kind) =
       d @ [''working-dir'', kind] @ comps (image_index_dir (gl_Reference (co_Global opts)))"
  by (simp add: place_def HasPrefix_def copy_dir_def comps_dir_path3 in_working_dir_def comps_single)
    (simp add: dir_path_def)

lemma comps_release_extract:
  assumes "in_working_dir opts"
  obtains a cs where "comps (release_extract_dir opts) = (''working-dirhold-releases'' @ a) # cs"
    "set cs \<subseteq> set (comps (image_index_dir (gl_Reference (co_Global opts))))"
proof -
  let ?i = "image_index_dir (gl_Reference (co_Global opts))"
  have "release_extract_dir opts = ''working-dirhold-releases'' @ ?i"
    using assms by (simp add: release_extract_dir_def dir_path_def in_working_dir_def
        releaseImageExtractDir_def)
  moreover have "CHR ''/'' \<notin> set ''working-dirhold-releases''" by simp
  ultimately have "Split (release_extract_dir opts) CHR ''/'' =
      (''working-dirhold-releases'' @ hd (Split ?i CHR ''/'')) # tl (Split ?i CHR ''/'')"
    by (metis Split_prefix)
  then have "comps (release_extract_dir opts) = (''working-dirhold-releases'' @ hd (Split ?i CHR ''/'')) #
      filter (\<lambda>c. c \<noteq> [] \<and> c \<noteq> ''.'') (tl (Split ?i CHR ''/''))"
    by (simp add: comps_def)
  moreover have "set (tl (Split ?i CHR ''/'')) \<subseteq> set (Split ?i CHR ''/'')"
    by (cases "Split ?i CHR ''/''") auto
  then have "set (filter (\<lambda>c. c \<noteq> [] \<and> c \<noteq> ''.'') (tl (Split ?i CHR ''/''))) \<subseteq> set (comps ?i)"
    by (auto simp: comps_def)
  ultimately show ?thesis by (rule that)
qed

lemma release_extract_plain:
  assumes "in_working_dir opts" "plain (image_index_dir (gl_Reference (co_Global opts)))"
  shows "plain (release_extract_dir opts)" "release_extract_dir opts \<noteq> []"
proof -
  obtain a cs where c: "comps (release_extract_dir opts) = (''working-dirhold-releases'' @ a) # cs"
    "set cs \<subseteq> set (comps (image_index_dir (gl_Reference (co_Global opts))))"
    using comps_release_extract [OF assms(1)] .
  then show "plain (release_extract_dir opts)" using assms(2) by (auto simp: plain_def)
  show "release_extract_dir opts \<noteq> []" using c(1) by (auto simp: comps_def)
qed

lemma place_release_extract:
  assumes "in_working_dir opts"
  obtains a cs where "place d (release_extract_dir opts) = d @ (''working-dirhold-releases'' @ a) # cs"
proof -
  have "\<not> HasPrefix (release_extract_dir opts) ''/''"
    using assms by (simp add: release_extract_dir_def dir_path_def in_working_dir_def HasPrefix_def)
  then show ?thesis using comps_release_extract [OF assms] that by (metis place_relative)
qed

lemma image_index_dir_no_colon: "CHR '':'' \<notin> set (image_index_dir ref)"
  unfolding image_index_dir_def Let_def by (rule ReplaceAll_char_gone) simp

lemma oci_dir_oci: "CHR '':'' \<notin> set p \<Longrightarrow> oci_dir (ociProtocolTrimmed @ p) = p"
  by (simp only: oci_dir_def ociProtocolTrimmed_def TrimPrefix_append) (auto simp: takeWhile_eq_all_conv)

lemma copy_dir_no_colon:
  "in_working_dir opts \<Longrightarrow> CHR '':'' \<notin> set kind \<Longrightarrow> CHR '':'' \<notin> set (copy_dir opts kind)"
  using image_index_dir_no_colon by (simp add: copy_dir_def dir_path_def in_working_dir_def)

lemma release_cache_outside:
  assumes "in_working_dir opts" "\<not> asks ''operator'' opts"
  shows "\<not> collect_region (lib_region elsewhere) opts d (place d (copy_dir opts releaseImageExtractDir))"
proof -
  let ?i = "comps (image_index_dir (gl_Reference (co_Global opts)))"
  have cache: "place d (copy_dir opts releaseImageExtractDir) = d @ [''working-dir'', ''hold-releases''] @ ?i"
    using place_copy_dir [OF assms(1), of releaseImageExtractDir d]
    by (simp add: releaseImageExtractDir_def)
  have copy: "place d (copy_dir opts releaseImageDir) = d @ [''working-dir'', ''release-images''] @ ?i"
    using place_copy_dir [OF assms(1), of releaseImageDir d] by (simp add: releaseImageDir_def)
  have oci: "oci_dir (ociProtocolTrimmed @ copy_dir opts releaseImageDir) = copy_dir opts releaseImageDir"
    by (rule oci_dir_oci) (rule copy_dir_no_colon [OF assms(1)], simp add: releaseImageDir_def)
  have log: "place d logsFile = d @ [''logs'', ''util.log'']"
    by (simp add: place_def HasPrefix_def logsFile_def comps_def)
  obtain a cs where ext: "place d (release_extract_dir opts) = d @ (''working-dirhold-releases'' @ a) # cs"
    using place_release_extract [OF assms(1)] .
  show ?thesis
    using assms(2) by (simp add: collect_region_def kind_region_def around_def lib_region_def oci_region_def
        program_place_def oci cache copy ext log)
qed

text \<open>A collection for a release that succeeds has read the file of the release.\<close>

lemma collect_release_globals:
  assumes "collect_release (Index_New (Manifest_New gz) (Mirror_New lib (CopyImage lib)) opts) opts
    (bufio_NewWriter f) (image_index_dir (gl_Reference (co_Global opts))) v = (Ok (), w')"
  shows "\<exists>opts1 v1. co_Global opts1 = co_Global opts \<and> list_release (Manifest_New gz) opts1
    (image_index_dir (gl_Reference (co_Global opts))) v1 = (Ok (), w')"
proof -
  let ?o = "Index_New (Manifest_New gz) (Mirror_New lib (CopyImage lib)) opts"
  let ?Q = "\<lambda>opts1. co_Global opts1 = co_Global opts" and ?b = "bufio_NewWriter f"
  let ?i = "image_index_dir (gl_Reference (co_Global opts))"
  let ?c = "dir_path [gl_Dir (co_Global opts), releaseImageExtractDir, ?i]"
  have "keeps_ens (\<lambda>_ _. True) ?Q (fetch_release ?o opts ?b ?i)"
    by (rule any.ens_fetch_release) (auto simp: keeps_def dest: imageindex.globals)
  then have ens: "keeps_ens (\<lambda>_ _. True) ?Q (if_missing ?c (fetch_release ?o opts ?b ?i) (go_return opts))"
    by (intro any.ens_if_missing any.ens_return) simp_all
  obtain opts1 v1 where "if_missing ?c (fetch_release ?o opts ?b ?i) (go_return opts) v = (Ok opts1, v1)"
    "list_release (Manifest_New gz) opts1 ?i v1 = (Ok (), w')"
    using assms unfolding collect_release_def Let_def by (elim go_bind_Ok) simp
  then show ?thesis using keeps_ensD(2) [OF ens] by blast
qed

lemma Collect_release_reads:
  assumes "Collector_Collect (Index_New (Manifest_New gz) (Mirror_New lib (CopyImage lib)) opts) w
      = (Ok (), w')"
    and "asks ''release'' opts" "\<not> asks ''operator'' opts"
  shows "\<exists>w2 s. same_files w2 w' \<and> os_ReadFile (copy_dir opts releaseImageExtractDir @ ''/'' @
    releaseJSONPath) w2 = Ok s"
proof -
  let ?o = "Index_New (Manifest_New gz) (Mirror_New lib (CopyImage lib)) opts"
  let ?i = "image_index_dir (gl_Reference (co_Global opts))"
  obtain f v where "collect_with ?o (bufio_NewWriter f) v = (Ok (), w')"
    using assms(1) by (auto simp: Collect_run split: prod.splits res.splits)
  then have "collect_release ?o opts (bufio_NewWriter f) ?i v = (Ok (), w')"
    using assms(2,3) by (simp add: collect_with_def Let_def asks_def)
  then obtain opts1 v1 where 1: "co_Global opts1 = co_Global opts"
    "list_release (Manifest_New gz) opts1 ?i v1 = (Ok (), w')"
    using collect_release_globals by blast
  obtain s w2 where 2: "same_files v1 w2" "os_ReadFile (dir_path [gl_Dir (co_Global opts1),
      releaseImageExtractDir, ?i, releaseJSONPath]) w2 = Ok s"
    using list_release_needs_file [OF 1(2)] by blast
  have "keeps same_files (list_release (Manifest_New gz) opts1 ?i)"
    by (rule same_files.keeps_list_release) (intro keeps_intros oci_files.reads_keep)+
  then have "same_files v1 w'" using 1(2) by (rule keepsD)
  then have "same_files w2 w'" using 2(1) by (simp add: same_files_def)
  moreover have "dir_path [gl_Dir (co_Global opts1), releaseImageExtractDir, ?i, releaseJSONPath] =
      copy_dir opts releaseImageExtractDir @ ''/'' @ releaseJSONPath"
    using 1(1) by (simp add: dir_path_def copy_dir_def)
  ultimately show ?thesis using 2(2) by metis
qed

lemma release_never_collected:
  assumes "trusted_lib lib" "archives_plain gz" "fs_wf w" "in_working_dir opts"
    and "asks ''release'' opts" "\<not> asks ''operator'' opts"
    and "plain (image_index_dir (gl_Reference (co_Global opts)))"
    and "entry w (place (cwd w) (copy_dir opts releaseImageExtractDir)) = None"
  shows "fst (Collector_Collect (Index_New (Manifest_New gz) (Mirror_New lib (CopyImage lib)) opts) w)
    \<noteq> Ok ()"
proof
  let ?o = "Index_New (Manifest_New gz) (Mirror_New lib (CopyImage lib)) opts"
  let ?dir = "copy_dir opts releaseImageExtractDir"
  have plain: "plain (copy_dir opts kind)" if "CHR ''/'' \<notin> set kind" "kind \<noteq> ''..''" for kind
  proof -
    have "''..'' \<notin> set (comps kind)" "''..'' \<notin> set (comps ''working-dir'')"
      using that Split_none [of "CHR ''/''" kind] by (simp_all add: comps_def)
    then show ?thesis using assms(4,7)
      by (simp add: plain_def copy_dir_def comps_dir_path3 in_working_dir_def)
  qed
  assume "fst (Collector_Collect ?o w) = Ok ()"
  then obtain w' where run: "Collector_Collect ?o w = (Ok (), w')" by (metis prod.collapse)
  have "keeps (changes_only (collect_region (lib_region elsewhere) opts)) (Collector_Collect ?o)"
    by (rule imageindex.collect_changes [OF trusted_writes [OF assms(1)]])
      (use assms(2,6) plain release_extract_plain [OF assms(4,7)] in
        \<open>simp_all add: extract_ok_def releaseImageDir_def\<close>)
  then have only: "changes_only (collect_region (lib_region elsewhere) opts) w w'" using run by (rule keepsD)
  then have gone: "entry w' (place (cwd w') ?dir) = None" "cwd w' = cwd w"
    using release_cache_outside [OF assms(4,6)] assms(8) by (simp_all add: changes_only_def)
  have wf: "fs_wf w'"
    using keepsD [OF imageindex.collect_wf [OF trusted_writes [OF assms(1)]] run] assms(3) by (simp add: keeps_wf_def)
  obtain w2 s where 2: "same_files w2 w'" "os_ReadFile (?dir @ CHR ''/'' # releaseJSONPath) w2 = Ok s"
    using Collect_release_reads [OF run assms(5,6)] by auto
  then obtain q where q: "locate w2 (?dir @ CHR ''/'' # releaseJSONPath) = Inr q" "entry w2 q = Some (File s)"
    by (auto simp: os_ReadFile_Ok)
  have "plain (?dir @ CHR ''/'' # releaseJSONPath)"
    using plain [of releaseImageExtractDir]
    by (simp add: plain_append releaseImageExtractDir_def)
      (simp add: plain_def releaseJSONPath_def comps_def)
  then have "q = place (cwd w2) ?dir @ comps releaseJSONPath"
    using locate_plain [OF _ q(1)] place_append [of ?dir]
    by (simp add: copy_dir_def dir_path_def)
  moreover have "cwd w2 = cwd w'" using 2(1) by (simp add: same_files_def)
  ultimately have "prefix (place (cwd w') ?dir) q" by simp
  then have "entry w' q = None" by (rule fs_wf_below [OF wf gone(1)])
  then show False using q(2) same_files_entry [OF 2(1)] by simp
qed

end
