(* ===== verification/Pflag.thy ===== *)
theory Pflag
  imports Options
begin

text \<open>
  How a command line is parsed: \<open>FlagSet.Parse\<close> of pflag over the flags of the command and the two
  that cobra adds, \<open>--help\<close> (\<open>-h\<close>) and \<open>--version\<close> (\<open>-v\<close>). The flags are set while the line is read,
  so the state of the parser holds the options.
\<close>

section \<open>The flags of a command\<close>

datatype formal_flag = CommandFlag flag | HelpFlag | VersionFlag

text \<open>\<open>InitDefaultHelpFlag\<close> and \<open>InitDefaultVersionFlag\<close> add a flag that is not there yet.\<close>

definition formal :: "flagset \<Rightarrow> string \<Rightarrow> formal_flag option" where
  "formal fl name =
     (case find_flag fl name of
        Some f \<Rightarrow> Some (CommandFlag f)
      | None \<Rightarrow>
          (if name = ''help'' then Some HelpFlag
           else if name = ''version'' then Some VersionFlag else None))"

definition shorthand :: "flagset \<Rightarrow> char \<Rightarrow> formal_flag option" where
  "shorthand fl c =
     (if c = CHR ''h'' \<and> find_flag fl ''help'' = None then Some HelpFlag
      else if c = CHR ''v'' \<and> find_flag fl ''version'' = None then Some VersionFlag else None)"

text \<open>The value of a flag that stands alone; only boolean flags have one.\<close>

fun var_is_bool :: "flag_var \<Rightarrow> bool" where
  "var_is_bool VarDepTLS = True"
| "var_is_bool (VarImage i f) = (f = TlsVerify \<or> f = NoCreds)"
| "var_is_bool (VarDest f) = (f \<noteq> CompressFormat \<and> f \<noteq> CompressLevel)"
| "var_is_bool v = False"

fun NoOptDefVal :: "formal_flag \<Rightarrow> string" where
  "NoOptDefVal (CommandFlag f) = (if var_is_bool (fl_Var f) then ''true'' else [])"
| "NoOptDefVal f = ''true''"

fun flag_label :: "formal_flag \<Rightarrow> string" where
  "flag_label (CommandFlag f) = ''--'' @ fl_Name f"
| "flag_label HelpFlag = ''-h, --help''"
| "flag_label VersionFlag = ''-v, --version''"

section \<open>Setting a flag\<close>

record parse_state =
  ps_Opts :: CopyOptions
  ps_Help :: bool
  ps_Version :: bool
  ps_Args :: "string list"

fun Value_Set :: "formal_flag \<Rightarrow> string \<Rightarrow> parse_state \<Rightarrow> parse_state res" where
  "Value_Set (CommandFlag f) s st = res_map (\<lambda>o'. st\<lparr>ps_Opts := o'\<rparr>) (set_var (fl_Var f) s (ps_Opts st))"
| "Value_Set HelpFlag s st = res_map (\<lambda>b. st\<lparr>ps_Help := b\<rparr>) (ParseBool s)"
| "Value_Set VersionFlag s st = res_map (\<lambda>b. st\<lparr>ps_Version := b\<rparr>) (ParseBool s)"

definition FlagSet_Set :: "formal_flag \<Rightarrow> string \<Rightarrow> parse_state \<Rightarrow> parse_state res" where
  "FlagSet_Set f s st =
     (case Value_Set f s st of
        Err e \<Rightarrow> Err (Errorf ''invalid argument %q for %q flag: %v'' [FStr s, FStr (flag_label f), FErr e])
      | r \<Rightarrow> r)"

section \<open>Parsing\<close>

text \<open>
  Each step gives the arguments that are left. The name \<open>help\<close> is always defined, so that the special
  cases of pflag for an undefined one do not arise.
\<close>

definition parseLongArg ::
  "flagset \<Rightarrow> string \<Rightarrow> string list \<Rightarrow> parse_state \<Rightarrow> (string list \<times> parse_state) res" where
  "parseLongArg fl s args st =
     (let split = drop 2 s; name = takeWhile (\<lambda>c. c \<noteq> CHR ''='') split in
      if split = [] \<or> hd split = CHR ''-'' \<or> hd split = CHR ''=''
      then Err (Errorf ''bad flag syntax: %s'' [FStr s])
      else case formal fl name of
        None \<Rightarrow> Err (Errorf ''unknown flag: --%s'' [FStr name])
      | Some f \<Rightarrow>
          (if CHR ''='' \<in> set split
           then res_map (Pair args) (FlagSet_Set f (tl (dropWhile (\<lambda>c. c \<noteq> CHR ''='') split)) st)
           else if NoOptDefVal f \<noteq> [] then res_map (Pair args) (FlagSet_Set f (NoOptDefVal f) st)
           else case args of
             [] \<Rightarrow> Err (Errorf ''flag needs an argument: %s'' [FStr s])
           | a # rest \<Rightarrow> res_map (Pair rest) (FlagSet_Set f a st)))"

definition parseSingleShortArg ::
  "flagset \<Rightarrow> string \<Rightarrow> string list \<Rightarrow> parse_state \<Rightarrow> (string \<times> string list \<times> parse_state) res" where
  "parseSingleShortArg fl shorthands args st =
     (if prefix ''test.'' shorthands then Ok ([], args, st)
      else let c = hd shorthands; outShorts = tl shorthands in
      case shorthand fl c of
        None \<Rightarrow> Err (Errorf ''unknown shorthand flag: %q in -%s'' [FInt (of_char c), FStr shorthands])
      | Some f \<Rightarrow>
          (if 2 < length shorthands \<and> outShorts ! 0 = CHR ''=''
           then res_map (\<lambda>st1. ([], args, st1)) (FlagSet_Set f (drop 2 shorthands) st)
           else if NoOptDefVal f \<noteq> []
           then res_map (\<lambda>st1. (outShorts, args, st1)) (FlagSet_Set f (NoOptDefVal f) st)
           else if 1 < length shorthands
           then res_map (\<lambda>st1. ([], args, st1)) (FlagSet_Set f outShorts st)
           else case args of
             [] \<Rightarrow> Err (Errorf ''flag needs an argument: %q in -%s'' [FInt (of_char c), FStr shorthands])
           | a # rest \<Rightarrow> res_map (\<lambda>st1. (outShorts, rest, st1)) (FlagSet_Set f a st)))"

lemma single_short_shorter:
  "parseSingleShortArg fl sh args st = Ok (out, a, st1) \<Longrightarrow> sh \<noteq> [] \<Longrightarrow> length out < length sh"
  by (auto simp: parseSingleShortArg_def Let_def res_map_Ok split: if_splits option.splits list.splits)

lemma single_short_args:
  "parseSingleShortArg fl sh args st = Ok (out, a, st1) \<Longrightarrow> length a \<le> length args"
  by (auto simp: parseSingleShortArg_def Let_def res_map_Ok split: if_splits option.splits list.splits)

text \<open>The loop over the letters of one argument; \<open>a\<close> is what its last letter left.\<close>

function parseShorts ::
  "flagset \<Rightarrow> string \<Rightarrow> string list \<Rightarrow> string list \<Rightarrow> parse_state \<Rightarrow> (string list \<times> parse_state) res" where
  "parseShorts fl shorthands args a st =
     (if shorthands = [] then Ok (a, st)
      else case parseSingleShortArg fl shorthands args st of
        Ok (out, a1, st1) \<Rightarrow> parseShorts fl out args a1 st1
      | Err e \<Rightarrow> Err e
      | Panic x \<Rightarrow> Panic x)"
  by pat_completeness auto
termination
  by (relation "measure (\<lambda>(fl, sh, args, a, st). length sh)") (auto dest: single_short_shorter)

declare parseShorts.simps [simp del]

definition parseShortArg ::
  "flagset \<Rightarrow> string \<Rightarrow> string list \<Rightarrow> parse_state \<Rightarrow> (string list \<times> parse_state) res" where
  "parseShortArg fl s args st = parseShorts fl (drop 1 s) args args st"

lemma long_arg_args: "parseLongArg fl s args st = Ok (a, st1) \<Longrightarrow> length a \<le> length args"
  by (auto simp: parseLongArg_def Let_def res_map_Ok split: if_splits option.splits list.splits)

lemma shorts_args: "parseShorts fl sh args a st = Ok (a1, st1) \<Longrightarrow> length a \<le> length args \<Longrightarrow> length a1 \<le> length args"
proof (induction fl sh args a st rule: parseShorts.induct)
  case (1 fl sh args a st)
  show ?case
  proof (cases "sh = []")
    case False
    then obtain out a2 st2 where
      "parseSingleShortArg fl sh args st = Ok (out, a2, st2)" "parseShorts fl out args a2 st2 = Ok (a1, st1)"
      using 1(2) by (subst (asm) parseShorts.simps) (auto split: res.splits)
    then show ?thesis using 1(1) [OF False _ refl refl] single_short_args by blast
  qed (use 1 in \<open>simp add: parseShorts.simps\<close>)
qed

lemma short_arg_args: "parseShortArg fl s args st = Ok (a, st1) \<Longrightarrow> length a \<le> length args"
  unfolding parseShortArg_def using shorts_args by blast

function parseArgs :: "flagset \<Rightarrow> string list \<Rightarrow> parse_state \<Rightarrow> parse_state res" where
  "parseArgs fl [] st = Ok st"
| "parseArgs fl (s # args) st =
     (if length s = 0 \<or> s ! 0 \<noteq> CHR ''-'' \<or> length s = 1
      then parseArgs fl args (st\<lparr>ps_Args := ps_Args st @ [s]\<rparr>)
      else if s ! 1 = CHR ''-'' \<and> length s = 2 then Ok (st\<lparr>ps_Args := ps_Args st @ args\<rparr>)
      else case (if s ! 1 = CHR ''-'' then parseLongArg fl s args st else parseShortArg fl s args st) of
        Ok (args1, st1) \<Rightarrow> parseArgs fl args1 st1
      | Err e \<Rightarrow> Err e
      | Panic x \<Rightarrow> Panic x)"
  by pat_completeness auto
termination
  by (relation "measure (\<lambda>(fl, args, st). length args)")
    (auto dest!: long_arg_args short_arg_args split: if_splits)

definition ParseFlags :: "flagset \<Rightarrow> string list \<Rightarrow> CopyOptions \<Rightarrow> parse_state res" where
  "ParseFlags fl argv opts =
     parseArgs fl argv \<lparr>ps_Opts = opts, ps_Help = False, ps_Version = False, ps_Args = []\<rparr>"

end
