(* ===== verification/Cli.thy ===== *)
theory Cli
  imports Cache Pflag
begin

text \<open>
  pkg/cli/executor.go and cmd/list/main.go: the command, from its flags to its exit code.
  The command runs with the manifest over the decoders \<open>gz\<close> and the mirror over the image library
  \<open>lib\<close>; what cobra prints as usage, as help and as completions for a shell is the parameter \<open>texts\<close>.
\<close>

section \<open>Constants and the executor\<close>

definition logsDir :: string where "logsDir = ''logs''"
definition workingDir :: string where "workingDir = ''working-dir''"
definition cliReleaseImageDir :: string where "cliReleaseImageDir = ''release-images''"
definition cliOperatorImageDir :: string where "cliOperatorImageDir = ''operator-images''"

text \<open>The fields that \<open>Complete\<close> sets are nil before it.\<close>

record ExecutorSchema =
  ex_Manifest :: "manifest_iface option"
  ex_Mirror :: "mirror_iface option"
  ex_Collector :: "unit go option"
  ex_Opts :: CopyOptions
  ex_Dir :: "(string \<Rightarrow> unit go) option"

definition MakeDir :: "string \<Rightarrow> unit go" where
  "MakeDir dir = os_MkdirAll dir"

definition NewDirectory :: "string \<Rightarrow> unit go" where
  "NewDirectory = MakeDir"

section \<open>The operations of the executor\<close>

definition Validate :: "ExecutorSchema \<Rightarrow> string list \<Rightarrow> unit go" where
  "Validate ex imgIndex =
    (let ref = gl_Reference (co_Global (ex_Opts ex));
         done = log_Info ''validate : image-index %v'' [FStrs imgIndex] in
     if ref = [] then go_fail (Errorf
       ''the flag --image-index is required - refer to example usage with --help'' [])
     else
     go_bind (go_lift (slice_at imgIndex 0)) (\<lambda>kind.
     if kind = ''operator'' then
       (if \<not> Contains ref ''operator''
        then go_fail (Errorf ''ensure the --image-index is referencing an operator catalog'' [])
        else done)
     else if kind = ''release'' then
       (if \<not> Contains ref ''release''
        then go_fail (Errorf ''ensure the --image-index is referencing a release index'' [])
        else done)
     else go_fail (Errorf
       (''first argument must be either '' @ [CHR 0x27] @ ''release'' @ [CHR 0x27] @ '' or '' @
        [CHR 0x27] @ ''operator'' @ [CHR 0x27]) [])))"

definition set_target :: "string \<Rightarrow> CopyOptions \<Rightarrow> CopyOptions" where
  "set_target kind opts =
     opts\<lparr>co_Global := (co_Global opts)\<lparr>gl_Dir := workingDir, gl_ImageIndex := kind\<rparr>\<rparr>"

definition Complete :: "gunzip \<Rightarrow> image_lib \<Rightarrow> ExecutorSchema \<Rightarrow> string list \<Rightarrow> ExecutorSchema go" where
  "Complete gz lib ex args =
     go_seq (log_Level (gl_LogLevel (co_Global (ex_Opts ex))))
    (go_bind (go_lift (slice_at args 0)) (\<lambda>kind.
     let opts = set_target kind (ex_Opts ex);
         manifest = Manifest_New gz; mirror = Mirror_New lib (CopyImage lib) in
     go_return (ex\<lparr>ex_Opts := opts, ex_Manifest := Some manifest, ex_Mirror := Some mirror,
       ex_Dir := Some NewDirectory,
       ex_Collector := Some (Collector_Collect (Index_New manifest mirror opts))\<rparr>)))"

text \<open>A step of \<open>Run\<close>: an error is logged and returned.\<close>

definition or_log :: "unit go \<Rightarrow> unit go \<Rightarrow> unit go" where
  "or_log m k =
     go_try m (\<lambda>r. case r of
       Inl err \<Rightarrow> go_seq (log_Error '' %v '' [FErr err]) (go_fail err)
     | Inr _ \<Rightarrow> k)"

definition ignore_error :: "unit go \<Rightarrow> unit go" where
  "ignore_error m = go_try m (\<lambda>_. go_return ())"

definition Executor_Run :: "ExecutorSchema \<Rightarrow> unit go" where
  "Executor_Run ex =
    (let dir = gl_Dir (co_Global (ex_Opts ex)) in
     go_seq (ignore_error (os_RemoveAll logsDir))
    (go_bind (go_lift (deref (ex_Dir ex))) (\<lambda>makeDir.
     or_log (makeDir workingDir)
    (or_log (makeDir logsDir)
    (go_seq (log_Trace ''creating release cache directory %s '' [FStr (dir @ ''/'' @ cliReleaseImageDir)])
    (or_log (makeDir (dir @ ''/'' @ cliReleaseImageDir))
    (go_seq (log_Trace ''creating operator cache directory %s '' [FStr (dir @ ''/'' @ cliOperatorImageDir)])
    (or_log (makeDir (dir @ ''/'' @ cliOperatorImageDir))
       (go_bind (go_lift (deref (ex_Collector ex))) (\<lambda>collect. collect)))))))))) "

section \<open>The command\<close>

text \<open>The options the command starts with; the fields that are not named are zero.\<close>

definition new_CopyOptions ::
  "GlobalOptions \<Rightarrow> SharedImageOptions \<Rightarrow> DeprecatedTLSVerifyOption \<Rightarrow> imageOptions \<Rightarrow>
   imageDestOptions \<Rightarrow> RetryOptions \<Rightarrow> CopyOptions" where
  "new_CopyOptions global shared depTLS srcOpts destOpts retryOpts =
     \<lparr>co_Global = global, co_Shared = shared, co_DeprecatedTLSVerify = depTLS,
      co_SrcImage = srcOpts, co_DestImage = destOpts, co_RetryOpts = retryOpts,
      co_AdditionalTags = [], co_RemoveSignatures = False, co_SignByFingerprint = [],
      co_SignBySigstorePrivateKey = [], co_SignPassphraseFile = [], co_SignIdentity = [],
      co_DigestFile = [], co_Format = [], co_All = False, co_MultiArch = [],
      co_PreserveDigests = False, co_EncryptLayer = [], co_EncryptionKeys = [],
      co_DecryptionKeys = [], co_Mode = [], co_Dev = False, co_Destination = [],
      co_UUID = replicate 16 0, co_ImageType = []\<rparr>"

text \<open>
  \<open>NewCliCmd\<close>: the flags of the command, and the options as their defaults leave them;
  \<open>env\<close> is the value of \<open>REGISTRY_AUTH_FILE\<close>.
\<close>

definition NewCliCmd :: "string \<Rightarrow> (flagset \<times> CopyOptions) res" where
  "NewCliCmd env =
     res_bind (SharedImageFlags env) (\<lambda>(flagSharedOpts, sharedOpts).
     res_bind DeprecatedTLSVerifyFlags (\<lambda>(flagDepTLS, deprecatedTLSVerifyOpt).
     res_bind (ImageFlags SrcImage ''src-'' ''screds'') (\<lambda>(flagSrcOpts, srcOpts).
     res_bind (ImageDestFlags DestImage ''dest-'' ''dcreds'') (\<lambda>(flagDestOpts, destOpts).
     res_bind RetryFlags (\<lambda>(flagRetryOpts, retryOpts).
     res_bind (define_flags [Var VarLogLevel ''loglevel'', Var VarReference ''image-index''] []) (\<lambda>fl.
     let global = zero_GlobalOptions\<lparr>gl_TlsVerify := False, gl_InsecurePolicy := True,
           gl_LogLevel := ''info'', gl_Reference := []\<rparr> in
     Ok (AddFlagSet flagDestOpts (AddFlagSet flagSrcOpts (AddFlagSet flagDepTLS
           (AddFlagSet flagRetryOpts (AddFlagSet flagSharedOpts fl)))),
         new_CopyOptions global sharedOpts deprecatedTLSVerifyOpt srcOpts destOpts retryOpts)))))))"

definition new_executor :: "CopyOptions \<Rightarrow> ExecutorSchema" where
  "new_executor opts =
     \<lparr>ex_Manifest = None, ex_Mirror = None, ex_Collector = None, ex_Opts = opts, ex_Dir = None\<rparr>"

text \<open>The \<open>Run\<close> function of the command; its result is the exit code of the process.\<close>

definition command_run :: "gunzip \<Rightarrow> image_lib \<Rightarrow> CopyOptions \<Rightarrow> string list \<Rightarrow> int go" where
  "command_run gz lib opts args =
     go_try (Validate (new_executor opts) args) (\<lambda>r.
     case r of
       Inl err \<Rightarrow> go_return 1
     | Inr _ \<Rightarrow>
         go_bind (Complete gz lib (new_executor opts) args) (\<lambda>ex.
         go_try (Executor_Run ex) (\<lambda>r2.
         case r2 of
           Inl err \<Rightarrow> go_seq (log_Error ''%v '' [FErr err]) (go_return 1)
         | Inr _ \<Rightarrow> go_return 0)))"

section \<open>main\<close>

text \<open>
  The texts of cobra: the usage and the help of the command, the usage of its hidden command for shell
  completion, and what that command prints for its arguments, on stdout and on stderr.
\<close>

record cobra_texts =
  ct_Usage :: "string list"
  ct_Help :: "string list"
  ct_CompleteUsage :: "string list"
  ct_Completions :: "string list \<Rightarrow> string list \<times> string list"

text \<open>
  \<open>stripFlags\<close>: what is not a flag or the value of one, as far as can be told before the flags are
  parsed; no flag has a shorthand at that time.
\<close>

definition hasNoOptDefVal :: "string \<Rightarrow> flagset \<Rightarrow> bool" where
  "hasNoOptDefVal name fl =
     (case find_flag fl name of None \<Rightarrow> False | Some f \<Rightarrow> NoOptDefVal (CommandFlag f) \<noteq> [])"

fun stripFlags :: "flagset \<Rightarrow> string list \<Rightarrow> string list" where
  "stripFlags fl [] = []"
| "stripFlags fl (s # args) =
     (if s = ''--'' then []
      else if HasPrefix s ''--'' \<and> CHR ''='' \<notin> set s \<and> \<not> hasNoOptDefVal (drop 2 s) fl \<or>
        HasPrefix s ''-'' \<and> CHR ''='' \<notin> set s \<and> length s = 2
      then (if length args \<le> 1 then [] else stripFlags fl (tl args))
      else if s \<noteq> [] \<and> \<not> HasPrefix s ''-'' then s # stripFlags fl args
      else stripFlags fl args)"

text \<open>
  \<open>initCompleteCmd\<close> and \<open>Find\<close>: the only subcommand is the one for shell completion, and it is there
  only when it is called, which is its name that is then taken out of the arguments.
\<close>

definition completion_names :: "string list" where
  "completion_names = [''__complete'', ''__completeNoDesc'']"

definition Find :: "flagset \<Rightarrow> string list \<Rightarrow> string list option" where
  "Find fl args =
     (case stripFlags fl args of
        [] \<Rightarrow> None
      | c # _ \<Rightarrow> if c \<in> set completion_names then Some (remove1 c args) else None)"

text \<open>\<open>cobra.MinimumNArgs (1)\<close>\<close>

definition MinimumNArgs :: "nat \<Rightarrow> string list \<Rightarrow> unit res" where
  "MinimumNArgs n args =
     (if length args < n
      then Err (Errorf ''requires at least %d arg(s), only received %d''
        [FInt (int n), FInt (int (length args))])
      else Ok ())"

definition print_lines :: "string list \<Rightarrow> string list \<Rightarrow> unit go" where
  "print_lines out err = (\<lambda>w. (Ok (), w\<lparr>stdout := stdout w @ out, stderr := stderr w @ err\<rparr>))"

text \<open>
  \<open>execute\<close> of the command. \<open>Run\<close> may leave the process: a result is the exit code so far. A request for
  help is an error that \<open>ExecuteC\<close> answers with the help text, which is done here.
\<close>

definition execute ::
  "cobra_texts \<Rightarrow> gunzip \<Rightarrow> image_lib \<Rightarrow> flagset \<Rightarrow> CopyOptions \<Rightarrow> string list \<Rightarrow> int go" where
  "execute texts gz lib fl opts a =
     go_bind (go_lift (ParseFlags fl a opts)) (\<lambda>st.
     if ps_Help st then go_seq (print_lines (ct_Help texts) []) (go_return 0)
     else if ps_Version st then go_seq (print_lines [''list version v0.0.1''] []) (go_return 0)
     else go_seq (go_lift (MinimumNArgs 1 (ps_Args st)))
       (command_run gz lib (ps_Opts st) (ps_Args st)))"

text \<open>\<open>execute\<close> of the command for shell completion, which does not parse flags\<close>

definition complete :: "cobra_texts \<Rightarrow> string list \<Rightarrow> int go" where
  "complete texts a =
     go_seq (go_lift (MinimumNArgs 1 a))
    (go_seq (case ct_Completions texts a of (out, err) \<Rightarrow> print_lines out err)
       (go_return 0))"

text \<open>\<open>ExecuteC\<close>: an error is printed, and the usage of the command it is from.\<close>

definition or_usage :: "string list \<Rightarrow> int go \<Rightarrow> int go" where
  "or_usage usage m =
     go_try m (\<lambda>r. case r of
       Inl err \<Rightarrow> go_seq (print_lines [] ((''Error: '' @ err_text err) # usage)) (go_fail err)
     | Inr n \<Rightarrow> go_return n)"

definition ExecuteC ::
  "cobra_texts \<Rightarrow> gunzip \<Rightarrow> image_lib \<Rightarrow> flagset \<Rightarrow> CopyOptions \<Rightarrow> string list \<Rightarrow> int go" where
  "ExecuteC texts gz lib fl opts argv =
     (case Find fl argv of
        Some a \<Rightarrow> or_usage (ct_CompleteUsage texts) (complete texts a)
      | None \<Rightarrow> or_usage (ct_Usage texts) (execute texts gz lib fl opts argv))"

definition main_program ::
  "cobra_texts \<Rightarrow> gunzip \<Rightarrow> image_lib \<Rightarrow> string \<Rightarrow> string list \<Rightarrow> int go" where
  "main_program texts gz lib env argv = (\<lambda>w.
     go_bind (go_lift (NewCliCmd env)) (\<lambda>(fl, opts).
     go_try (ExecuteC texts gz lib fl opts argv) (\<lambda>r.
     case r of
       Inl err \<Rightarrow> go_seq (log_Error ''[main] %v '' [FErr err]) (go_return 1)
     | Inr n \<Rightarrow> go_return n)) (log_New ''info'' w))"

end
