(* ===== verification/CommandLine.thy ===== *)
theory CommandLine
  imports Pflag
begin

text \<open>
  What a command line says: a grammar of command lines as a relation between the words of a line
  (settings and positional arguments) and its arguments. The parser does to a line it spells what its
  words do one after the other, errors included, and every line it accepts is spelled.
\<close>

section \<open>What a line spells\<close>

datatype cl_word = Setting formal_flag string | Positional string

fun set_words :: "cl_word list \<Rightarrow> parse_state \<Rightarrow> parse_state res" where
  "set_words [] st = Ok st"
| "set_words (Positional a # ws) st = set_words ws (st\<lparr>ps_Args := ps_Args st @ [a]\<rparr>)"
| "set_words (Setting f s # ws) st = res_bind (FlagSet_Set f s st) (set_words ws)"

text \<open>
  The letters after a single dash: each stands for a flag, the last one perhaps with a value. What
  begins with \<open>test.\<close> is skipped, for the sake of \<open>go test\<close>.
\<close>

inductive letters :: "flagset \<Rightarrow> cl_word list \<Rightarrow> string \<Rightarrow> bool" for fl where
  letters_none: "letters fl [] []"
| letters_test: "letters fl [] (''test.'' @ s)"
| letters_value: "shorthand fl c = Some f \<Longrightarrow> s \<noteq> [] \<Longrightarrow> letters fl [Setting f s] (c # CHR ''='' # s)"
| letters_flag: "shorthand fl c = Some f \<Longrightarrow> \<not> (prefix ''='' s \<and> s \<noteq> ''='') \<Longrightarrow> letters fl ws s \<Longrightarrow>
    letters fl (Setting f (NoOptDefVal f) # ws) (c # s)"

definition flag_name :: "string \<Rightarrow> bool" where
  "flag_name n \<longleftrightarrow> n \<noteq> [] \<and> hd n \<noteq> CHR ''-'' \<and> CHR ''='' \<notin> set n"

inductive spells :: "flagset \<Rightarrow> cl_word list \<Rightarrow> string list \<Rightarrow> bool" for fl where
  spells_none: "spells fl [] []"
| spells_rest: "spells fl (map Positional args) (''--'' # args)"
| spells_positional: "\<not> prefix ''-'' a \<or> a = ''-'' \<Longrightarrow> spells fl ws argv \<Longrightarrow>
    spells fl (Positional a # ws) (a # argv)"
| spells_value: "formal fl n = Some f \<Longrightarrow> flag_name n \<Longrightarrow> spells fl ws argv \<Longrightarrow>
    spells fl (Setting f s # ws) ((''--'' @ n @ ''='' @ s) # argv)"
| spells_alone: "formal fl n = Some f \<Longrightarrow> flag_name n \<Longrightarrow> NoOptDefVal f \<noteq> [] \<Longrightarrow> spells fl ws argv \<Longrightarrow>
    spells fl (Setting f (NoOptDefVal f) # ws) ((''--'' @ n) # argv)"
| spells_next: "formal fl n = Some f \<Longrightarrow> flag_name n \<Longrightarrow> NoOptDefVal f = [] \<Longrightarrow> spells fl ws argv \<Longrightarrow>
    spells fl (Setting f s # ws) ((''--'' @ n) # s # argv)"
| spells_letters: "letters fl us s \<Longrightarrow> s \<noteq> [] \<Longrightarrow> hd s \<noteq> CHR ''-'' \<Longrightarrow> spells fl ws argv \<Longrightarrow>
    spells fl (us @ ws) ((CHR ''-'' # s) # argv)"

lemma set_words_append: "set_words (us @ ws) st = res_bind (set_words us st) (set_words ws)"
proof (induction us st rule: set_words.induct)
  case (3 f s ws st)
  then show ?case by (cases "FlagSet_Set f s st") simp_all
qed simp_all

lemma set_words_positional: "set_words (map Positional args) st = Ok (st\<lparr>ps_Args := ps_Args st @ args\<rparr>)"
  by (induction args arbitrary: st) simp_all

lemma shorthand_stands_alone: "shorthand fl c = Some f \<Longrightarrow> NoOptDefVal f \<noteq> [] \<and> c \<in> {CHR ''h'', CHR ''v''}"
  by (auto simp: shorthand_def split: if_splits)

lemma single_short:
  "shorthand fl c = Some f \<Longrightarrow> parseSingleShortArg fl (c # s) args st =
     (if prefix ''='' s \<and> s \<noteq> ''='' then res_map (\<lambda>st1. ([], args, st1)) (FlagSet_Set f (tl s) st)
      else res_map (\<lambda>st1. (s, args, st1)) (FlagSet_Set f (NoOptDefVal f) st))"
  using shorthand_stands_alone [of fl c f]
  by (cases s) (auto simp: parseSingleShortArg_def Let_def)

lemma letters_parsed:
  "letters fl ws s \<Longrightarrow> parseShorts fl s args args st = res_map (Pair args) (set_words ws st)"
proof (induction arbitrary: st rule: letters.induct)
  case letters_none
  then show ?case by (simp add: parseShorts.simps)
next
  case (letters_test s)
  then show ?case by (simp add: parseShorts.simps parseSingleShortArg_def)
next
  case (letters_value c f s)
  then show ?case
    by (cases "FlagSet_Set f s st") (simp_all add: parseShorts.simps single_short)
next
  case (letters_flag c f s ws)
  then show ?case
    by (cases "FlagSet_Set f (NoOptDefVal f) st"; subst parseShorts.simps) (auto simp: single_short)
qed

lemma parsed_letters:
  assumes "parseShorts fl s args a st = Ok (a1, st1)" "a = args"
  shows "a1 = args \<and> (\<exists>ws. letters fl ws s \<and> set_words ws st = Ok st1)"
  using assms
proof (induction fl s args a st rule: parseShorts.induct)
  case (1 fl sh args a st)
  show ?case
  proof (cases sh)
    case Nil
    with 1 show ?thesis by (auto simp: parseShorts.simps intro: letters_none exI [of _ "[]"])
  next
    case (Cons c s)
    then obtain out a2 st2 where one: "parseSingleShortArg fl sh args st = Ok (out, a2, st2)" and
      more: "parseShorts fl out args a2 st2 = Ok (a1, st1)"
      using 1(2) by (subst (asm) parseShorts.simps) (auto split: res.splits)
    have IH: "a2 = args \<Longrightarrow> a1 = args \<and> (\<exists>ws. letters fl ws out \<and> set_words ws st2 = Ok st1)"
      using 1(1) [OF _ one refl refl more] Cons by blast
    show ?thesis
    proof (cases "prefix ''test.'' sh")
      case True
      then obtain t where "sh = ''test.'' @ t" by (auto simp: prefix_def)
      moreover have "a1 = args" "st1 = st"
        using one more True by (auto simp: parseSingleShortArg_def parseShorts.simps)
      ultimately have "a1 = args \<and> letters fl [] sh \<and> set_words [] st = Ok st1" by (simp only: letters_test) simp
      then show ?thesis by blast
    next
      case False
      then obtain f where f: "shorthand fl c = Some f"
        using one Cons by (auto simp: parseSingleShortArg_def Let_def split: option.splits if_splits)
      show ?thesis
      proof (cases "prefix ''='' s \<and> s \<noteq> ''=''")
        case True
        then obtain v where v: "s = CHR ''='' # v" "v \<noteq> []" by (auto simp: prefix_def)
        with one True f have "out = []" "a2 = args" "FlagSet_Set f v st = Ok st2"
          by (auto simp: Cons single_short res_map_Ok)
        with more have "a1 = args \<and> letters fl [Setting f v] sh \<and> set_words [Setting f v] st = Ok st1"
          using letters_value [OF f v(2)] by (simp add: Cons v parseShorts.simps)
        then show ?thesis by blast
      next
        case False
        with one f have o: "out = s" "a2 = args" "FlagSet_Set f (NoOptDefVal f) st = Ok st2"
          by (auto simp: Cons single_short res_map_Ok)
        from IH [OF o(2)] obtain ws where "a1 = args" "letters fl ws s" "set_words ws st2 = Ok st1"
          by (auto simp: o(1))
        then have "a1 = args \<and> letters fl (Setting f (NoOptDefVal f) # ws) sh \<and>
            set_words (Setting f (NoOptDefVal f) # ws) st = Ok st1"
          using letters_flag [OF f False] o(3) by (simp add: Cons)
        then show ?thesis by blast
      qed
    qed
  qed
qed

lemma parseShortArg_iff:
  "parseShortArg fl (CHR ''-'' # s) args st = Ok (a, st1) \<longleftrightarrow>
     a = args \<and> (\<exists>us. letters fl us s \<and> set_words us st = Ok st1)"
  unfolding parseShortArg_def using letters_parsed [of fl _ s args st] parsed_letters [of fl s args args st a st1]
  by (fastforce simp: res_map_Ok)

lemma cut_at:
  assumes "c \<notin> set n"
  shows "takeWhile (\<lambda>d. d \<noteq> c) n = n" "takeWhile (\<lambda>d. d \<noteq> c) (n @ c # s) = n"
    "dropWhile (\<lambda>d. d \<noteq> c) (n @ c # s) = c # s"
  using assms by (induction n) auto

lemma flag_name_parts:
  assumes "flag_name n"
  shows "CHR ''='' \<notin> set n" "n \<noteq> []" "hd n \<noteq> CHR ''-''" "hd n \<noteq> CHR ''=''"
  using assms by (cases n; auto simp: flag_name_def)+

lemma parseLongArg_value:
  assumes "formal fl n = Some f" "flag_name n"
  shows "parseLongArg fl (''--'' @ n @ ''='' @ s) args st = res_map (Pair args) (FlagSet_Set f s st)"
  by (simp add: parseLongArg_def Let_def assms(1) flag_name_parts [OF assms(2)] cut_at [OF flag_name_parts(1) [OF assms(2)]])

lemma parseLongArg_name:
  assumes "formal fl n = Some f" "flag_name n"
  shows "parseLongArg fl (''--'' @ n) args st =
    (if NoOptDefVal f \<noteq> [] then res_map (Pair args) (FlagSet_Set f (NoOptDefVal f) st)
     else case args of [] \<Rightarrow> Err (Errorf ''flag needs an argument: %s'' [FStr (''--'' @ n)])
     | a # rest \<Rightarrow> res_map (Pair rest) (FlagSet_Set f a st))"
  by (simp add: parseLongArg_def Let_def assms(1) flag_name_parts [OF assms(2)] cut_at [OF flag_name_parts(1) [OF assms(2)]]
      split: list.split)

lemma parseLongArg_cases:
  assumes "parseLongArg fl (''--'' @ t) args st = Ok (a, st1)"
  obtains n f where "formal fl n = Some f" "flag_name n" "t = n \<or> (\<exists>s. t = n @ ''='' @ s)"
proof -
  let ?n = "takeWhile (\<lambda>c. c \<noteq> CHR ''='') t"
  from assms obtain f where f: "formal fl ?n = Some f" and t: "t \<noteq> []" "hd t \<noteq> CHR ''-''" "hd t \<noteq> CHR ''=''"
    by (auto simp: parseLongArg_def Let_def split: if_splits option.splits)
  have "flag_name ?n" using t by (cases t) (auto simp: flag_name_def dest: set_takeWhileD)
  moreover have "t = ?n \<or> (\<exists>s. t = ?n @ ''='' @ s)"
  proof (cases "dropWhile (\<lambda>c. c \<noteq> CHR ''='') t")
    case Nil
    then show ?thesis by (metis append_Nil2 takeWhile_dropWhile_id)
  next
    case (Cons c s)
    then have "c = CHR ''=''" by (metis (mono_tags, lifting) hd_dropWhile list.distinct(1) list.sel(1))
    then show ?thesis using Cons by (metis append_Cons append_Nil takeWhile_dropWhile_id)
  qed
  ultimately show ?thesis using that f by blast
qed

text \<open>The parser accepts exactly the lines that spell some words, and sets the words in their order.\<close>

lemma spelled_parsed:
  "spells fl ws argv \<Longrightarrow> parseArgs fl argv st = set_words ws st"
proof (induction arbitrary: st rule: spells.induct)
  case (spells_rest args)
  then show ?case by (simp add: set_words_positional)
next
  case (spells_positional a ws argv)
  then show ?case by (cases a) auto
next
  case (spells_value n f ws argv s)
  then show ?case using parseLongArg_value [OF spells_value(1,2), of s argv st]
    by (cases "FlagSet_Set f s st") simp_all
next
  case (spells_alone n f ws argv)
  then show ?case using parseLongArg_name [OF spells_alone(1,2), of argv st]
    by (cases "FlagSet_Set f (NoOptDefVal f) st") (auto simp: flag_name_parts(2))
next
  case (spells_next n f ws argv s)
  then show ?case using parseLongArg_name [OF spells_next(1,2), of "s # argv" st]
    by (cases "FlagSet_Set f s st") (auto simp: flag_name_parts(2))
next
  case (spells_letters us s ws argv)
  have "parseShortArg fl (CHR ''-'' # s) argv st = res_map (Pair argv) (set_words us st)"
    using letters_parsed [OF spells_letters(1)] by (simp add: parseShortArg_def)
  then show ?case using spells_letters(2,3) spells_letters.IH
    by (cases s; cases "set_words us st") (simp_all add: set_words_append)
qed simp

lemma parsed_spelled:
  assumes "parseArgs fl argv st = Ok st1"
  shows "\<exists>ws. spells fl ws argv \<and> set_words ws st = Ok st1"
  using assms
proof (induction fl argv st rule: parseArgs.induct)
  case (1 fl st)
  then show ?case by (intro exI [of _ "[]"]) (simp add: spells_none)
next
  case (2 fl s args st)
  consider (arg) "\<not> prefix ''-'' s \<or> s = ''-''" | (dashes) "s = ''--''"
    | (long) t where "s = ''--'' @ t" "t \<noteq> []"
    | (short) t where "s = CHR ''-'' # t" "t \<noteq> []" "hd t \<noteq> CHR ''-''"
    by (cases s; cases "tl s") (auto simp: prefix_def)
  then show ?case
  proof cases
    case arg
    then have "length s = 0 \<or> s ! 0 \<noteq> CHR ''-'' \<or> length s = 1" by (cases s) auto
    with 2(1,3) obtain ws where "spells fl ws args"
      "set_words ws (st\<lparr>ps_Args := ps_Args st @ [s]\<rparr>) = Ok st1" by auto
    then show ?thesis using spells_positional [OF arg]
      by (intro exI [of _ "Positional s # ws"]) simp
  next
    case dashes
    with 2(3) show ?thesis
      by (intro exI [of _ "map Positional args"]) (simp add: spells_rest [simplified] set_words_positional)
  next
    case long
    then have "parseArgs fl (s # args) st = (case parseLongArg fl s args st of
        Ok (args1, st2) \<Rightarrow> parseArgs fl args1 st2 | Err e \<Rightarrow> Err e | Panic x \<Rightarrow> Panic x)"
      by simp
    with 2(3) obtain args1 st2 where one: "parseLongArg fl s args st = Ok (args1, st2)" and
      more: "parseArgs fl args1 st2 = Ok st1"
      by (auto split: res.splits)
    obtain ws where ws: "spells fl ws args1" "set_words ws st2 = Ok st1"
      using 2(2) [OF _ _ _ refl more] one long by auto
    obtain n f where f: "formal fl n = Some f" "flag_name n" "t = n \<or> (\<exists>v. t = n @ ''='' @ v)"
      using parseLongArg_cases one unfolding long(1) by blast
    have "\<exists>v. spells fl (Setting f v # ws) (s # args) \<and> FlagSet_Set f v st = Ok st2"
    proof (cases "t = n")
      case True
      note name = parseLongArg_name [OF f(1,2), of args st]
      show ?thesis
      proof (cases "NoOptDefVal f = []")
        case True
        then obtain a rest where "args = a # rest" "args1 = rest" "FlagSet_Set f a st = Ok st2"
          using one name long(1) \<open>t = n\<close> by (cases args) (auto simp: res_map_Ok)
        then show ?thesis using spells_next [OF f(1,2) True] ws(1) long(1) \<open>t = n\<close> by blast
      next
        case False
        then have "args1 = args" "FlagSet_Set f (NoOptDefVal f) st = Ok st2"
          using one name long(1) \<open>t = n\<close> by (auto simp: res_map_Ok)
        then show ?thesis using spells_alone [OF f(1,2) False] ws(1) long(1) \<open>t = n\<close> by blast
      qed
    next
      case False
      then obtain v where v: "t = n @ ''='' @ v" using f(3) by blast
      then have "args1 = args" "FlagSet_Set f v st = Ok st2"
        using one parseLongArg_value [OF f(1,2), of v args st] long(1) by (auto simp: res_map_Ok)
      then show ?thesis using spells_value [OF f(1,2)] ws(1) long(1) v by blast
    qed
    with ws(2) show ?thesis by (metis res_bind_simps(1) set_words.simps(3))
  next
    case short
    then have "parseArgs fl (s # args) st = (case parseShortArg fl s args st of
        Ok (args1, st2) \<Rightarrow> parseArgs fl args1 st2 | Err e \<Rightarrow> Err e | Panic x \<Rightarrow> Panic x)"
      by (cases t) simp_all
    with 2(3) obtain args1 st2 where one: "parseShortArg fl s args st = Ok (args1, st2)" and
      more: "parseArgs fl args1 st2 = Ok st1"
      by (auto split: res.splits)
    obtain ws where ws: "spells fl ws args1" "set_words ws st2 = Ok st1"
      using 2(2) [OF _ _ _ refl more] one short by (cases t) auto
    obtain us where us: "args1 = args" "letters fl us t" "set_words us st = Ok st2"
      using one unfolding short(1) parseShortArg_iff by blast
    have "spells fl (us @ ws) (s # args)" using spells_letters [OF us(2) short(2,3)] ws(1) us(1) short(1) by simp
    moreover have "set_words (us @ ws) st = Ok st1" using us(3) ws(2) by (simp add: set_words_append)
    ultimately show ?thesis by blast
  qed
qed

section \<open>A line spells one list of words\<close>

inductive_cases letters_NilE: "letters fl us []"
inductive_cases spells_NilE: "spells fl ws []"

lemma shorthand_not_t [simp]: "shorthand fl CHR ''t'' = None"
  by (simp add: shorthand_def)

lemma letters_unique: "letters fl us s \<Longrightarrow> letters fl vs s \<Longrightarrow> us = vs"
proof (induction arbitrary: vs rule: letters.induct)
  case letters_none
  then show ?case by (rule letters_NilE) simp
next
  case (letters_test s)
  then show ?case by cases auto
next
  case (letters_value c f s)
  from letters_value(3) show ?case by cases (use letters_value(1,2) in auto)
next
  case (letters_flag c f s ws)
  note old = letters_flag
  from letters_flag(5) show ?case
  proof cases
    case (letters_flag f' ws')
    then have "f' = f" "ws = ws'" using old(1) old(4) [of ws'] by simp_all
    then show ?thesis using letters_flag by simp
  qed (use old(1,2) in auto)
qed

lemma no_flag_name [simp]: "\<not> flag_name []"
  by (simp add: flag_name_def)

lemma split_at_unique:
  assumes "n @ c # s = n' @ c # s'" "c \<notin> set n" "c \<notin> set n'"
  shows "n = n' \<and> s = s'"
  using assms cut_at(2,3) by (metis list.inject)

lemma spells_unique: "spells fl ws argv \<Longrightarrow> spells fl vs argv \<Longrightarrow> ws = vs"
proof (induction arbitrary: vs rule: spells.induct)
  case spells_none
  then show ?case by (rule spells_NilE) simp
next
  case (spells_rest args)
  then show ?case by cases auto
next
  case (spells_positional a ws argv)
  note old = spells_positional
  from spells_positional(4) show ?case
  proof cases
    case (spells_positional ws')
    then show ?thesis using old(3) [of ws'] by simp
  qed (use old(1) in auto)
next
  case (spells_value n f ws argv s)
  note n = flag_name_parts [OF spells_value(2)] and old = spells_value
  from spells_value(5) show ?case
  proof cases
    case (spells_value n' f' ws' s')
    then have "n = n' \<and> s = s'" using split_at_unique [of n "CHR ''=''" s n' s'] n(1) flag_name_parts(1) by auto
    then have "f = f'" "ws = ws'" "s = s'" using spells_value old(1) old(4) [of ws'] by simp_all
    then show ?thesis using spells_value by simp
  qed (use n in \<open>auto simp: flag_name_def\<close>)
next
  case (spells_alone n f ws argv)
  note n = flag_name_parts [OF spells_alone(2)] and old = spells_alone
  from spells_alone(6) show ?case
  proof cases
    case (spells_alone f' ws')
    then have "f = f'" "ws = ws'" using old(1) old(5) [of ws'] by simp_all
    then show ?thesis using spells_alone by simp
  qed (use n old(1,3) in auto)
next
  case (spells_next n f ws argv s)
  note n = flag_name_parts [OF spells_next(2)] and old = spells_next
  from spells_next(6) show ?case
  proof cases
    case (spells_next f' ws')
    then have "f = f'" "ws = ws'" using old(1) old(5) [of ws'] by simp_all
    then show ?thesis using spells_next by simp
  qed (use n old(1,3) in auto)
next
  case (spells_letters us s ws argv)
  note old = spells_letters
  from spells_letters(6) show ?case
  proof cases
    case (spells_letters us' ws')
    then have "us = us'" "ws = ws'" using letters_unique [OF old(1), of us'] old(5) [of ws'] by simp_all
    then show ?thesis using spells_letters by simp
  qed (use old(2,3) in auto)
qed

section \<open>The settings of a line\<close>

fun positionals :: "cl_word list \<Rightarrow> string list" where
  "positionals [] = []"
| "positionals (Positional a # ws) = a # positionals ws"
| "positionals (Setting f s # ws) = positionals ws"

text \<open>The flags of the command itself that a line sets, in order.\<close>

fun line_settings :: "cl_word list \<Rightarrow> (string \<times> string) list" where
  "line_settings [] = []"
| "line_settings (Setting (CommandFlag f) s # ws) = (fl_Name f, s) # line_settings ws"
| "line_settings (w # ws) = line_settings ws"

fun defined_word :: "flagset \<Rightarrow> cl_word \<Rightarrow> bool" where
  "defined_word fl (Setting (CommandFlag f) s) = (find_flag fl (fl_Name f) = Some f)"
| "defined_word fl w = True"

lemma find_flag_name: "find_flag fl n = Some f \<Longrightarrow> fl_Name f = n"
  by (auto simp: find_flag_def find_Some_iff)

lemma formal_defined: "formal fl n = Some f \<Longrightarrow> defined_word fl (Setting f s)"
  by (auto simp: formal_def find_flag_name split: option.splits if_splits)

lemma shorthand_defined: "shorthand fl c = Some f \<Longrightarrow> defined_word fl (Setting f s)"
  by (auto simp: shorthand_def split: if_splits)

lemma letters_defined: "letters fl ws s \<Longrightarrow> list_all (defined_word fl) ws"
  by (induction rule: letters.induct) (auto simp: shorthand_defined)

lemma spells_defined: "spells fl ws argv \<Longrightarrow> list_all (defined_word fl) ws"
proof (induction rule: spells.induct)
  case (spells_rest args)
  then show ?case by (induction args) simp_all
qed (auto simp: formal_defined letters_defined)

lemma Value_Set_panic: "Value_Set f s st \<noteq> Panic x"
  by (cases f) (simp_all add: set_var_no_panic ParseBool_no_panic)

lemma FlagSet_Set_panic: "FlagSet_Set f s st \<noteq> Panic x"
  using Value_Set_panic [of f s st x] by (auto simp: FlagSet_Set_def split: res.split)

lemma FlagSet_Set_args: "FlagSet_Set f s st = Ok st1 \<Longrightarrow> ps_Args st1 = ps_Args st"
  by (cases f) (auto simp: FlagSet_Set_def res_map_Ok split: res.splits)

lemma set_words_args: "set_words ws st = Ok st1 \<Longrightarrow> ps_Args st1 = ps_Args st @ positionals ws"
proof (induction ws st rule: set_words.induct)
  case (3 f s ws st)
  then obtain st2 where "FlagSet_Set f s st = Ok st2" "set_words ws st2 = Ok st1"
    by (cases "FlagSet_Set f s st") simp_all
  then show ?case using 3(1) FlagSet_Set_args by fastforce
qed auto

lemma set_words_settings:
  assumes "set_words ws st = Ok st1" "list_all (defined_word fl) ws"
  shows "set_flags fl (line_settings ws) (ps_Opts st) = Ok (ps_Opts st1)"
  using assms
proof (induction ws st rule: set_words.induct)
  case (3 f s ws st)
  then obtain st2 where st2: "FlagSet_Set f s st = Ok st2" "set_words ws st2 = Ok st1"
    by (cases "FlagSet_Set f s st") simp_all
  have "set_flags fl (line_settings ws) (ps_Opts st2) = Ok (ps_Opts st1)" using 3 st2 by auto
  then show ?case using st2(1) 3(3)
    by (cases f) (auto simp: FlagSet_Set_def res_map_Ok split: res.splits)
qed auto

lemma set_words_panic: "set_words ws st \<noteq> Panic x"
proof (induction ws st rule: set_words.induct)
  case (3 f s ws st)
  then show ?case using FlagSet_Set_panic [of f s st x] by (cases "FlagSet_Set f s st") auto
qed auto

lemma ParseFlags_settings:
  assumes "ParseFlags fl argv opts = Ok st"
  shows "\<exists>nvs. set_flags fl nvs opts = Ok (ps_Opts st)"
proof -
  obtain ws where "spells fl ws argv"
    "set_words ws \<lparr>ps_Opts = opts, ps_Help = False, ps_Version = False, ps_Args = []\<rparr> = Ok st"
    using parsed_spelled assms unfolding ParseFlags_def by blast
  from set_words_settings [OF this(2) spells_defined [OF this(1)]] show ?thesis by auto
qed

lemma single_short_panic: "parseSingleShortArg fl sh args st \<noteq> Panic x"
  by (auto simp: parseSingleShortArg_def Let_def FlagSet_Set_panic split: option.splits list.splits)

lemma parseShorts_panic: "parseShorts fl sh args a st \<noteq> Panic x"
proof (induction fl sh args a st rule: parseShorts.induct)
  case (1 fl sh args a st)
  then show ?case using single_short_panic
    by (subst parseShorts.simps) (auto split: res.splits)
qed

lemma parseLongArg_panic: "parseLongArg fl s args st \<noteq> Panic x"
  by (auto simp: parseLongArg_def Let_def FlagSet_Set_panic split: option.splits list.splits)

lemma parseArgs_panic: "parseArgs fl argv st \<noteq> Panic x"
proof (induction fl argv st rule: parseArgs.induct)
  case (2 fl s args st)
  then show ?case using parseLongArg_panic [of fl s args st x] parseShorts_panic [of fl _ args args st x]
    by (auto simp: parseShortArg_def split: res.splits)
qed simp

section \<open>Properties\<close>

definition parse_start :: "CopyOptions \<Rightarrow> parse_state" where
  "parse_start opts = \<lparr>ps_Opts = opts, ps_Help = False, ps_Version = False, ps_Args = []\<rparr>"

lemma ParseFlags_start: "ParseFlags fl argv opts = parseArgs fl argv (parse_start opts)"
  by (simp add: ParseFlags_def parse_start_def)

text \<open>
  C30: a command line means its words. Positional arguments, flags with a value behind \<open>=\<close> or in the
  next argument, boolean flags that stand alone, letters behind one dash, and everything behind \<open>--\<close>:
  a line spells at most one list of words, and on such a line the parser does what its words do one
  after the other, errors included; every line it accepts is such a line; and it never panics.
\<close>

theorem ParseFlags_grammar:
  "(spells fl ws argv \<longrightarrow> ParseFlags fl argv opts = set_words ws (parse_start opts) \<and>
      (\<forall>vs. spells fl vs argv \<longrightarrow> vs = ws)) \<and>
   (ParseFlags fl argv opts = Ok st \<longrightarrow> (\<exists>ws. spells fl ws argv \<and> set_words ws (parse_start opts) = Ok st)) \<and>
   ParseFlags fl argv opts \<noteq> Panic x"
  unfolding ParseFlags_start using spelled_parsed parsed_spelled parseArgs_panic spells_unique by blast

theorem ParseFlags_grammar_witness:
  "\<forall>opts. let fl = [\<lparr>fl_Name = ''loglevel'', fl_Var = VarLogLevel, fl_Hidden = False\<rparr>] in
   ParseFlags fl [''operator'', ''--loglevel=trace'', ''-vh'', ''--'', ''--loglevel''] opts =
     Ok \<lparr>ps_Opts = opts\<lparr>co_Global := (co_Global opts)\<lparr>gl_LogLevel := ''trace''\<rparr>\<rparr>,
       ps_Help = True, ps_Version = True, ps_Args = [''operator'', ''--loglevel'']\<rparr>"
proof
  fix opts
  let ?f = "\<lparr>fl_Name = ''loglevel'', fl_Var = VarLogLevel, fl_Hidden = False\<rparr>"
  let ?ws = "[Positional ''operator'', Setting (CommandFlag ?f) ''trace''] @
    [Setting VersionFlag ''true'', Setting HelpFlag ''true''] @ map Positional [''--loglevel'']"
  have "letters [?f] [Setting VersionFlag (NoOptDefVal VersionFlag), Setting HelpFlag (NoOptDefVal HelpFlag)] ''vh''"
    by (intro letters_flag letters_none) (simp_all add: shorthand_def find_flag_def)
  from spells_letters [OF this _ _ spells_rest [of "[?f]" "[''--loglevel'']"]]
  have "spells [?f] ([Setting VersionFlag ''true'', Setting HelpFlag ''true''] @ map Positional [''--loglevel''])
      [''-vh'', ''--'', ''--loglevel'']" by simp
  from spells_value [OF _ _ this, of "''loglevel''" "CommandFlag ?f" "''trace''"]
  have "spells [?f] (Setting (CommandFlag ?f) ''trace'' # [Setting VersionFlag ''true'', Setting HelpFlag ''true''] @
      map Positional [''--loglevel'']) [''--loglevel=trace'', ''-vh'', ''--'', ''--loglevel'']"
    by (simp add: formal_def find_flag_def flag_name_def)
  from spells_positional [OF _ this, of "''operator''"]
  have "spells [?f] ?ws [''operator'', ''--loglevel=trace'', ''-vh'', ''--'', ''--loglevel'']" by simp
  then have "ParseFlags [?f] [''operator'', ''--loglevel=trace'', ''-vh'', ''--'', ''--loglevel''] opts =
      set_words ?ws (parse_start opts)"
    using ParseFlags_grammar [of "[?f]" ?ws] by blast
  then show "let fl = [?f] in
   ParseFlags fl [''operator'', ''--loglevel=trace'', ''-vh'', ''--'', ''--loglevel''] opts =
     Ok \<lparr>ps_Opts = opts\<lparr>co_Global := (co_Global opts)\<lparr>gl_LogLevel := ''trace''\<rparr>\<rparr>,
       ps_Help = True, ps_Version = True, ps_Args = [''operator'', ''--loglevel'']\<rparr>"
    by (simp add: parse_start_def FlagSet_Set_def ParseBool_def)
qed

end
