(* ===== verification/Flags.thy ===== *)
theory Flags
  imports Cli CommandLine
begin

text \<open>
  The flag sets of pkg/mirror/options.go spelled out: which flags each function defines, when a
  definition panics, the flags and options of the command, and what no flag can change.
\<close>

section \<open>The sets as lists\<close>

definition visible :: "string \<Rightarrow> flag_var \<Rightarrow> flag" where
  "visible name v = \<lparr>fl_Name = name, fl_Var = v, fl_Hidden = False\<rparr>"

definition hidden :: "string \<Rightarrow> flag_var \<Rightarrow> flag" where
  "hidden name v = \<lparr>fl_Name = name, fl_Var = v, fl_Hidden = True\<rparr>"

lemma flag_Name_simps [simp]: "fl_Name (visible name v) = name" "fl_Name (hidden name v) = name"
  by (simp_all add: visible_def hidden_def)

lemma Var_AddFlag: "Var v name = AddFlag (visible name v)" "HiddenVar v name = AddFlag (hidden name v)"
  by (simp_all add: Var_def HiddenVar_def visible_def hidden_def)

definition docker_flags :: "image_obj \<Rightarrow> string \<Rightarrow> string \<Rightarrow> flagset" where
  "docker_flags self pre alias =
     (if pre \<noteq> [] then [visible (pre @ ''authfile'') (VarImage self AuthFile)] else []) @
     [visible (pre @ ''creds'') (VarImage self Creds),
      visible (pre @ ''username'') (VarImage self UserName),
      visible (pre @ ''password'') (VarImage self Password)] @
     (if alias \<noteq> [] then [hidden alias (VarImage self Creds)] else []) @
     [visible (pre @ ''registry-token'') (VarImage self RegistryToken),
      visible (pre @ ''cert-dir'') (VarImage self CertDir),
      visible (pre @ ''tls-verify'') (VarImage self TlsVerify),
      visible (pre @ ''no-creds'') (VarImage self NoCreds)]"

definition image_flags :: "image_obj \<Rightarrow> string \<Rightarrow> string \<Rightarrow> flagset" where
  "image_flags self pre alias =
     [visible (pre @ ''shared-blob-dir'') (VarImage self SharedBlobDir),
      visible (pre @ ''daemon-host'') (VarImage self DaemonHost)] @ docker_flags self pre alias"

definition dest_flags :: "image_obj \<Rightarrow> string \<Rightarrow> string \<Rightarrow> flagset" where
  "dest_flags self pre alias = image_flags self pre alias @
     [visible (pre @ ''compress'') (VarDest Compress),
      visible (pre @ ''decompress'') (VarDest Decompress),
      visible (pre @ ''oci-accept-uncompressed-layers'') (VarDest AcceptUncompressed),
      visible (pre @ ''compress-format'') (VarDest CompressFormat),
      visible (pre @ ''compress-level'') (VarDest CompressLevel),
      visible (pre @ ''precompute-digests'') (VarDest PrecomputeDigests)]"

section \<open>Defining them\<close>

text \<open>Sets without a common name are put one behind the other.\<close>

lemma AddFlagSet_disjoint:
  "distinct (flag_names (fl @ new)) \<Longrightarrow> AddFlagSet new fl = fl @ new"
  by (induction new arbitrary: fl) simp_all

lemma docker_defs:
  "(if pre \<noteq> [] then [Var (VarImage self AuthFile) (pre @ ''authfile'')] else []) @
   [Var (VarImage self Creds) (pre @ ''creds''), Var (VarImage self UserName) (pre @ ''username''),
    Var (VarImage self Password) (pre @ ''password'')] @
   (if alias \<noteq> [] then [HiddenVar (VarImage self Creds) alias] else []) @
   [Var (VarImage self RegistryToken) (pre @ ''registry-token''),
    Var (VarImage self CertDir) (pre @ ''cert-dir''), Var (VarImage self TlsVerify) (pre @ ''tls-verify''),
    Var (VarImage self NoCreds) (pre @ ''no-creds'')] = map AddFlag (docker_flags self pre alias)"
  by (simp add: docker_flags_def Var_AddFlag)

lemma dockerImageFlags_Ok:
  "distinct (flag_names (docker_flags self pre alias)) \<Longrightarrow>
     dockerImageFlags self pre alias = Ok (docker_flags self pre alias, zero_imageOptions)"
  unfolding dockerImageFlags_def docker_defs using define_flags_Ok [of "[]"] by simp

lemma dockerImageFlags_Panic:
  assumes "\<not> distinct (flag_names (docker_flags self pre alias))"
  shows "\<exists>n. dockerImageFlags self pre alias = Panic (FlagRedefined n)"
  unfolding dockerImageFlags_def docker_defs using define_flags_panic [of "[]"] assms by auto

lemma ImageFlags_Ok:
  assumes "distinct (flag_names (image_flags self pre alias))"
  shows "ImageFlags self pre alias = Ok (image_flags self pre alias, zero_imageOptions)"
proof -
  let ?two = "[visible (pre @ ''shared-blob-dir'') (VarImage self SharedBlobDir),
      visible (pre @ ''daemon-host'') (VarImage self DaemonHost)]"
  have "dockerImageFlags self pre alias = Ok (docker_flags self pre alias, zero_imageOptions)"
    using assms by (intro dockerImageFlags_Ok) (simp add: image_flags_def)
  moreover have "AddFlagSet (docker_flags self pre alias) ?two = image_flags self pre alias"
    using assms AddFlagSet_disjoint unfolding image_flags_def by blast
  moreover have "define_flags (map AddFlag ?two) [] = Ok ?two"
    using define_flags_Ok [of "[]" ?two] assms by (simp add: image_flags_def)
  ultimately show ?thesis by (simp add: ImageFlags_def Var_AddFlag del: AddFlagSet.simps define_flags.simps)
qed

lemma ImageDestFlags_Ok:
  assumes "distinct (flag_names (dest_flags self pre alias))"
  shows "ImageDestFlags self pre alias = Ok (dest_flags self pre alias, zero_imageDestOptions)"
proof -
  define own where "own = [visible (pre @ ''compress'') (VarDest Compress),
      visible (pre @ ''decompress'') (VarDest Decompress),
      visible (pre @ ''oci-accept-uncompressed-layers'') (VarDest AcceptUncompressed),
      visible (pre @ ''compress-format'') (VarDest CompressFormat),
      visible (pre @ ''compress-level'') (VarDest CompressLevel),
      visible (pre @ ''precompute-digests'') (VarDest PrecomputeDigests)]"
  have dest: "dest_flags self pre alias = image_flags self pre alias @ own"
    by (simp add: dest_flags_def own_def)
  have defs: "[Var (VarDest Compress) (pre @ ''compress''), Var (VarDest Decompress) (pre @ ''decompress''),
      Var (VarDest AcceptUncompressed) (pre @ ''oci-accept-uncompressed-layers''),
      Var (VarDest CompressFormat) (pre @ ''compress-format''),
      Var (VarDest CompressLevel) (pre @ ''compress-level''),
      Var (VarDest PrecomputeDigests) (pre @ ''precompute-digests'')] = map AddFlag own"
    by (simp add: own_def Var_AddFlag)
  have image: "ImageFlags self pre alias = Ok (image_flags self pre alias, zero_imageOptions)"
    using assms by (intro ImageFlags_Ok) (simp add: dest)
  have generic: "AddFlagSet (image_flags self pre alias) [] = image_flags self pre alias"
    using AddFlagSet_disjoint [of "[]"] assms by (simp add: dest)
  have "define_flags (map AddFlag own) (image_flags self pre alias) = Ok (dest_flags self pre alias)"
    using define_flags_Ok assms unfolding dest by blast
  then show ?thesis unfolding ImageDestFlags_def image defs
    by (simp add: generic zero_imageDestOptions_def)
qed

section \<open>The flags of the command\<close>

definition command_flags :: flagset where
  "command_flags =
     [visible ''loglevel'' VarLogLevel, visible ''image-index'' VarReference,
      visible ''authfile'' VarAuthFile, visible ''retry-times'' VarRetryTimes,
      hidden ''tls-verify'' VarDepTLS] @
     image_flags SrcImage ''src-'' ''screds'' @ dest_flags DestImage ''dest-'' ''dcreds''"

definition command_options :: "string \<Rightarrow> CopyOptions" where
  "command_options env = new_CopyOptions
     (zero_GlobalOptions\<lparr>gl_TlsVerify := False, gl_InsecurePolicy := True,
        gl_LogLevel := ''info'', gl_Reference := []\<rparr>)
     \<lparr>sh_authFilePath = env\<rparr> \<lparr>dt_tlsVerify = absent False\<rparr> zero_imageOptions zero_imageDestOptions
     \<lparr>re_MaxRetry = 0, re_Delay = 0\<rparr>"

lemma command_flags_distinct: "distinct (flag_names command_flags)"
  by (simp add: command_flags_def image_flags_def dest_flags_def docker_flags_def)

lemma NewCliCmd_Ok: "NewCliCmd env = Ok (command_flags, command_options env)"
proof -
  let ?src = "image_flags SrcImage ''src-'' ''screds''" and ?dest = "dest_flags DestImage ''dest-'' ''dcreds''"
  let ?two = "[visible ''loglevel'' VarLogLevel, visible ''image-index'' VarReference]"
  note d = command_flags_distinct [unfolded command_flags_def]
  have src: "ImageFlags SrcImage ''src-'' ''screds'' = Ok (?src, zero_imageOptions)"
    using d by (intro ImageFlags_Ok) simp
  have dest: "ImageDestFlags DestImage ''dest-'' ''dcreds'' = Ok (?dest, zero_imageDestOptions)"
    using d by (intro ImageDestFlags_Ok) simp
  have two: "define_flags [Var VarLogLevel ''loglevel'', Var VarReference ''image-index''] [] = Ok ?two"
    by (simp add: Var_AddFlag AddFlag_def)
  have single: "AddFlag f [] = Ok [f]" for f by (simp add: AddFlag_def)
  have "AddFlagSet ?dest (AddFlagSet ?src (AddFlagSet [hidden ''tls-verify'' VarDepTLS]
      (AddFlagSet [visible ''retry-times'' VarRetryTimes]
        (AddFlagSet [visible ''authfile'' VarAuthFile] ?two)))) = command_flags"
  proof -
    have "AddFlagSet [hidden ''tls-verify'' VarDepTLS] (AddFlagSet [visible ''retry-times'' VarRetryTimes]
        (AddFlagSet [visible ''authfile'' VarAuthFile] ?two)) = take 5 command_flags" (is "?five = _")
      by (simp add: command_flags_def)
    moreover have "AddFlagSet ?src (take 5 command_flags) = take 5 command_flags @ ?src"
      by (rule AddFlagSet_disjoint) (use d in \<open>simp add: command_flags_def\<close>)
    moreover have "AddFlagSet ?dest (take 5 command_flags @ ?src) = command_flags"
      using AddFlagSet_disjoint [of "take 5 command_flags @ ?src" ?dest] d by (simp add: command_flags_def)
    ultimately show ?thesis by simp
  qed
  then show ?thesis
    unfolding NewCliCmd_def SharedImageFlags_def DeprecatedTLSVerifyFlags_def RetryFlags_def Var_AddFlag
      single src dest two [unfolded Var_AddFlag]
    by (simp add: command_options_def del: AddFlagSet.simps)
qed

section \<open>What no flag changes\<close>

fun_cases set_var_OkE: "set_var v s co = Ok co'"

lemma global_update:
  "\<exists>l r. g = g\<lparr>gl_LogLevel := l, gl_Reference := r\<rparr>"
  "\<exists>l r. g\<lparr>gl_LogLevel := s\<rparr> = g\<lparr>gl_LogLevel := l, gl_Reference := r\<rparr>"
  "\<exists>l r. g\<lparr>gl_Reference := s\<rparr> = g\<lparr>gl_LogLevel := l, gl_Reference := r\<rparr>"
proof -
  show "\<exists>l r. g = g\<lparr>gl_LogLevel := l, gl_Reference := r\<rparr>"
    by (rule exI [of _ "gl_LogLevel g"], rule exI [of _ "gl_Reference g"]) simp
  show "\<exists>l r. g\<lparr>gl_LogLevel := s\<rparr> = g\<lparr>gl_LogLevel := l, gl_Reference := r\<rparr>"
    by (rule exI [of _ s], rule exI [of _ "gl_Reference g"]) simp
  show "\<exists>l r. g\<lparr>gl_Reference := s\<rparr> = g\<lparr>gl_LogLevel := l, gl_Reference := r\<rparr>"
    by (rule exI [of _ "gl_LogLevel g"], rule exI [of _ s]) simp
qed

lemma set_var_global:
  assumes "set_var v s co = Ok co'"
  shows "\<exists>l r. co_Global co' = (co_Global co)\<lparr>gl_LogLevel := l, gl_Reference := r\<rparr>"
  using assms by (rule set_var_OkE) (auto simp: res_map_Ok intro: global_update)

lemma set_flags_global:
  "set_flags fl nvs co = Ok co' \<Longrightarrow>
     \<exists>l r. co_Global co' = (co_Global co)\<lparr>gl_LogLevel := l, gl_Reference := r\<rparr>"
proof (induction fl nvs co rule: set_flags.induct)
  case (1 fl co)
  then show ?case by (auto intro: global_update)
next
  case (2 fl name s nvs co)
  then obtain f co1 where 3: "find_flag fl name = Some f" "set_var (fl_Var f) s co = Ok co1"
    "set_flags fl nvs co1 = Ok co'"
    by (auto split: option.splits res.splits)
  show ?case using 2(1) [OF 3] set_var_global [OF 3(2)] by fastforce
qed

section \<open>Properties\<close>

text \<open>The name a definition panics with comes twice.\<close>

lemma define_flags_twice:
  "define_flags (map AddFlag new) fl = Panic x \<Longrightarrow>
     \<exists>n a b. x = FlagRedefined n \<and> flag_names (fl @ new) = a @ n # b \<and> n \<in> set a"
proof (induction new arbitrary: fl)
  case (Cons f new)
  show ?case
  proof (cases "fl_Name f \<in> set (flag_names fl)")
    case True
    then show ?thesis using Cons.prems by (auto simp: AddFlag_def)
  next
    case False
    then show ?thesis using Cons.IH [of "fl @ [f]"] Cons.prems by (simp add: AddFlag_def)
  qed
qed simp

lemma docker_flags_names:
  assumes "calias \<noteq> []"
  obtains p q where "flag_names (docker_flags self pre calias) = p @ calias # q"
    "flag_names (docker_flags self pre []) = p @ q" "distinct (p @ q)"
  by (rule that [of "(if pre \<noteq> [] then [pre @ ''authfile''] else []) @ [pre @ ''creds'', pre @ ''username'', pre @ ''password'']"
        "[pre @ ''registry-token'', pre @ ''cert-dir'', pre @ ''tls-verify'', pre @ ''no-creds'']"])
    (simp_all add: docker_flags_def assms)

lemma docker_flags_alias:
  assumes "calias \<noteq> []" "calias \<in> set (flag_names (docker_flags self pre []))"
  shows "dockerImageFlags self pre calias = Panic (FlagRedefined calias)"
proof -
  obtain p q where pq: "flag_names (docker_flags self pre calias) = p @ calias # q"
    "flag_names (docker_flags self pre []) = p @ q" "distinct (p @ q)"
    using docker_flags_names [OF assms(1)] .
  then have "\<not> distinct (flag_names (docker_flags self pre calias))" using assms(2) by auto
  then obtain m where m: "dockerImageFlags self pre calias = Panic (FlagRedefined m)"
    using dockerImageFlags_Panic by blast
  then have "define_flags (map AddFlag (docker_flags self pre calias)) [] = Panic (FlagRedefined m)"
    unfolding dockerImageFlags_def docker_defs by simp
  then obtain a b where ab: "p @ calias # q = a @ m # b" "m \<in> set a"
    using define_flags_twice [of "docker_flags self pre calias" "[]"] pq(1) by auto
  have "m = calias"
  proof (rule ccontr)
    assume "m \<noteq> calias"
    then have "\<not> distinct (filter (\<lambda>x. x \<noteq> calias) (a @ m # b))" using ab(2) by auto
    then have "\<not> distinct (filter (\<lambda>x. x \<noteq> calias) (p @ q))" unfolding ab(1) [symmetric] by simp
    then show False using pq(3) distinct_filter by blast
  qed
  then show ?thesis using m by simp
qed

lemma docker_flags_distinct:
  "distinct (flag_names (docker_flags self pre calias)) \<longleftrightarrow>
     calias = [] \<or> calias \<notin> set (flag_names (docker_flags self pre []))"
proof (cases "calias = []")
  case False
  then show ?thesis using docker_flags_names [OF False, of self pre] by (metis UnE distinct_append
      distinct.simps(2) disjoint_insert(1) not_distinct_conv_prefix list.simps(15) set_append UnI1 UnI2)
qed (simp add: docker_flags_def)

text \<open>
  When an image's flags can be defined: \<open>dockerImageFlags\<close> panics exactly when the alias of the
  credentials flag is one of the names the prefix gives, and names that flag; otherwise it defines
  its flags in their order, and all of the image's options are unset.
\<close>

theorem dockerImageFlags_defined:
  "dockerImageFlags self pre calias =
     (if calias \<noteq> [] \<and> calias \<in> set (flag_names (docker_flags self pre []))
      then Panic (FlagRedefined calias) else Ok (docker_flags self pre calias, zero_imageOptions))"
  using docker_flags_alias [of calias self pre] dockerImageFlags_Ok [of self pre calias]
    docker_flags_distinct [of self pre calias] by auto

lemma find_command_retry: "find_flag command_flags ''retry-times'' = Some (visible ''retry-times'' VarRetryTimes)"
  by (simp add: command_flags_def find_flag_def)

text \<open>
  C32: the number of retries. A number written in decimal after \<open>--retry-times\<close> becomes the number
  of retries, negative ones included, when it fits 64 bits, and nothing else changes; a number
  that does not fit is an error that quotes it.
\<close>

theorem retry_times_flag:
  "ParseFlags command_flags [''--retry-times'', show_int n] co =
     (if - int64_limit \<le> n \<and> n < int64_limit
      then Ok \<lparr>ps_Opts = co\<lparr>co_RetryOpts := (co_RetryOpts co)\<lparr>re_MaxRetry := n\<rparr>\<rparr>,
        ps_Help = False, ps_Version = False, ps_Args = []\<rparr>
      else Err (Errorf ''invalid argument %q for %q flag: %v'' [FStr (show_int n), FStr ''--retry-times'',
        FErr (num_error ''ParseInt'' (show_int n) ''value out of range'')]))"
proof -
  let ?f = "visible ''retry-times'' VarRetryTimes"
  have "formal command_flags ''retry-times'' = Some (CommandFlag ?f)"
    by (simp add: formal_def find_command_retry visible_def)
  then have "spells command_flags [Setting (CommandFlag ?f) (show_int n)] [''--'' @ ''retry-times'', show_int n]"
    by (intro spells_next spells_none) (simp_all add: flag_name_def visible_def)
  from spelled_parsed [OF this] show ?thesis
    by (simp add: ParseFlags_def FlagSet_Set_def visible_def ParseInt_show_int)
qed

text \<open>
  No value given to a flag makes the program panic: setting flags ends with the options or with
  an error. A name that is not in the flag set is an error, whatever comes after it.
\<close>

theorem set_flags_total:
  "set_flags fl settings co \<noteq> Panic x \<and>
   (find_flag fl n = None \<longrightarrow>
     set_flags fl ((n, s) # settings) co = Err (ErrorString (''no such flag -'' @ n)))"
  by (simp add: set_flags_panic Errorf_def fmt_verb_def fmt_extra_def)

theorem set_flags_total_witness:
  "set_flags [\<lparr>fl_Name = ''loglevel'', fl_Var = VarLogLevel, fl_Hidden = False\<rparr>] [(''log'', ''info'')] (command_options []) =
     Err (ErrorString ''no such flag -log'')"
  using set_flags_total [of "[\<lparr>fl_Name = ''loglevel'', fl_Var = VarLogLevel, fl_Hidden = False\<rparr>]" "[]" "command_options []"
      NilDereference "''log''" "''info''"] by (simp add: find_flag_def)

end
