(* ===== verification/Running.thy ===== *)
theory Running
  imports Flags
begin

text \<open>
  What a run of the command does: which command lines are accepted, that a run clears the log
  directory and keeps the file system a tree, where it writes, and when it calls the library.
\<close>

section \<open>Validation\<close>

lemma Validate_run:
  "Validate ex args w =
    (let ref = gl_Reference (co_Global (ex_Opts ex)) in
     if ref = [] then (Err (Errorf
       ''the flag --image-index is required - refer to example usage with --help'' []), w)
     else case args of
       [] \<Rightarrow> (Panic (IndexOutOfRange 0 0), w)
     | kind # _ \<Rightarrow>
         if kind = ''operator'' \<and> Contains ref ''operator'' \<or> kind = ''release'' \<and> Contains ref ''release''
         then log_Info ''validate : image-index %v'' [FStrs args] w
         else (Err (Errorf
           (if kind = ''operator'' then ''ensure the --image-index is referencing an operator catalog''
            else if kind = ''release'' then ''ensure the --image-index is referencing a release index''
            else ''first argument must be either '' @ [CHR 0x27] @ ''release'' @ [CHR 0x27] @ '' or '' @
              [CHR 0x27] @ ''operator'' @ [CHR 0x27]) []), w))"
  by (auto simp: Validate_def Let_def go_bind_def go_lift_def slice_at_def go_fail_def
      split: list.split)

definition accepted :: "CopyOptions \<Rightarrow> string list \<Rightarrow> bool" where
  "accepted opts args \<longleftrightarrow>
     (\<exists>rest. args = ''operator'' # rest \<and> Contains (gl_Reference (co_Global opts)) ''operator'' \<or>
        args = ''release'' # rest \<and> Contains (gl_Reference (co_Global opts)) ''release'')"

lemma Validate_Ok: "fst (Validate ex args w) = Ok () \<longleftrightarrow> accepted (ex_Opts ex) args"
proof -
  have "Contains [] ''operator'' = False" "Contains [] ''release'' = False"
    by (simp_all add: Contains_iff_sublist)
  then show ?thesis
    by (cases args) (auto simp: Validate_run Let_def accepted_def log_methods_Ok)
qed

lemma Validate_Panic:
  "fst (Validate ex args w) = Panic x \<longleftrightarrow>
     gl_Reference (co_Global (ex_Opts ex)) \<noteq> [] \<and> args = [] \<and> x = IndexOutOfRange 0 0"
  by (cases args) (auto simp: Validate_run Let_def log_methods_Ok)

text \<open>An accepted command line asks for one kind of image.\<close>

lemma accepted_asks:
  assumes "accepted opts args"
  shows "asks ''operator'' (set_target (hd args) opts) \<noteq> asks ''release'' (set_target (hd args) opts)"
  using assms by (auto simp: accepted_def asks_def set_target_def)

section \<open>Clearing the logs\<close>

lemma os_RemoveAll_wf [keeps_intros]: "keeps keeps_wf (os_RemoveAll p)"
proof (rule keepsI)
  fix w
  show "keeps_wf w (snd (os_RemoveAll p w))"
  proof (cases "locate w p")
    case (Inl e)
    then show ?thesis by (simp add: os_RemoveAll_stays wf.refl)
  next
    case (Inr q)
    show ?thesis unfolding keeps_wf_def
    proof (intro impI)
      assume wf: "fs_wf w"
      show "fs_wf (snd (os_RemoveAll p w))" unfolding fs_wf_def
      proof (intro allI impI)
        fix r assume r: "entry (snd (os_RemoveAll p w)) r \<noteq> None"
        let ?keep = "\<lambda>r. r = [] \<or> \<not> prefix q r \<or> (\<exists>s. prefix r s \<and> s \<in> fst ` set (fs w) \<and>
          prefix q s \<and> faults w SysRemove s \<noteq> None)"
        have kept: "?keep r" "entry w r \<noteq> None"
          using r unfolding os_RemoveAll_entry [OF Inr] by (auto split: if_splits)
        have up: "prefix (butlast r) s" if "prefix r s" for s
          using prefixeq_butlast that by (rule prefix_order.trans)
        have "?keep (butlast r)"
        proof (cases "\<exists>s. prefix r s \<and> s \<in> fst ` set (fs w) \<and> prefix q s \<and> faults w SysRemove s \<noteq> None")
          case True
          then show ?thesis using up by blast
        next
          case False
          then have "r = [] \<or> \<not> prefix q r" using kept(1) by blast
          then show ?thesis using prefix_order.trans [OF _ prefixeq_butlast, of q r] by auto
        qed
        moreover have "entry w (butlast r) = Some Dir" using wf kept(2) by (simp add: fs_wf_def)
        ultimately show "entry (snd (os_RemoveAll p w)) (butlast r) = Some Dir"
          unfolding os_RemoveAll_entry [OF Inr] by simp
      qed
    qed
  qed
qed

section \<open>The steps of a run\<close>

context world_relation
begin

lemma keeps_or_log: "(\<And>f a. keeps R (log_Error f a)) \<Longrightarrow> keeps R m \<Longrightarrow> keeps R k \<Longrightarrow> keeps R (or_log m k)"
  unfolding or_log_def by (auto intro!: keeps_try keeps_seq keeps_fail split: sum.splits)

lemma keeps_ignore_error: "keeps R m \<Longrightarrow> keeps R (ignore_error m)"
  unfolding ignore_error_def by (auto intro!: keeps_try keeps_return)

lemma keeps_Executor_Run:
  assumes "ex_Dir ex = Some NewDirectory" "ex_Collector ex = Some collect"
    and "\<And>f a. keeps R (log_Error f a)" "\<And>f a. keeps R (log_Trace f a)"
    and "keeps R (os_RemoveAll logsDir)"
    and "\<And>p. p \<in> {workingDir, logsDir, gl_Dir (co_Global (ex_Opts ex)) @ ''/'' @ cliReleaseImageDir,
      gl_Dir (co_Global (ex_Opts ex)) @ ''/'' @ cliOperatorImageDir} \<Longrightarrow> keeps R (os_MkdirAll p)"
    and "keeps R collect"
  shows "keeps R (Executor_Run ex)"
proof -
  have "keeps R (os_MkdirAll p)" if "p \<in> {workingDir, logsDir,
      gl_Dir (co_Global (ex_Opts ex)) @ ''/'' @ cliReleaseImageDir,
      gl_Dir (co_Global (ex_Opts ex)) @ ''/'' @ cliOperatorImageDir}" for p
    using assms(6) that .
  then show ?thesis
    unfolding Executor_Run_def Let_def assms(1,2) NewDirectory_def MakeDir_def deref_def
      option.case go_bind_lift
    by (intro keeps_seq keeps_ignore_error keeps_or_log assms(3-5,7)) blast+
qed

end

text \<open>A success of \<open>m\<close> is a success of \<open>k\<close>, in a world that \<open>R\<close> relates to the first one.\<close>

definition ends_with :: "(world \<Rightarrow> world \<Rightarrow> bool) \<Rightarrow> unit go \<Rightarrow> unit go \<Rightarrow> bool" where
  "ends_with R k m \<longleftrightarrow> (\<forall>w w'. m w = (Ok (), w') \<longrightarrow> (\<exists>v. R w v \<and> k v = (Ok (), w')))"

context world_relation
begin

lemma ends_refl: "ends_with R k k"
  unfolding ends_with_def using refl by blast

lemma ends_seq: "keeps R a \<Longrightarrow> ends_with R k m \<Longrightarrow> ends_with R k (go_seq a m)"
  unfolding ends_with_def go_seq_def
  by (blast elim: go_bind_Ok intro: keepsD trans)

lemma ends_or_log:
  assumes "keeps R a" "ends_with R k m"
  shows "ends_with R k (or_log a m)"
  unfolding ends_with_def
proof (intro allI impI)
  fix w w' assume run: "or_log a m w = (Ok (), w')"
  obtain r w1 where 1: "a w = (r, w1)" by fastforce
  have "R w w1" using assms(1) 1 by (rule keepsD)
  moreover have "m w1 = (Ok (), w')"
    using run 1 by (cases r) (auto simp: or_log_def go_try_def go_seq_def go_bind_def go_fail_def
        split: prod.splits res.splits)
  ultimately show "\<exists>v. R w v \<and> k v = (Ok (), w')"
    using assms(2) trans unfolding ends_with_def by blast
qed

lemma ends_Executor_Run:
  assumes "ex_Dir ex = Some NewDirectory" "ex_Collector ex = Some collect"
    and "\<And>f a. keeps R (log_Trace f a)" "keeps R (os_RemoveAll logsDir)"
    and "\<And>p. p \<in> {workingDir, logsDir, gl_Dir (co_Global (ex_Opts ex)) @ ''/'' @ cliReleaseImageDir,
      gl_Dir (co_Global (ex_Opts ex)) @ ''/'' @ cliOperatorImageDir} \<Longrightarrow> keeps R (os_MkdirAll p)"
  shows "ends_with R collect (Executor_Run ex)"
proof -
  have "keeps R (os_MkdirAll p)" if "p \<in> {workingDir, logsDir,
      gl_Dir (co_Global (ex_Opts ex)) @ ''/'' @ cliReleaseImageDir,
      gl_Dir (co_Global (ex_Opts ex)) @ ''/'' @ cliOperatorImageDir}" for p
    using assms(5) that .
  then show ?thesis
    unfolding Executor_Run_def Let_def assms(1,2) NewDirectory_def MakeDir_def deref_def
      option.case go_bind_lift
    by (intro ends_seq keeps_ignore_error ends_or_log assms(3,4) ends_refl) blast+
qed

end

section \<open>The executor after \<open>Complete\<close>\<close>

definition the_collector :: "gunzip \<Rightarrow> image_lib \<Rightarrow> CopyOptions \<Rightarrow> Collector" where
  "the_collector gz lib opts = Index_New (Manifest_New gz) (Mirror_New lib (CopyImage lib)) opts"

lemma the_collector_simps [simp]:
  "cl_Opts (the_collector gz lib opts) = opts"
  "cl_Manifest (the_collector gz lib opts) = Manifest_New gz"
  "cl_Mirror (the_collector gz lib opts) = Mirror_New lib (CopyImage lib)"
  by (simp_all add: the_collector_def)

definition completed :: "gunzip \<Rightarrow> image_lib \<Rightarrow> CopyOptions \<Rightarrow> string \<Rightarrow> ExecutorSchema" where
  "completed gz lib opts kind =
     \<lparr>ex_Manifest = Some (Manifest_New gz), ex_Mirror = Some (Mirror_New lib (CopyImage lib)),
      ex_Collector = Some (Collector_Collect (the_collector gz lib (set_target kind opts))),
      ex_Opts = set_target kind opts, ex_Dir = Some NewDirectory\<rparr>"

lemma Complete_run:
  "Complete gz lib (new_executor opts) (kind # rest) w =
     (Ok (completed gz lib opts kind), w\<lparr>level := gl_LogLevel (co_Global opts)\<rparr>)"
  by (simp add: Complete_def new_executor_def completed_def the_collector_def slice_at_def
      log_Level_def go_seq_def go_bind_def go_lift_def go_return_def Let_def)

lemma completed_simps [simp]:
  "ex_Dir (completed gz lib opts kind) = Some NewDirectory"
  "ex_Collector (completed gz lib opts kind) =
     Some (Collector_Collect (the_collector gz lib (set_target kind opts)))"
  "ex_Opts (completed gz lib opts kind) = set_target kind opts"
  by (simp_all add: completed_def)

lemma set_target_simps [simp]:
  "gl_Dir (co_Global (set_target kind opts)) = workingDir"
  "gl_ImageIndex (co_Global (set_target kind opts)) = kind"
  "gl_Reference (co_Global (set_target kind opts)) = gl_Reference (co_Global opts)"
  "co_RetryOpts (set_target kind opts) = co_RetryOpts opts"
  by (simp_all add: set_target_def)

lemma in_working_dir_target [simp]: "in_working_dir (set_target kind opts)"
  by (simp add: in_working_dir_def workingDir_def)

text \<open>
  A run of the command: rejected command lines leave with code 1 and change nothing; for the
  others the log gets a line, the level is set, and the executor runs.
\<close>

definition started :: "CopyOptions \<Rightarrow> string list \<Rightarrow> world \<Rightarrow> world" where
  "started opts args w =
     (snd (log_Info ''validate : image-index %v'' [FStrs args] w))\<lparr>level := gl_LogLevel (co_Global opts)\<rparr>"

lemma command_run_accepted:
  assumes "accepted opts args"
  shows "command_run gz lib opts args w =
    (case Executor_Run (completed gz lib opts (hd args)) (started opts args w) of
       (Ok _, w') \<Rightarrow> (Ok 0, w')
     | (Err e, w') \<Rightarrow> (Ok 1, snd (log_Error ''%v '' [FErr e] w'))
     | (Panic x, w') \<Rightarrow> (Panic x, w'))"
proof -
  obtain kind rest where args: "args = kind # rest" using assms by (auto simp: accepted_def)
  have "Validate (new_executor opts) args w = log_Info ''validate : image-index %v'' [FStrs args] w"
    using assms by (auto simp: Validate_run Let_def accepted_def new_executor_def Contains_iff_sublist)
  then have "Validate (new_executor opts) args w =
      (Ok (), snd (log_Info ''validate : image-index %v'' [FStrs args] w))"
    using log_methods_Ok(2) by (metis prod.collapse)
  then show ?thesis
    by (simp add: command_run_def go_try_def go_bind_def args Complete_run started_def go_return_def
        go_seq_def log_Error_run split: prod.split res.split)
qed

lemma command_run_rejected:
  assumes "\<not> accepted opts args" "args \<noteq> []"
  shows "command_run gz lib opts args w = (Ok 1, w)"
proof -
  have "\<exists>e. Validate (new_executor opts) args w = (Err e, w)"
    using assms by (cases args) (auto simp: Validate_run Let_def accepted_def new_executor_def)
  then show ?thesis by (auto simp: command_run_def go_try_def go_return_def)
qed

lemma started_fields [simp]:
  "fs (started opts args w) = fs w" "cwd (started opts args w) = cwd w"
  "faults (started opts args w) = faults w" "net (started opts args w) = net w"
  "entry (started opts args w) = entry w"
  using log_same_files(2) log_no_copies(2)
  by (simp_all add: started_def keeps_def same_files_def no_copies_def entry_def fun_eq_iff)

section \<open>Before the collection\<close>

text \<open>Where a run writes before it collects: the logs, and the directories of the cache.\<close>

definition run_region :: "path \<Rightarrow> path \<Rightarrow> bool" where
  "run_region d q \<longleftrightarrow> prefix (d @ [''logs'']) q \<or> prefix q (d @ [''logs'']) \<or>
     prefix q (d @ [''working-dir'', ''release-images'']) \<or>
     prefix q (d @ [''working-dir'', ''operator-images''])"

definition prelude :: "world \<Rightarrow> world \<Rightarrow> bool" where
  "prelude w v \<longleftrightarrow> changes_only run_region w v \<and> keeps_wf w v \<and> no_copies w v"

interpretation prelude: world_relation prelude
  by unfold_locales (auto simp: prelude_def keeps_wf_def no_copies_def changes_only_def)

lemma keeps_prelude:
  "keeps (changes_only run_region) m \<Longrightarrow> keeps keeps_wf m \<Longrightarrow> keeps no_copies m \<Longrightarrow> keeps prelude m"
  by (simp add: keeps_def prelude_def)

lemma log_only_prelude: "keeps log_only m \<Longrightarrow> keeps prelude m"
  by (intro keeps_prelude keeps_log_only)

lemma place_relative_comps: "\<not> HasPrefix p ''/'' \<Longrightarrow> place d p = d @ comps p"
  by (simp add: place_def)

lemma place_run_dirs:
  "place d logsDir = d @ [''logs'']" "place d workingDir = d @ [''working-dir'']"
  "place d (workingDir @ ''/'' @ cliReleaseImageDir) = d @ [''working-dir'', ''release-images'']"
  "place d (workingDir @ ''/'' @ cliOperatorImageDir) = d @ [''working-dir'', ''operator-images'']"
  by (simp_all add: place_def HasPrefix_def comps_def logsDir_def workingDir_def cliReleaseImageDir_def
      cliOperatorImageDir_def)

lemma plain_run_dirs:
  "plain logsDir" "plain workingDir" "plain (workingDir @ ''/'' @ cliReleaseImageDir)"
  "plain (workingDir @ ''/'' @ cliOperatorImageDir)"
  by (simp_all add: plain_def comps_def logsDir_def workingDir_def cliReleaseImageDir_def
      cliOperatorImageDir_def)

lemma prelude_steps:
  "keeps prelude (os_RemoveAll logsDir)"
  "p \<in> {workingDir, logsDir,
      gl_Dir (co_Global (ex_Opts (completed gz lib opts kind))) @ ''/'' @ cliReleaseImageDir,
      gl_Dir (co_Global (ex_Opts (completed gz lib opts kind))) @ ''/'' @ cliOperatorImageDir} \<Longrightarrow>
     keeps prelude (os_MkdirAll p)"
proof -
  have "prefix q (d @ [''working-dir'']) \<Longrightarrow> prefix q (d @ [''working-dir'', ''release-images''])" for q d
    using prefix_prefix [of q "d @ [''working-dir'']" "[''release-images'']"] by simp
  then have working: "prefix q (place d workingDir) \<Longrightarrow> run_region d q" for q d
    unfolding place_run_dirs run_region_def by blast
  have mkdir: "keeps prelude (os_MkdirAll p)"
    if "plain p" "\<And>d q. prefix q (place d p) \<Longrightarrow> run_region d q" for p
    using that by (intro keeps_prelude os_MkdirAll_changes keeps_intros)
  show "keeps prelude (os_MkdirAll p)" if "p \<in> {workingDir, logsDir,
      gl_Dir (co_Global (ex_Opts (completed gz lib opts kind))) @ ''/'' @ cliReleaseImageDir,
      gl_Dir (co_Global (ex_Opts (completed gz lib opts kind))) @ ''/'' @ cliOperatorImageDir}"
    using that working mkdir [OF plain_run_dirs(1)] mkdir [OF plain_run_dirs(2)]
      mkdir [OF plain_run_dirs(3)] mkdir [OF plain_run_dirs(4)]
    unfolding place_run_dirs by (auto simp: run_region_def)
  show "keeps prelude (os_RemoveAll logsDir)"
    by (intro keeps_prelude os_RemoveAll_changes keeps_intros plain_run_dirs)
      (simp add: place_run_dirs run_region_def)
qed

lemma ends_collect:
  "ends_with prelude (Collector_Collect (the_collector gz lib (set_target kind opts)))
     (Executor_Run (completed gz lib opts kind))"
  by (rule prelude.ends_Executor_Run)
    (use prelude_steps(1) prelude_steps(2) [of _ gz lib opts kind] in
      \<open>auto intro: log_only_prelude log_appends\<close>)

lemma command_Ok:
  assumes "accepted opts args" "command_run gz lib opts args w = (Ok 0, w')"
  obtains v where "prelude w v"
    "Collector_Collect (the_collector gz lib (set_target (hd args) opts)) v = (Ok (), w')"
proof -
  have "Executor_Run (completed gz lib opts (hd args)) (started opts args w) = (Ok (), w')"
    using assms(2) unfolding command_run_accepted [OF assms(1)] by (auto split: prod.splits res.splits)
  then obtain v where v: "prelude (started opts args w) v"
    "Collector_Collect (the_collector gz lib (set_target (hd args) opts)) v = (Ok (), w')"
    using ends_collect unfolding ends_with_def by blast
  have "prelude w v" using v(1)
    by (simp add: prelude_def changes_only_def keeps_wf_def fs_wf_def no_copies_def)
  then show ?thesis using v(2) by (rule that)
qed

section \<open>What a run keeps\<close>

lemma command_outcome:
  assumes "args \<noteq> []"
  shows "(\<exists>x. fst (command_run gz lib opts args w) = Panic x) \<or>
    fst (command_run gz lib opts args w) \<in> {Ok 0, Ok 1}"
proof (cases "accepted opts args")
  case True
  then show ?thesis by (auto simp: command_run_accepted split: prod.split res.split)
qed (use assms command_run_rejected in simp)

text \<open>A relation that does not look at the level is kept by the command when the executor keeps it.\<close>

context world_relation
begin

lemma keeps_command:
  assumes "\<And>ex. ex = completed gz lib opts (hd args) \<Longrightarrow> keeps R (Executor_Run ex)"
    and "\<And>w v. same_files w v \<Longrightarrow> no_copies w v \<Longrightarrow> R w v" "args \<noteq> []"
  shows "keeps R (command_run gz lib opts args)"
proof (rule keepsI)
  fix w
  show "R w (snd (command_run gz lib opts args w))"
  proof (cases "accepted opts args")
    case True
    let ?s = "started opts args w"
    obtain r w1 where 1: "Executor_Run (completed gz lib opts (hd args)) ?s = (r, w1)" by fastforce
    have "R w ?s" by (rule assms(2)) (simp_all add: same_files_def no_copies_def)
    then have 2: "R w w1" using keepsD [OF assms(1) [OF HOL.refl] 1] by (rule trans)
    have "R w1 (w1\<lparr>stderr := x\<rparr>)" for x
      by (rule assms(2)) (simp_all add: same_files_def no_copies_def)
    then show ?thesis using 1 2 trans [OF 2] True
      by (cases r) (simp_all add: command_run_accepted log_Error_run)
  next
    case False
    then show ?thesis using assms(3) command_run_rejected refl by simp
  qed
qed

end

lemma keeps_run_prelude:
  assumes "world_relation R" "\<And>w v. prelude w v \<Longrightarrow> R w v"
    and "keeps R (Collector_Collect (the_collector gz lib (set_target kind opts)))"
  shows "keeps R (Executor_Run (completed gz lib opts kind))"
proof -
  have pre: "keeps prelude m \<Longrightarrow> keeps R m" for m :: "unit go"
    by (rule keeps_mono, assumption, rule assms(2))
  show ?thesis
  proof (rule world_relation.keeps_Executor_Run [OF assms(1) completed_simps(1,2) _ _ _ _ assms(3)])
    show "keeps R (log_Error f a)" "keeps R (log_Trace f a)" for f a
      by (rule pre, rule log_only_prelude, rule log_appends)+
    show "keeps R (os_RemoveAll logsDir)" by (rule pre, rule prelude_steps(1))
    fix p
    assume "p \<in> {workingDir, logsDir,
      gl_Dir (co_Global (ex_Opts (completed gz lib opts kind))) @ ''/'' @ cliReleaseImageDir,
      gl_Dir (co_Global (ex_Opts (completed gz lib opts kind))) @ ''/'' @ cliOperatorImageDir}"
    then show "keeps R (os_MkdirAll p)" by (rule pre [OF prelude_steps(2)])
  qed
qed

lemma command_wf:
  assumes "library_writes R lib" "args \<noteq> []"
  shows "keeps keeps_wf (command_run gz lib opts args)"
proof (rule wf.keeps_command [OF _ same_files_wf assms(2)])
  show "keeps keeps_wf (Executor_Run ex)" if "ex = completed gz lib opts (hd args)" for ex
    unfolding that
    by (rule keeps_run_prelude [OF wf.world_relation_axioms])
      (simp_all add: prelude_def the_collector_def imageindex.collect_wf [OF assms(1)])
qed

text \<open>Where a run may write.\<close>

definition command_region :: "CopyOptions \<Rightarrow> path \<Rightarrow> path \<Rightarrow> bool" where
  "command_region opts d q \<longleftrightarrow> run_region d q \<or> collect_region oci_region opts d q"

lemma collect_region_lib:
  "collect_region (lib_region R) opts d q \<Longrightarrow> collect_region oci_region opts d q \<or> R d q"
  by (auto simp: collect_region_def kind_region_def lib_region_def)

lemma copy_dir_plain:
  assumes "plain (image_index_dir (gl_Reference (co_Global opts)))" "''..'' \<notin> set (comps kind)"
  shows "plain (copy_dir (set_target k opts) kind)" "copy_dir (set_target k opts) kind \<noteq> []"
  using assms unfolding copy_dir_def plain_def comps_dir_path3
  by (simp_all add: workingDir_def comps_def dir_path_def)

lemma target_collect_changes:
  assumes "library_writes R lib" "archives_plain gz"
    and "plain (image_index_dir (gl_Reference (co_Global opts)))"
  shows "keeps (changes_only (collect_region (lib_region R) (set_target k opts)))
    (Collector_Collect (the_collector gz lib (set_target k opts)))"
  unfolding the_collector_def
  by (rule imageindex.collect_changes [OF assms(1)])
    (use assms(2,3) release_extract_plain [of "set_target k opts"] copy_dir_plain [OF assms(3)] in
      \<open>simp_all add: extract_ok_def operator_extract_dir_def releaseImageDir_def operatorImageDir_def
        operatorImageExtractDir_def comps_def\<close>)

lemma command_changes:
  assumes "library_writes R lib" "archives_plain gz" "args \<noteq> []"
    and "plain (image_index_dir (gl_Reference (co_Global opts)))"
  shows "keeps (changes_only (\<lambda>d q. command_region (set_target (hd args) opts) d q \<or> R d q))
    (command_run gz lib opts args)"
proof (rule changes.keeps_command [OF _ same_files_changes assms(3)])
  let ?t = "set_target (hd args) opts"
  let ?P = "\<lambda>d q. command_region ?t d q \<or> R d q"
  show "keeps (changes_only ?P) (Executor_Run ex)"
    if "ex = completed gz lib opts (hd args)" for ex
    unfolding that
  proof (rule keeps_run_prelude [OF changes.world_relation_axioms])
    show "changes_only ?P w v" if "prelude w v" for w v
      using that by (auto simp: prelude_def command_region_def intro: changes_only_mono)
    show "keeps (changes_only ?P) (Collector_Collect (the_collector gz lib ?t))"
      using target_collect_changes [OF assms(1,2,4)]
      by (rule keeps_changes_mono) (auto simp: command_region_def dest: collect_region_lib)
  qed
qed

text \<open>The calls of a run are those of its collection.\<close>

lemma net_or_log:
  assumes "keeps no_copies m" "\<And>v. length (net (snd (k v))) \<le> length (net v) + n"
  shows "length (net (snd (or_log m k v))) \<le> length (net v) + n"
proof -
  obtain r v1 where 1: "m v = (r, v1)" by fastforce
  then have "net v1 = net v" using keeps_no_copies_net [OF assms(1), of v] by simp
  then show ?thesis using 1 assms(2) [of v1]
    by (cases r) (simp_all add: or_log_def go_try_def go_seq_def go_bind_def go_fail_def log_Error_run)
qed

lemma run_calls_bound:
  assumes "\<And>v. length (net (snd (Collector_Collect (the_collector gz lib (set_target kind opts)) v)))
    \<le> length (net v) + n"
  shows "length (net (snd (Executor_Run (completed gz lib opts kind) v))) \<le> length (net v) + n"
  unfolding Executor_Run_def Let_def completed_simps NewDirectory_def MakeDir_def deref_def option.case
    go_bind_lift go_seq_def
  by (intro net_bind_quiet net_or_log no_copies.keeps_ignore_error os_MkdirAll_no_copies
      os_RemoveAll_no_copies log_no_copies assms)

lemma command_calls:
  assumes "trusted_lib lib" "args \<noteq> []"
  shows "length (net (snd (command_run gz lib opts args w)))
    \<le> length (net w) + Suc (nat (re_MaxRetry (co_RetryOpts opts)))"
proof (cases "accepted opts args")
  case True
  let ?t = "set_target (hd args) opts" and ?s = "started opts args w"
  let ?c = "Collector_Collect (the_collector gz lib ?t)"
  have "\<not> (asks ''operator'' ?t \<and> asks ''release'' ?t)" using accepted_asks [OF True] by blast
  then have bound: "length (net (snd (?c v))) \<le> length (net v) + Suc (nat (re_MaxRetry (co_RetryOpts opts)))" for v
    using imageindex.collect_calls [OF trusted_writes [OF assms(1)], of ?t gz v] by (simp add: the_collector_def)
  have "length (net (snd (Executor_Run (completed gz lib opts (hd args)) ?s)))
      \<le> length (net ?s) + Suc (nat (re_MaxRetry (co_RetryOpts opts)))"
    by (rule run_calls_bound) (rule bound)
  then show ?thesis
    by (auto simp: command_run_accepted [OF True] log_Error_run split: prod.split res.split)
next
  case False
  then show ?thesis using assms(2) by (simp add: command_run_rejected)
qed

lemma prelude_release_cache:
  "prelude w v \<Longrightarrow> entry v (place (cwd v) (copy_dir (set_target kind opts) releaseImageExtractDir)) =
     entry w (place (cwd w) (copy_dir (set_target kind opts) releaseImageExtractDir))"
  using place_copy_dir [OF in_working_dir_target, of releaseImageExtractDir "cwd w" kind opts]
  by (simp add: prelude_def changes_only_def run_region_def releaseImageExtractDir_def)

end
