(* ===== verification/Program.thy ===== *)
theory Program
  imports Running
begin

text \<open>
  The program from its command line: what \<open>main\<close> makes of the outcome of the command, the cases of
  \<open>execute\<close>, and the run that a plain command line starts.
\<close>

section \<open>A command line\<close>

text \<open>The options of \<open>list <kind> --image-index <ref> --loglevel <level>\<close>.\<close>

definition list_options :: "string \<Rightarrow> string \<Rightarrow> string \<Rightarrow> CopyOptions" where
  "list_options env ref l =
     (command_options env)\<lparr>co_Global := (co_Global (command_options env))\<lparr>gl_LogLevel := l, gl_Reference := ref\<rparr>\<rparr>"

lemma list_words:
  assumes "\<not> prefix ''-'' kind"
  shows "spells command_flags [Positional kind, Setting (CommandFlag (visible ''image-index'' VarReference)) ref,
      Setting (CommandFlag (visible ''loglevel'' VarLogLevel)) l]
    [kind, ''--image-index'', ref, ''--loglevel'', l]"
proof -
  have "spells command_flags [Positional kind, Setting (CommandFlag (visible ''image-index'' VarReference)) ref,
      Setting (CommandFlag (visible ''loglevel'' VarLogLevel)) l]
    [kind, ''--'' @ ''image-index'', ref, ''--'' @ ''loglevel'', l]"
    by (intro spells_positional spells_next spells_none)
      (simp_all add: assms formal_def find_flag_def command_flags_def flag_name_def visible_def)
  then show ?thesis by simp
qed

lemma list_parsed:
  assumes "\<not> prefix ''-'' kind"
  shows "ParseFlags command_flags [kind, ''--image-index'', ref, ''--loglevel'', l] (command_options env) =
    Ok \<lparr>ps_Opts = list_options env ref l, ps_Help = False, ps_Version = False, ps_Args = [kind]\<rparr>"
  unfolding ParseFlags_start spelled_parsed [OF list_words [OF assms]]
  by (simp add: parse_start_def FlagSet_Set_def visible_def list_options_def)

section \<open>How the program ends\<close>

text \<open>What \<open>main\<close> makes of the outcome of a command whose usage is \<open>usage\<close>.\<close>

definition ended :: "string list \<Rightarrow> int res \<times> world \<Rightarrow> int res \<times> world" where
  "ended usage rw = (case rw of
     (Err e, v) \<Rightarrow> (Ok 1, v\<lparr>stderr := stderr v @ [''Error: '' @ err_text e] @ usage @
       [error_line (''[main] '' @ err_text e @ '' '')]\<rparr>)
   | _ \<Rightarrow> rw)"

lemma ended_simps [simp]:
  "ended usage (Ok n, v) = (Ok n, v)" "ended usage (Panic x, v) = (Panic x, v)"
  "ended usage (Err e, v) = (Ok 1, v\<lparr>stderr := stderr v @ [''Error: '' @ err_text e] @ usage @
       [error_line (''[main] '' @ err_text e @ '' '')]\<rparr>)"
  by (simp_all add: ended_def)

lemma main_or_usage:
  "go_try (or_usage usage m) (\<lambda>r. case r of
     Inl err \<Rightarrow> go_seq (log_Error ''[main] %v '' [FErr err]) (go_return 1)
   | Inr n \<Rightarrow> go_return n) v = ended usage (m v)"
  by (cases "m v"; cases "fst (m v)")
    (simp_all add: or_usage_def go_try_def go_seq_def go_bind_def go_return_def go_fail_def print_lines_def
      log_Error_run fmt_verb_def fmt_extra_def)

lemma main_program_run: "main_program texts gz lib env argv w =
    (case Find command_flags argv of
       Some a \<Rightarrow> ended (ct_CompleteUsage texts) (complete texts a (w\<lparr>level := ''info''\<rparr>))
     | None \<Rightarrow> ended (ct_Usage texts)
         (execute texts gz lib command_flags (command_options env) argv (w\<lparr>level := ''info''\<rparr>)))"
  by (simp add: main_program_def NewCliCmd_Ok log_New_def ExecuteC_def main_or_usage split: option.split)

lemma MinimumNArgs_1: "MinimumNArgs 1 args =
    (if args = [] then Err (ErrorString ''requires at least 1 arg(s), only received 0'') else Ok ())"
proof (cases args)
  case Nil
  have "MinimumNArgs 1 [] = Err (ErrorString ''requires at least 1 arg(s), only received 0'')" by code_simp
  with Nil show ?thesis by simp
qed (simp add: MinimumNArgs_def)

lemma execute_cases: "execute texts gz lib fl opts argv v =
    (case ParseFlags fl argv opts of
       Err e \<Rightarrow> (Err e, v)
     | Panic x \<Rightarrow> (Panic x, v)
     | Ok st \<Rightarrow>
         if ps_Help st then (Ok 0, v\<lparr>stdout := stdout v @ ct_Help texts\<rparr>)
         else if ps_Version st then (Ok 0, v\<lparr>stdout := stdout v @ [''list version v0.0.1'']\<rparr>)
         else if ps_Args st = [] then (Err (ErrorString ''requires at least 1 arg(s), only received 0''), v)
         else command_run gz lib (ps_Opts st) (ps_Args st) v)"
  by (simp add: execute_def MinimumNArgs_1 print_lines_def go_bind_def go_seq_def go_lift_def go_return_def
      del: One_nat_def split: res.split)

lemma complete_cases: "complete texts a v =
    (if a = [] then (Err (ErrorString ''requires at least 1 arg(s), only received 0''), v)
     else (Ok 0, v\<lparr>stdout := stdout v @ fst (ct_Completions texts a), stderr := stderr v @ snd (ct_Completions texts a)\<rparr>))"
  by (simp add: complete_def MinimumNArgs_1 print_lines_def go_bind_def go_seq_def go_lift_def go_return_def
      case_prod_beta del: One_nat_def)

lemma ended_run: "args \<noteq> [] \<Longrightarrow> ended usage (command_run gz lib opts args v) = command_run gz lib opts args v"
  using command_outcome [of args gz lib opts v]
  by (cases "command_run gz lib opts args v") auto

lemma list_main:
  assumes "kind \<notin> set completion_names" "kind \<noteq> []" "\<not> prefix ''-'' kind"
  shows "main_program texts gz lib env [kind, ''--image-index'', ref, ''--loglevel'', l] w =
    command_run gz lib (list_options env ref l) [kind] (w\<lparr>level := ''info''\<rparr>)"
proof -
  have "kind \<noteq> ''--''" using assms(3) by auto
  then have "Find command_flags [kind, ''--image-index'', ref, ''--loglevel'', l] = None"
    using assms by (auto simp: Find_def HasPrefix_def prefix_def)
  then show ?thesis
    by (simp add: main_program_run execute_cases list_parsed [OF assms(3)] ended_run)
qed

end
