(* ===== verification/Ignored.thy ===== *)
theory Ignored
  imports Program
begin

text \<open>
  Which options a run depends on. The system contexts of pkg/mirror/options.go take the certificate
  path, the shared blob directory and the daemon host of an image, and nothing else of it: the
  credentials, the authentication file and the TLS setting of either image, and everything said
  about compression, are read from the command line and dropped.
\<close>

section \<open>Options without what is dropped\<close>

definition used_image :: "imageOptions \<Rightarrow> imageOptions" where
  "used_image i = zero_imageOptions\<lparr>io_dockerCertPath := io_dockerCertPath i,
     io_sharedBlobDir := io_sharedBlobDir i, io_dockerDaemonHost := io_dockerDaemonHost i\<rparr>"

definition used_options :: "CopyOptions \<Rightarrow> CopyOptions" where
  "used_options opts =
     opts\<lparr>co_SrcImage := used_image (co_SrcImage opts),
          co_DestImage := zero_imageDestOptions\<lparr>de_imageOptions :=
            used_image (de_imageOptions (co_DestImage opts))\<rparr>\<rparr>"

lemma used_image_simps [simp]:
  "io_dockerCertPath (used_image i) = io_dockerCertPath i"
  "io_sharedBlobDir (used_image i) = io_sharedBlobDir i"
  "io_dockerDaemonHost (used_image i) = io_dockerDaemonHost i"
  by (simp_all add: used_image_def)

lemma used_options_simps [simp]:
  "co_Global (used_options opts) = co_Global opts" "co_Shared (used_options opts) = co_Shared opts"
  "co_DeprecatedTLSVerify (used_options opts) = co_DeprecatedTLSVerify opts"
  "co_RetryOpts (used_options opts) = co_RetryOpts opts" "co_Format (used_options opts) = co_Format opts"
  "co_RemoveSignatures (used_options opts) = co_RemoveSignatures opts"
  "co_SignByFingerprint (used_options opts) = co_SignByFingerprint opts"
  "co_SignBySigstorePrivateKey (used_options opts) = co_SignBySigstorePrivateKey opts"
  "co_PreserveDigests (used_options opts) = co_PreserveDigests opts"
  "co_SrcImage (used_options opts) = used_image (co_SrcImage opts)"
  "de_imageOptions (co_DestImage (used_options opts)) = used_image (de_imageOptions (co_DestImage opts))"
  by (simp_all add: used_options_def)

lemma used_options_updates:
  "with_RemoveSignatures (used_options opts) = used_options (with_RemoveSignatures opts)"
  "set_target kind (used_options opts) = used_options (set_target kind opts)"
  by (simp_all add: with_RemoveSignatures_def set_target_def used_options_def)

section \<open>The mirror\<close>

lemma image_NewSystemContext_used:
  "image_NewSystemContext g s (used_image i) = image_NewSystemContext g s i"
  by (simp add: image_NewSystemContext_def)

lemma copy_refs_used: "copy_refs lib mc (used_options opts) out pc s d = copy_refs lib mc opts out pc s d"
  by (simp add: copy_refs_def image_NewSystemContext_used)

lemma Mirror_copy_used:
  "Mirror_copy lib mc src dest (used_options opts) out = Mirror_copy lib mc src dest opts out"
  by (simp add: Mirror_copy_def copy_with_policy_def used_options_updates copy_refs_used cong: sum.case_cong)

text \<open>The options a step gives back are those it was given, without what is dropped.\<close>

definition go_used :: "CopyOptions go \<Rightarrow> CopyOptions go" where
  "go_used m = go_bind m (\<lambda>opts. go_return (used_options opts))"

lemma go_bind_used: "go_bind (go_used m) k = go_bind m (\<lambda>opts. k (used_options opts))"
  by (simp add: go_used_def go_bind_assoc)

lemma go_used_simps:
  "go_used (go_return opts) = go_return (used_options opts)" "go_used (go_fail e) = go_fail e"
  "go_used (go_bind m k) = go_bind m (\<lambda>a. go_used (k a))" "go_used (go_seq n h) = go_seq n (go_used h)"
  by (simp_all add: go_used_def go_bind_assoc go_seq_def)

lemma Mirror_Run_used:
  "Mirror_Run lib mc src dest mode (used_options opts) out =
     go_bind (Mirror_Run lib mc src dest mode opts out) (\<lambda>(o', e). go_return (used_options o', e))"
  by (rule ext) (simp add: Mirror_Run_def Mirror_copy_used used_options_updates go_bind_def go_try_def
      go_return_def split: prod.split res.split)

section \<open>The collector\<close>

lemma copy_image_used:
  "copy_image (Mirror_New lib mc) (used_options opts) writer dir =
     go_used (copy_image (Mirror_New lib mc) opts writer dir)"
proof -
  have "go_used (case e of Some x \<Rightarrow> go_fail x | None \<Rightarrow> go_return o') =
      (case e of Some x \<Rightarrow> go_fail x | None \<Rightarrow> go_return (used_options o'))" for e :: "go_error option" and o'
    by (cases e) (simp_all add: go_used_simps)
  then show ?thesis
    by (simp add: copy_image_def Mirror_New_def Mirror_Run_used go_bind_assoc go_used_simps case_prod_beta
        cong: option.case_cong)
qed

lemma extract_used:
  "extract_operator m (used_options opts) dir i = extract_operator m opts dir i"
  "extract_release m (used_options opts) dir i = extract_release m opts dir i"
  by (simp_all add: extract_operator_def extract_release_def)

lemma fetch_used:
  "fetch_operator (Index_New m (Mirror_New lib mc) (used_options opts)) writer i =
     go_used (fetch_operator (Index_New m (Mirror_New lib mc) opts) writer i)"
  "fetch_release (Index_New m (Mirror_New lib mc) o1) (used_options opts) writer i =
     go_used (fetch_release (Index_New m (Mirror_New lib mc) o2) opts writer i)"
  by (simp_all add: fetch_operator_def fetch_release_def copy_image_used go_bind_used go_used_simps
      extract_used Let_def)

lemma if_missing_used:
  "if_missing p (go_used m) (go_return (used_options opts)) = go_used (if_missing p m (go_return opts))"
proof -
  have "(if b then go_used m else go_return (used_options opts)) = go_used (if b then m else go_return opts)" for b
    by (simp add: go_used_simps)
  then show ?thesis by (simp add: if_missing_def go_used_simps)
qed

lemma list_used:
  "list_operators m (used_options opts) i label = list_operators m opts i label"
  "list_release m (used_options opts) i = list_release m opts i"
  by (simp_all add: list_operators_def list_release_def)

lemma collect_operator_used:
  "collect_operator (Index_New m (Mirror_New lib mc) (used_options opts)) writer i label =
     go_used (collect_operator (Index_New m (Mirror_New lib mc) opts) writer i label)"
  by (simp add: collect_operator_def fetch_used if_missing_used go_bind_used go_used_simps list_used Let_def)

lemma collect_release_used:
  "collect_release (Index_New m (Mirror_New lib mc) o1) (used_options opts) writer i =
     collect_release (Index_New m (Mirror_New lib mc) o2) opts writer i"
  using fetch_used(2) [of m lib mc o1 opts writer i o2]
  by (simp add: collect_release_def if_missing_used go_bind_used list_used Let_def)

lemma collect_with_used:
  "collect_with (Index_New m (Mirror_New lib mc) (used_options opts)) writer =
     collect_with (Index_New m (Mirror_New lib mc) opts) writer"
proof -
  have "(if b then go_used n else go_return (used_options opts)) = go_used (if b then n else go_return opts)"
    for b n by (simp add: go_used_simps)
  then show ?thesis
    using collect_release_used [of m lib mc "used_options opts" _ writer _ opts]
    by (simp add: collect_with_def collect_operator_used go_bind_used Let_def cong: if_cong)
qed

lemma Collect_used:
  "Collector_Collect (the_collector gz lib (used_options opts)) = Collector_Collect (the_collector gz lib opts)"
  by (simp add: Collector_Collect_def the_collector_def collect_with_used cong: sum.case_cong)

lemma Executor_used:
  "Executor_Run (completed gz lib (used_options opts) kind) = Executor_Run (completed gz lib opts kind)"
  by (simp add: Executor_Run_def used_options_updates Collect_used)

lemma command_used: "command_run gz lib (used_options opts) args = command_run gz lib opts args"
proof (rule ext)
  fix w
  have accept: "accepted (used_options opts) args = accepted opts args" by (simp add: accepted_def)
  show "command_run gz lib (used_options opts) args w = command_run gz lib opts args w"
  proof (cases "accepted opts args")
    case True
    then show ?thesis using command_run_accepted [of "used_options opts" args gz lib w] accept
      by (simp add: command_run_accepted Executor_used started_def)
  next
    case False
    have "Validate (new_executor (used_options opts)) args w = Validate (new_executor opts) args w"
      by (simp add: Validate_run new_executor_def)
    moreover have "fst (Validate (new_executor opts) args w) \<noteq> Ok ()"
      using False by (simp add: Validate_Ok new_executor_def)
    ultimately show ?thesis
      by (cases "Validate (new_executor opts) args w")
        (auto simp: command_run_def go_try_def split: res.split)
  qed
qed

section \<open>The flags without effect\<close>

definition ignored_flags :: "string list" where
  "ignored_flags =
     concat (map (\<lambda>pre. map ((@) pre) [''authfile'', ''creds'', ''username'', ''password'',
       ''registry-token'', ''tls-verify'', ''no-creds'']) [''src-'', ''dest-'']) @
     [''screds'', ''dcreds'', ''dest-compress'', ''dest-decompress'',
      ''dest-oci-accept-uncompressed-layers'', ''dest-compress-format'', ''dest-compress-level'',
      ''dest-precompute-digests'']"

fun ignored_var :: "flag_var \<Rightarrow> bool" where
  "ignored_var (VarImage i f) = (f \<in> {AuthFile, Creds, UserName, Password, RegistryToken, TlsVerify, NoCreds})"
| "ignored_var (VarDest f) = True"
| "ignored_var _ = False"

lemma ignored_names:
  "list_all (\<lambda>n. case find_flag command_flags n of Some f \<Rightarrow> ignored_var (fl_Var f) | None \<Rightarrow> False) ignored_flags"
  by code_simp

lemma set_image_used:
  "f \<in> {AuthFile, Creds, UserName, Password, RegistryToken, TlsVerify, NoCreds} \<Longrightarrow>
     set_image f s i = Ok i' \<Longrightarrow> used_image i' = used_image i"
  by (cases f) (auto simp: res_map_Ok used_image_def)

lemma set_dest_used: "set_dest f s d = Ok d' \<Longrightarrow> de_imageOptions d' = de_imageOptions d"
  by (cases f) (auto simp: res_map_Ok)

lemma set_var_used:
  assumes "ignored_var v" "set_var v s co = Ok co'"
  shows "used_options co' = used_options co"
proof (cases v)
  case (VarImage i f)
  then have f: "f \<in> {AuthFile, Creds, UserName, Password, RegistryToken, TlsVerify, NoCreds}"
    using assms(1) by simp
  show ?thesis
  proof (cases i)
    case SrcImage
    then obtain i' where "set_image f s (co_SrcImage co) = Ok i'" "co' = co\<lparr>co_SrcImage := i'\<rparr>"
      using VarImage assms(2) by (auto simp: res_map_Ok)
    then show ?thesis using set_image_used [OF f, of s "co_SrcImage co" i'] by (simp add: used_options_def)
  next
    case DestImage
    then obtain i' where "set_image f s (de_imageOptions (co_DestImage co)) = Ok i'"
      "co' = co\<lparr>co_DestImage := (co_DestImage co)\<lparr>de_imageOptions := i'\<rparr>\<rparr>"
      using VarImage assms(2) by (auto simp: res_map_Ok)
    then show ?thesis using set_image_used [OF f, of s "de_imageOptions (co_DestImage co)" i']
      by (simp add: used_options_def)
  qed
next
  case (VarDest f)
  then obtain d' where "set_dest f s (co_DestImage co) = Ok d'" "co' = co\<lparr>co_DestImage := d'\<rparr>"
    using assms(2) by (auto simp: res_map_Ok)
  then show ?thesis using set_dest_used [of f s "co_DestImage co" d'] by (simp add: used_options_def)
qed (use assms in simp_all)

lemma set_flags_used:
  assumes "fst ` set settings \<subseteq> set ignored_flags" "set_flags command_flags settings co = Ok co'"
  shows "used_options co' = used_options co"
  using assms
proof (induction settings arbitrary: co)
  case (Cons p settings)
  obtain name s where p: "p = (name, s)" by fastforce
  obtain f co1 where f: "find_flag command_flags name = Some f" "set_var (fl_Var f) s co = Ok co1"
    "set_flags command_flags settings co1 = Ok co'"
    using Cons.prems(2) unfolding p by (auto split: option.splits res.splits)
  have "ignored_var (fl_Var f)"
    using ignored_names Cons.prems(1) f(1) p by (fastforce simp: list_all_iff split: option.splits)
  then have "used_options co1 = used_options co" using f(2) by (rule set_var_used)
  moreover have "used_options co' = used_options co1" using Cons.IH [OF _ f(3)] Cons.prems(1) by simp
  ultimately show ?case by simp
qed simp

section \<open>Command lines\<close>

text \<open>A setting of one of these flags in a command line\<close>

fun ignored_word :: "cl_word \<Rightarrow> bool" where
  "ignored_word (Setting (CommandFlag f) s) = (fl_Name f \<in> set ignored_flags)"
| "ignored_word w = False"

definition kept_words :: "cl_word list \<Rightarrow> cl_word list" where
  "kept_words ws = filter (\<lambda>w. \<not> ignored_word w) ws"

lemma kept_vars:
  "list_all (\<lambda>f. fl_Name f \<in> set ignored_flags \<longleftrightarrow> ignored_var (fl_Var f)) command_flags"
  by code_simp

lemma defined_ignored:
  assumes "defined_word command_flags (Setting (CommandFlag f) s)"
  shows "fl_Name f \<in> set ignored_flags \<longleftrightarrow> ignored_var (fl_Var f)"
proof -
  have "f \<in> set command_flags" using assms by (auto simp: find_flag_def find_Some_iff)
  then show ?thesis using kept_vars by (simp add: list_all_iff)
qed

lemma res_map_comp: "res_map g (res_map h r) = res_map (\<lambda>a. g (h a)) r"
  by (cases r) simp_all

lemma set_image_kept:
  "f \<notin> {AuthFile, Creds, UserName, Password, RegistryToken, TlsVerify, NoCreds} \<Longrightarrow>
     set_image f s (used_image i) = res_map used_image (set_image f s i)"
  by (cases f) (simp_all add: used_image_def)

lemma used_options_kept:
  "used_options (co\<lparr>co_SrcImage := i\<rparr>) = (used_options co)\<lparr>co_SrcImage := used_image i\<rparr>"
  "used_options (co\<lparr>co_DestImage := (co_DestImage co)\<lparr>de_imageOptions := i\<rparr>\<rparr>) =
     (used_options co)\<lparr>co_DestImage := (co_DestImage (used_options co))\<lparr>de_imageOptions := used_image i\<rparr>\<rparr>"
  "used_options (co\<lparr>co_Shared := s\<rparr>) = (used_options co)\<lparr>co_Shared := s\<rparr>"
  "used_options (co\<lparr>co_DeprecatedTLSVerify := d\<rparr>) = (used_options co)\<lparr>co_DeprecatedTLSVerify := d\<rparr>"
  "used_options (co\<lparr>co_RetryOpts := r\<rparr>) = (used_options co)\<lparr>co_RetryOpts := r\<rparr>"
  "used_options (co\<lparr>co_Global := g\<rparr>) = (used_options co)\<lparr>co_Global := g\<rparr>"
  by (simp_all add: used_options_def)

lemma set_var_kept:
  assumes "\<not> ignored_var v"
  shows "set_var v s (used_options co) = res_map used_options (set_var v s co)"
proof (cases v)
  case (VarImage i f)
  then show ?thesis using assms by (cases i) (simp_all add: set_image_kept used_options_kept res_map_comp)
qed (use assms in \<open>simp_all add: used_options_kept res_map_comp\<close>)

definition used_state :: "parse_state \<Rightarrow> parse_state" where
  "used_state st = st\<lparr>ps_Opts := used_options (ps_Opts st)\<rparr>"

lemma used_state_updates:
  "used_state (st\<lparr>ps_Args := a\<rparr>) = (used_state st)\<lparr>ps_Args := a\<rparr>"
  "used_state (st\<lparr>ps_Help := b\<rparr>) = (used_state st)\<lparr>ps_Help := b\<rparr>"
  "used_state (st\<lparr>ps_Version := b\<rparr>) = (used_state st)\<lparr>ps_Version := b\<rparr>"
  "used_state (st\<lparr>ps_Opts := co\<rparr>) = (used_state st)\<lparr>ps_Opts := used_options co\<rparr>"
  "ps_Args (used_state st) = ps_Args st" "ps_Opts (used_state st) = used_options (ps_Opts st)"
  by (simp_all add: used_state_def)

lemma FlagSet_Set_ignored:
  assumes "ignored_var (fl_Var f)" "FlagSet_Set (CommandFlag f) s st = Ok st1"
  shows "used_state st1 = used_state st"
  using assms set_var_used [OF assms(1)]
  by (auto simp: FlagSet_Set_def used_state_def res_map_Ok split: res.splits)

lemma FlagSet_Set_kept:
  assumes "\<And>g. f = CommandFlag g \<Longrightarrow> \<not> ignored_var (fl_Var g)"
  shows "FlagSet_Set f s (used_state st) = res_map used_state (FlagSet_Set f s st)"
proof -
  have "Value_Set f s (used_state st) = res_map used_state (Value_Set f s st)"
    using assms by (cases f) (simp_all add: used_state_updates set_var_kept res_map_comp)
  then show ?thesis by (cases "Value_Set f s st") (simp_all add: FlagSet_Set_def)
qed

lemma set_words_kept:
  assumes "set_words ws st = Ok st1" "list_all (defined_word command_flags) ws"
  shows "set_words (kept_words ws) (used_state st) = Ok (used_state st1)"
  using assms
proof (induction ws st rule: set_words.induct)
  case (2 a ws st)
  then show ?case by (simp add: kept_words_def used_state_updates)
next
  case (3 f s ws st)
  then obtain st2 where st2: "FlagSet_Set f s st = Ok st2" "set_words ws st2 = Ok st1"
    by (cases "FlagSet_Set f s st") simp_all
  have IH: "set_words (kept_words ws) (used_state st2) = Ok (used_state st1)" using 3 st2 by simp
  show ?case
  proof (cases "ignored_word (Setting f s)")
    case True
    then obtain g where g: "f = CommandFlag g" by (cases f) simp_all
    with True 3(3) have "ignored_var (fl_Var g)" using defined_ignored by simp
    with FlagSet_Set_ignored st2(1) g have "used_state st2 = used_state st" by blast
    with IH True show ?thesis by (simp add: kept_words_def)
  next
    case False
    then have "\<not> ignored_var (fl_Var g)" if "f = CommandFlag g" for g
      using that 3(3) defined_ignored [of g s] by simp
    then have "FlagSet_Set f s (used_state st) = Ok (used_state st2)"
      using FlagSet_Set_kept [of f s st] st2(1) by simp
    with IH False show ?thesis by (simp add: kept_words_def)
  qed
qed (simp add: kept_words_def)

text \<open>Words without settings of these flags, from options that differ only in what is dropped\<close>

lemma set_words_used:
  assumes "list_all (defined_word command_flags) ws" "\<not> list_ex ignored_word ws"
  shows "set_words ws (used_state st) = res_map used_state (set_words ws st)"
  using assms
proof (induction ws st rule: set_words.induct)
  case (2 a ws st)
  then show ?case by (simp add: used_state_updates)
next
  case (3 f s ws st)
  then have "\<not> ignored_var (fl_Var g)" if "f = CommandFlag g" for g
    using that defined_ignored [of g s] by simp
  from FlagSet_Set_kept [OF this] 3 show ?case by (cases "FlagSet_Set f s st") simp_all
qed simp

lemma kept_words_parsed:
  assumes "set_words ws st = Ok st1" "list_all (defined_word command_flags) ws"
  shows "\<exists>st2. set_words (kept_words ws) st = Ok st2 \<and> used_state st2 = used_state st1"
proof -
  have "list_all (defined_word command_flags) (kept_words ws)" "\<not> list_ex ignored_word (kept_words ws)"
    using assms(2) by (auto simp: kept_words_def list_all_iff list_ex_iff)
  from set_words_used [OF this, of st] set_words_kept [OF assms] show ?thesis
    by (auto simp: res_map_Ok)
qed

lemma execute_used:
  assumes "ParseFlags fl argv opts = Ok st" "ParseFlags fl argv' opts = Ok st'" "used_state st = used_state st'"
  shows "execute texts gz lib fl opts argv = execute texts gz lib fl opts argv'"
proof -
  have "ps_Help st = ps_Help st'" "ps_Version st = ps_Version st'" "ps_Args st = ps_Args st'"
    "used_options (ps_Opts st) = used_options (ps_Opts st')"
    using assms(3) by (auto simp: used_state_def dest: arg_cong [of _ _ ps_Help] arg_cong [of _ _ ps_Version]
        arg_cong [of _ _ ps_Args] arg_cong [of _ _ ps_Opts])
  then show ?thesis
    using command_used [of gz lib "ps_Opts st"] command_used [of gz lib "ps_Opts st'"]
    by (simp add: fun_eq_iff execute_cases assms(1,2))
qed

section \<open>Properties\<close>

text \<open>
  C36: twenty-two flags do nothing. Credentials, user names, passwords, tokens, authentication files
  and TLS verification given for the source or for the destination, and every setting about
  compression, are accepted and checked; then the program does exactly what it does for the same
  command line without them, in every world, with every image library.
\<close>

theorem flags_without_effect:
  assumes "spells command_flags ws argv" "spells command_flags (kept_words ws) argv'"
    and "set_words ws (parse_start (command_options env)) = Ok st"
    and "Find command_flags argv = None" "Find command_flags argv' = None"
  shows "main_program texts gz lib env argv = main_program texts gz lib env argv'"
proof -
  obtain st2 where "set_words (kept_words ws) (parse_start (command_options env)) = Ok st2"
    "used_state st2 = used_state st"
    using kept_words_parsed [OF assms(3) spells_defined [OF assms(1)]] by blast
  then have "execute texts gz lib command_flags (command_options env) argv =
      execute texts gz lib command_flags (command_options env) argv'"
    using assms(3) spelled_parsed [OF assms(1)] spelled_parsed [OF assms(2)]
    by (intro execute_used [of _ _ _ st _ st2]) (simp_all add: ParseFlags_start)
  then show ?thesis by (simp add: fun_eq_iff main_program_run assms(4,5))
qed

theorem flags_without_effect_witness:
  "\<forall>texts gz lib. main_program texts gz lib [] [''operator'', ''--src-creds'', ''me:secret'', ''--dest-tls-verify''] =
   main_program texts gz lib [] [''operator'']"
proof -
  let ?ws = "[Positional ''operator'', Setting (CommandFlag (visible ''src-creds'' (VarImage SrcImage Creds))) ''me:secret'',
    Setting (CommandFlag (visible ''dest-tls-verify'' (VarImage DestImage TlsVerify))) ''true'']"
  have "spells command_flags ?ws [''operator'', ''--'' @ ''src-creds'', ''me:secret'', ''--'' @ ''dest-tls-verify'']"
    using spells_alone [of command_flags "''dest-tls-verify''" "CommandFlag (visible ''dest-tls-verify'' (VarImage DestImage TlsVerify))"]
    by (intro spells_positional spells_next spells_none)
      (simp_all add: spells_none formal_def find_flag_def command_flags_def image_flags_def dest_flags_def
        docker_flags_def flag_name_def visible_def hidden_def)
  then have ws: "spells command_flags ?ws [''operator'', ''--src-creds'', ''me:secret'', ''--dest-tls-verify'']" by simp
  have "kept_words ?ws = [Positional ''operator'']"
    by (simp add: kept_words_def ignored_flags_def)
  then have kept: "spells command_flags (kept_words ?ws) [''operator'']"
    by (simp add: spells_positional spells_none)
  obtain st where st: "set_words ?ws (parse_start (command_options [])) = Ok st"
    by (simp add: parse_start_def FlagSet_Set_def ParseBool_def visible_def)
  show ?thesis
    by (intro allI flags_without_effect [OF ws kept st]) code_simp+
qed

end
