(* ===== verification/GoEncode.thy ===== *)
theory GoEncode
  imports CatalogText GoDecode GoFmt
begin

text \<open>
  The encoding half of Go's \<open>encoding/json\<close> (Go 1.19): the text of a JSON value, without white
  space, its strings escaped as \<open>json.Marshal\<close> does by default (HTML characters too; an invalid
  byte becomes the replacement character). The main result is the round trip: the parser reads
  the text of a value back as that value.
\<close>

section \<open>Escaping\<close>

text \<open>Every byte above 127 belongs to the encoding of a character.\<close>

function utf8_ok :: "string \<Rightarrow> bool" where
  "utf8_ok s =
     (case s of
        [] \<Rightarrow> True
      | c # r \<Rightarrow>
          if code c < 128 then utf8_ok r
          else if rune_len s = 0 then False
          else utf8_ok (drop (rune_len s) s))"
  by pat_completeness auto
termination
  by (relation "measure length") auto

declare utf8_ok.simps [simp del]

definition hex_escape :: "nat \<Rightarrow> string" where
  "hex_escape n = [CHR 0x5C, CHR ''u'', hex_digit (n div 4096 mod 16), hex_digit (n div 256 mod 16),
     hex_digit (n div 16 mod 16), hex_digit (n mod 16)]"

definition escape_char :: "char \<Rightarrow> string" where
  "escape_char c =
     (if c = CHR 0x22 \<or> c = CHR 0x5C then [CHR 0x5C, c]
      else if c = CHR 0x0A then [CHR 0x5C, CHR ''n'']
      else if c = CHR 0x0D then [CHR 0x5C, CHR ''r'']
      else if c = CHR 0x09 then [CHR 0x5C, CHR ''t'']
      else if code c < 32 \<or> c = CHR ''<'' \<or> c = CHR ''>'' \<or> c = CHR ''&'' then hex_escape (code c)
      else [c])"

text \<open>The line and paragraph separators U+2028 and U+2029 are escaped as well.\<close>

definition escape_rune :: "string \<Rightarrow> string" where
  "escape_rune u =
     (if u = [CHR 0xE2, CHR 0x80, CHR 0xA8] then hex_escape 0x2028
      else if u = [CHR 0xE2, CHR 0x80, CHR 0xA9] then hex_escape 0x2029
      else u)"

function json_escape :: "string \<Rightarrow> string" where
  "json_escape s =
     (case s of
        [] \<Rightarrow> []
      | c # r \<Rightarrow>
          if code c < 128 then escape_char c @ json_escape r
          else if rune_len s = 0 then hex_escape 0xFFFD @ json_escape r
          else escape_rune (take (rune_len s) s) @ json_escape (drop (rune_len s) s))"
  by pat_completeness auto
termination
  by (relation "measure length") auto

declare json_escape.simps [simp del]

section \<open>The text of a value\<close>

fun json_toks :: "json \<Rightarrow> tok list" where
  "json_toks JNull = [TNull]"
| "json_toks (JBool b) = [if b then TTrue else TFalse]"
| "json_toks (JNum s) = [TNum s]"
| "json_toks (JStr s) = [TStr (json_escape s)]"
| "json_toks (JArr vs) = LBrack # commas (map json_toks vs) @ [RBrack]"
| "json_toks (JObj ms) =
     LBrace # commas (map (\<lambda>(k, v). TStr (json_escape k) # Colon # json_toks v) ms) @ [RBrace]"

definition json_text :: "json \<Rightarrow> string" where
  "json_text j = concat (map tok_text (json_toks j))"

text \<open>What can be written and read back: valid numbers, and strings in UTF-8.\<close>

fun json_ok :: "json \<Rightarrow> bool" where
  "json_ok (JNum s) = valid_number s"
| "json_ok (JStr s) = utf8_ok s"
| "json_ok (JArr vs) = list_all json_ok vs"
| "json_ok (JObj ms) = list_all (\<lambda>(k, v). utf8_ok k \<and> json_ok v) ms"
| "json_ok _ = True"

section \<open>Reading an escaped string\<close>

lemma code_char_of: "n < 256 \<Longrightarrow> code (char_of n) = n"
  by (simp add: code_def)

lemma hex_digit_code: "n < 16 \<Longrightarrow> code (hex_digit n) = (if n < 10 then 48 + n else 87 + n)"
  by (simp add: hex_digit_def code_char_of)

lemma hex_digit_simps [simp]:
  assumes "n < 16"
  shows "hex_value (hex_digit n) = Some n" "32 \<le> code (hex_digit n)" "code (hex_digit n) < 128"
    "hex_digit n \<noteq> CHR 0x22" "hex_digit n \<noteq> CHR 0x5C"
proof -
  show "hex_value (hex_digit n) = Some n"
    using assms by (simp add: hex_value_def is_digit_def hex_digit_code)
  show "32 \<le> code (hex_digit n)" "code (hex_digit n) < 128" using assms by (auto simp: hex_digit_code)
  have "code (CHR 0x22) = 34" "code (CHR 0x5C) = 92" by (simp_all add: code_def)
  moreover have "code (hex_digit n) \<noteq> 34" "code (hex_digit n) \<noteq> 92"
    using assms by (auto simp: hex_digit_code)
  ultimately show "hex_digit n \<noteq> CHR 0x22" "hex_digit n \<noteq> CHR 0x5C" by metis+
qed

lemma hex_number_digits:
  assumes "n < 65536"
  shows "hex_number 0 [hex_digit (n div 4096 mod 16), hex_digit (n div 256 mod 16),
    hex_digit (n div 16 mod 16), hex_digit (n mod 16)] = n"
proof -
  have "n div 4096 < 16" using assms by auto
  moreover have "n div 256 = 16 * (n div 4096) + n div 256 mod 16"
    "n div 16 = 16 * (n div 256) + n div 16 mod 16" "n = 16 * (n div 16) + n mod 16"
    using div_mult2_eq [of n 256 16] div_mult2_eq [of n 16 16] by simp_all
  ultimately show ?thesis by simp
qed

lemma unquote_Nil [simp]: "unquote [] = []"
  by (simp add: unquote.simps)

lemma unquote_plain: "code c < 128 \<Longrightarrow> c \<noteq> CHR 0x5C \<Longrightarrow> unquote (c # r) = c # unquote r"
  by (simp add: unquote.simps [of "c # r"])

lemma unquote_simple: "c \<noteq> CHR ''u'' \<Longrightarrow> unquote (CHR 0x5C # c # r) = esc_char c # unquote r"
  by (subst unquote.simps) (simp add: code_def)

lemma unquote_hex:
  assumes "n < 65536" "\<not> is_high_surrogate n" "\<not> is_low_surrogate n"
  shows "unquote (hex_escape n @ r) = utf8 n @ unquote r"
  unfolding hex_escape_def
  by (subst unquote.simps)
    (use assms hex_number_digits [OF assms(1)] in \<open>simp add: code_def Let_def\<close>)

lemma utf8_ascii: "code c < 128 \<Longrightarrow> utf8 (code c) = [c]"
  by (simp add: utf8_def code_def)

lemma unquote_hex_char: "code c < 128 \<Longrightarrow> unquote (hex_escape (code c) @ r) = c # unquote r"
  by (subst unquote_hex) (auto simp: utf8_ascii is_high_surrogate_def is_low_surrogate_def)

lemma unquote_escape_char: "code c < 128 \<Longrightarrow> unquote (escape_char c @ r) = c # unquote r"
  unfolding escape_char_def
  by (simp add: unquote_simple esc_char_def unquote_hex_char unquote_plain)

lemma rune_len_take:
  "0 < rune_len s \<Longrightarrow> rune_len (take (rune_len s) s @ r) = rune_len s"
  by (cases s rule: rune_len.cases; cases r rule: rune_len.cases) (simp_all split: if_splits)

lemma rune_bytes: "c \<in> set (take (rune_len s) s) \<Longrightarrow> 128 \<le> code c"
  by (cases s rule: rune_len.cases)
    (auto simp: rune2_def rune3_def rune4_def cont_def split: if_splits)

lemma unquote_rune:
  assumes "0 < rune_len s"
  shows "unquote (take (rune_len s) s @ r) = take (rune_len s) s @ unquote r"
proof -
  have len: "length (take (rune_len s) s) = rune_len s" using rune_len_le [of s] by simp
  then obtain c t where u: "take (rune_len s) s = c # t"
    using assms by (cases "take (rune_len s) s") auto
  have "128 \<le> code c" using rune_bytes [of c s] u by simp
  moreover have "rune_len (c # t @ r) = length (c # t)"
    using rune_len_take [OF assms, of r] len unfolding u by simp
  ultimately show ?thesis unfolding u
    by (subst append_Cons, subst unquote.simps [of "c # t @ r"]) simp
qed

lemma utf8_separators:
  "utf8 0x2028 = [CHR 0xE2, CHR 0x80, CHR 0xA8]" "utf8 0x2029 = [CHR 0xE2, CHR 0x80, CHR 0xA9]"
  by (simp_all add: utf8_def char_of_eq_iff)

lemma unquote_escape_rune:
  assumes "0 < rune_len s"
  shows "unquote (escape_rune (take (rune_len s) s) @ r) = take (rune_len s) s @ unquote r"
proof -
  have "unquote (hex_escape n @ r) = utf8 n @ unquote r" if "n \<in> {0x2028, 0x2029}" for n
    using that by (intro unquote_hex) (auto simp: is_high_surrogate_def is_low_surrogate_def)
  then show ?thesis using unquote_rune [OF assms] utf8_separators by (simp add: escape_rune_def)
qed

lemma unquote_json_escape: "utf8_ok s \<Longrightarrow> unquote (json_escape s) = s"
proof (induction s rule: json_escape.induct)
  case (1 s)
  show ?case
  proof (cases s)
    case (Cons c r)
    show ?thesis
    proof (cases "code c < 128")
      case True
      then have "utf8_ok r" using 1(4) Cons by (simp add: utf8_ok.simps [of "c # r"])
      then show ?thesis
        using 1(1) Cons True by (simp add: json_escape.simps [of "c # r"] unquote_escape_char)
    next
      case False
      then have "0 < rune_len s" "utf8_ok (drop (rune_len s) s)"
        using 1(4) Cons by (simp_all add: utf8_ok.simps [of "c # r"] split: if_splits)
      then show ?thesis
        using 1(3) [OF Cons False] Cons False
        by (simp add: json_escape.simps [of "c # r"] unquote_escape_rune)
    qed
  qed (simp add: json_escape.simps)
qed

section \<open>An escaped string is one token\<close>

lemma str_scan_append:
  "str_scan st (a @ b) = (case str_scan st a of Some st' \<Rightarrow> str_scan st' b | None \<Rightarrow> None)"
  by (induction a arbitrary: st) (auto split: option.splits list.splits prod.splits)

lemma scan_plain: "32 \<le> code c \<Longrightarrow> c \<noteq> CHR 0x22 \<Longrightarrow> c \<noteq> CHR 0x5C \<Longrightarrow>
    str_scan (InStr a) (c # s) = str_scan (InStr (a @ [c])) s"
  by simp

lemma scan_hex: "str_scan (InStr a) (hex_escape n) = Some (InStr (a @ hex_escape n))"
proof -
  have four: "str_scan (InStr a) [CHR 0x5C, CHR ''u'', h1, h2, h3, h4] =
      Some (InStr (a @ [CHR 0x5C, CHR ''u'', h1, h2, h3, h4]))"
    if "hex_value h1 \<noteq> None" "hex_value h2 \<noteq> None" "hex_value h3 \<noteq> None" "hex_value h4 \<noteq> None" for h1 h2 h3 h4
    using that by (simp add: code_def)
  show ?thesis unfolding hex_escape_def by (rule four) simp_all
qed

lemma scan_escape_char:
  "code c < 128 \<Longrightarrow> str_scan (InStr a) (escape_char c) = Some (InStr (a @ escape_char c))"
  by (simp add: escape_char_def scan_hex)

lemma scan_high:
  "\<forall>c \<in> set u. 128 \<le> code c \<Longrightarrow> str_scan (InStr a) u = Some (InStr (a @ u))"
proof (induction u arbitrary: a)
  case (Cons c u)
  then have "32 \<le> code c" "c \<noteq> CHR 0x22" "c \<noteq> CHR 0x5C" by (auto simp: code_def)
  then show ?case using Cons by simp
qed simp

lemma scan_json_escape: "str_scan (InStr a) (json_escape s) = Some (InStr (a @ json_escape s))"
proof (induction s arbitrary: a rule: json_escape.induct)
  case (1 s)
  show ?case
  proof (cases s)
    case (Cons c r)
    have rune: "str_scan (InStr a) (escape_rune (take (rune_len s) s)) =
        Some (InStr (a @ escape_rune (take (rune_len s) s)))"
      unfolding escape_rune_def using scan_high [of "take (rune_len s) s"] rune_bytes [of _ s]
      by (auto simp: scan_hex)
    consider "code c < 128" | "\<not> code c < 128" "rune_len s = 0" | "\<not> code c < 128" "rune_len s \<noteq> 0"
      by blast
    then show ?thesis
    proof cases
      case 1
      then show ?thesis using "1.IH"(1) [OF Cons 1] Cons
        by (simp add: json_escape.simps [of "c # r"] str_scan_append scan_escape_char del: str_scan.simps)
    next
      case 2
      then show ?thesis using "1.IH"(2) [OF Cons 2] Cons
        by (simp add: json_escape.simps [of "c # r"] str_scan_append scan_hex del: str_scan.simps)
    next
      case 3
      then show ?thesis using "1.IH"(3) [OF Cons 3] Cons rune
        by (simp add: json_escape.simps [of "c # r"] str_scan_append del: str_scan.simps)
    qed
  qed (simp add: json_escape.simps)
qed

lemma raw_ok_escape: "raw_ok (json_escape s)"
  by (simp add: raw_ok_def scan_json_escape)

section \<open>The round trip\<close>

lemma commas_all: "\<forall>ts \<in> set tss. list_all P ts \<Longrightarrow> P Comma \<Longrightarrow> list_all P (commas tss)"
  by (induction tss rule: commas.induct) simp_all

lemma json_toks_ok: "json_ok j \<Longrightarrow> list_all tok_ok (json_toks j)"
proof (induction j rule: json_toks.induct)
  case (5 vs)
  then have "list_all tok_ok (commas (map json_toks vs))"
    by (intro commas_all) (simp_all add: list_all_iff)
  then show ?case by simp
next
  case (6 ms)
  have "list_all tok_ok (TStr (json_escape k) # Colon # json_toks v)" if "(k, v) \<in> set ms" for k v
    using 6 that by (force simp: raw_ok_escape list_all_iff)
  then have "list_all tok_ok (commas (map (\<lambda>(k, v). TStr (json_escape k) # Colon # json_toks v) ms))"
    by (intro commas_all) auto
  then show ?case by simp
qed (simp_all add: raw_ok_escape)

lemma json_toks_first: "json_toks j \<noteq> [] \<and> hd (json_toks j) \<notin> {RBrack, RBrace, Comma, Colon}"
  by (cases j) simp_all

text \<open>The members of an object, after the first one is due.\<close>

lemma parse_members:
  assumes "\<And>k v. (k, v) \<in> set ms \<Longrightarrow> utf8_ok k \<and> is_document (json_toks v) v" "ms \<noteq> []"
  shows "parse_run (st, PKey us) (commas (map (\<lambda>(k, v). TStr (json_escape k) # Colon # json_toks v) ms)
    @ [RBrace]) = Some (give (JObj (us @ ms)) st)"
  using assms
proof (induction ms arbitrary: us)
  case (Cons m ms)
  obtain k v where m: "m = (k, v)" by fastforce
  then have k: "unquote (json_escape k) = k" and v: "is_document (json_toks v) v"
    using Cons.prems(1) [of k v] by (simp_all add: unquote_json_escape)
  have step: "parse_run (st, PKey us) (TStr (json_escape k) # Colon # json_toks v) =
      Some (st, PAfterMem (us @ [(k, v)]))"
    using document_in_context [of "json_toks v" v "FObj us k # st"] v k by (simp add: is_document_def)
  show ?case
  proof (cases ms)
    case Nil
    have "parse_run (st, PKey us) ((TStr (json_escape k) # Colon # json_toks v) @ [RBrace]) =
        Some (give (JObj (us @ [(k, v)])) st)"
      unfolding parse_run_append step by simp
    then show ?thesis using Nil m by simp
  next
    case (Cons m' ms')
    then have "parse_run (st, PKey (us @ [(k, v)]))
        (commas (map (\<lambda>(k, v). TStr (json_escape k) # Colon # json_toks v) ms) @ [RBrace]) =
        Some (give (JObj ((us @ [(k, v)]) @ ms)) st)"
      using Cons.IH Cons.prems(1) by (intro Cons.IH) auto
    then show ?thesis using step m Cons by (simp add: parse_run_append)
  qed
qed simp

lemma json_toks_document: "json_ok j \<Longrightarrow> is_document (json_toks j) j"
proof (induction j rule: json_toks.induct)
  case (5 vs)
  have docs: "list_all2 is_document (map json_toks vs) vs"
    using 5 by (simp add: list_all2_map1 list_all2_same list_all_iff)
  show ?case
  proof (cases vs)
    case (Cons v vs')
    have "commas (map json_toks vs) \<noteq> [] \<and> hd (commas (map json_toks vs)) \<noteq> RBrack"
      using json_toks_first [of v] Cons by (cases vs') (simp_all add: hd_append)
    then have "parse_run ([], PFirst) (commas (map json_toks vs) @ [RBrack]) =
        parse_run ([FArr []], PValue) (commas (map json_toks vs) @ [RBrack])"
      by (intro first_document) simp_all
    then show ?thesis using parse_elements [OF docs, of "[]" "[]"] Cons by (simp add: is_document_def)
  qed (simp add: is_document_def)
next
  case (6 ms)
  then have "utf8_ok k \<and> is_document (json_toks v) v" if "(k, v) \<in> set ms" for k v
    using that by (force simp: list_all_iff)
  then show ?case
  proof (cases ms)
    case (Cons m ms')
    obtain k v where m: "m = (k, v)" by fastforce
    have first: "parse_run (st, PFirstKey) (TStr r # ts) = parse_run (st, PKey []) (TStr r # ts)" for st r ts
      by simp
    have "\<exists>r ts. commas (map (\<lambda>(k, v). TStr (json_escape k) # Colon # json_toks v) ms) @ [RBrace] = TStr r # ts"
      using Cons m by (cases ms') auto
    then show ?thesis
      using parse_members [of ms "[]" "[]"] first Cons
        \<open>\<And>k v. (k, v) \<in> set ms \<Longrightarrow> utf8_ok k \<and> is_document (json_toks v) v\<close>
      by (auto simp: is_document_def)
  qed (simp add: is_document_def)
qed (simp_all add: is_document_def unquote_json_escape)

lemma json_text_spell: "json_text j = spell (map (Pair []) (json_toks j)) []"
proof -
  have "concat (map tok_text ts) = spell (map (Pair []) ts) []" for ts by (induction ts) simp_all
  then show ?thesis by (simp add: json_text_def)
qed

lemma parse_json_text_ws:
  assumes "json_ok j" "list_all is_ws w"
  shows "parse_json (json_text j @ w) = Inr j"
proof -
  let ?ps = "map (Pair []) (json_toks j)"
  have doc: "parse_run ([], PValue) (json_toks j) = Some ([], PDone j)"
    using json_toks_document [OF assms(1)] by (simp add: is_document_def)
  have snd: "map snd (map (Pair ([] :: string)) ts) = ts" for ts :: "tok list" by (induction ts) simp_all
  have spelled: "json_text j @ w = spell ?ps w"
    unfolding json_text_spell using spell_append [of ?ps "[]" w] by simp
  have "adjacent_ok (json_toks j)" by (rule parse_run_adjacent [of "([], PValue)"]) (simp add: doc)
  then have "spaced ?ps" by (intro adjacent_spaced) (simp only: snd)
  moreover have "pairs_ok ?ps" using json_toks_ok [OF assms(1)] by (auto simp: pairs_ok_def list_all_iff)
  ultimately have "lexer Between (json_text j @ w) = (json_toks j, LexDone)"
    unfolding spelled using lexer_spell [of ?ps w] assms(2) by (simp only: snd)
  then show ?thesis by (simp add: parse_json_def parse_tokens_def doc)
qed

lemma parse_json_text: "json_ok j \<Longrightarrow> parse_json (json_text j) = Inr j"
  using parse_json_text_ws [of j "[]"] by simp

text \<open>The text of a string is quoted; reading it gives the string.\<close>

lemma json_Unmarshal_string:
  "utf8_ok s \<Longrightarrow> json_Unmarshal dec_string (json_text (JStr s)) old = Ok s"
  by (simp add: json_Unmarshal_def parse_json_text)

end
