(* ===== verification/GoRegexp.thy ===== *)
theory GoRegexp
  imports GoStrings
begin

text \<open>
  Regular expressions as Go's \<open>regexp\<close> package matches them against a whole text: character classes
  as lists of ranges, sequence, choice, \<open>*\<close> and bounded repetition. The matcher steps through the
  text with the derivative of the expression, kept small by \<open>rx_then\<close> and \<open>rx_or\<close>.
\<close>

section \<open>Expressions\<close>

datatype rx =
    RxNever
  | RxEmpty
  | RxClass "(char \<times> char) list"
  | RxThen rx rx
  | RxOr rx rx
  | RxMany rx
  | RxUpTo nat rx

text \<open>\<open>?\<close>, \<open>+\<close>, \<open>{n,}\<close> and a literal character.\<close>

abbreviation rx_opt :: "rx \<Rightarrow> rx" where "rx_opt r \<equiv> RxUpTo 1 r"
abbreviation rx_some :: "rx \<Rightarrow> rx" where "rx_some r \<equiv> RxThen r (RxMany r)"

fun rx_times :: "nat \<Rightarrow> rx \<Rightarrow> rx" where
  "rx_times 0 r = RxEmpty"
| "rx_times (Suc n) r = RxThen r (rx_times n r)"

definition rx_at_least :: "nat \<Rightarrow> rx \<Rightarrow> rx" where
  "rx_at_least n r = RxThen (rx_times n r) (RxMany r)"

definition rx_char :: "char \<Rightarrow> rx" where
  "rx_char c = RxClass [(c, c)]"

definition in_class :: "(char \<times> char) list \<Rightarrow> char \<Rightarrow> bool" where
  "in_class ranges c = list_ex (\<lambda>(a, b). (of_char a :: nat) \<le> of_char c \<and> (of_char c :: nat) \<le> of_char b) ranges"

section \<open>The texts an expression matches\<close>

definition joined :: "string set \<Rightarrow> string set \<Rightarrow> string set" where
  "joined A B = {u @ v | u v. u \<in> A \<and> v \<in> B}"

inductive_set repeats :: "string set \<Rightarrow> string set" for A where
  repeats_none: "[] \<in> repeats A"
| repeats_more: "u \<in> A \<Longrightarrow> v \<in> repeats A \<Longrightarrow> u @ v \<in> repeats A"

fun repeats_upto :: "nat \<Rightarrow> string set \<Rightarrow> string set" where
  "repeats_upto 0 A = {[]}"
| "repeats_upto (Suc n) A = insert [] (joined A (repeats_upto n A))"

fun rx_texts :: "rx \<Rightarrow> string set" where
  "rx_texts RxNever = {}"
| "rx_texts RxEmpty = {[]}"
| "rx_texts (RxClass rs) = {[c] | c. in_class rs c}"
| "rx_texts (RxThen r s) = joined (rx_texts r) (rx_texts s)"
| "rx_texts (RxOr r s) = rx_texts r \<union> rx_texts s"
| "rx_texts (RxMany r) = repeats (rx_texts r)"
| "rx_texts (RxUpTo n r) = repeats_upto n (rx_texts r)"

section \<open>The matcher\<close>

fun rx_null :: "rx \<Rightarrow> bool" where
  "rx_null RxNever = False"
| "rx_null RxEmpty = True"
| "rx_null (RxClass rs) = False"
| "rx_null (RxThen r s) = (rx_null r \<and> rx_null s)"
| "rx_null (RxOr r s) = (rx_null r \<or> rx_null s)"
| "rx_null (RxMany r) = True"
| "rx_null (RxUpTo n r) = True"

definition rx_then :: "rx \<Rightarrow> rx \<Rightarrow> rx" where
  "rx_then r s = (if r = RxNever \<or> s = RxNever then RxNever else if r = RxEmpty then s else RxThen r s)"

definition rx_or :: "rx \<Rightarrow> rx \<Rightarrow> rx" where
  "rx_or r s = (if r = RxNever then s else if s = RxNever \<or> r = s then r else RxOr r s)"

fun rx_step :: "char \<Rightarrow> rx \<Rightarrow> rx" where
  "rx_step c RxNever = RxNever"
| "rx_step c RxEmpty = RxNever"
| "rx_step c (RxClass rs) = (if in_class rs c then RxEmpty else RxNever)"
| "rx_step c (RxThen r s) =
     (let r' = rx_then (rx_step c r) s in if rx_null r then rx_or r' (rx_step c s) else r')"
| "rx_step c (RxOr r s) = rx_or (rx_step c r) (rx_step c s)"
| "rx_step c (RxMany r) = rx_then (rx_step c r) (RxMany r)"
| "rx_step c (RxUpTo n r) = (case n of 0 \<Rightarrow> RxNever | Suc m \<Rightarrow> rx_then (rx_step c r) (RxUpTo m r))"

definition rx_matches :: "rx \<Rightarrow> string \<Rightarrow> bool" where
  "rx_matches r s = rx_null (fold rx_step s r)"

lemma joined_simps [simp]:
  "joined {} B = {}" "joined A {} = {}" "joined {[]} B = B"
  by (auto simp: joined_def)

lemma joined_mem: "s \<in> joined A B \<longleftrightarrow> (\<exists>u v. s = u @ v \<and> u \<in> A \<and> v \<in> B)"
  by (auto simp: joined_def)

lemma rx_then_texts [simp]: "rx_texts (rx_then r s) = joined (rx_texts r) (rx_texts s)"
  by (auto simp: rx_then_def)

lemma rx_or_texts [simp]: "rx_texts (rx_or r s) = rx_texts r \<union> rx_texts s"
  by (auto simp: rx_or_def)

lemma rx_null_iff: "rx_null r \<longleftrightarrow> [] \<in> rx_texts r"
proof (induction r)
  case (RxUpTo n r)
  then show ?case by (cases n) simp_all
qed (auto simp: joined_mem intro: repeats_none)

lemma joined_Cons:
  "c # s \<in> joined A B \<longleftrightarrow> (\<exists>u v. s = u @ v \<and> c # u \<in> A \<and> v \<in> B) \<or> [] \<in> A \<and> c # s \<in> B"
  by (auto simp: joined_mem Cons_eq_append_conv)

lemma repeats_Cons: "c # s \<in> repeats A \<longleftrightarrow> (\<exists>u v. s = u @ v \<and> c # u \<in> A \<and> v \<in> repeats A)"
proof
  assume "c # s \<in> repeats A"
  then show "\<exists>u v. s = u @ v \<and> c # u \<in> A \<and> v \<in> repeats A"
    by (induction "c # s" rule: repeats.induct) (auto simp: append_eq_Cons_conv)
next
  assume "\<exists>u v. s = u @ v \<and> c # u \<in> A \<and> v \<in> repeats A"
  then obtain u v where "c # s = (c # u) @ v" "c # u \<in> A" "v \<in> repeats A" by auto
  then show "c # s \<in> repeats A" using repeats_more by metis
qed

lemma repeats_upto_mono: "m \<le> n \<Longrightarrow> repeats_upto m A \<subseteq> repeats_upto n A"
proof (induction m arbitrary: n)
  case 0
  then show ?case by (cases n) auto
next
  case (Suc m)
  then show ?case by (cases n) (fastforce simp: joined_mem)+
qed

lemma repeats_upto_Cons:
  "c # s \<in> repeats_upto (Suc n) A \<longleftrightarrow> (\<exists>u v. s = u @ v \<and> c # u \<in> A \<and> v \<in> repeats_upto n A)"
proof (induction n arbitrary: s)
  case 0
  then show ?case by (auto simp: joined_Cons)
next
  case (Suc n)
  have "repeats_upto n A \<subseteq> repeats_upto (Suc n) A" by (rule repeats_upto_mono) simp
  then have "\<exists>u v. s = u @ v \<and> c # u \<in> A \<and> v \<in> repeats_upto (Suc n) A" if "c # s \<in> repeats_upto (Suc n) A"
    using that Suc.IH by blast
  then show ?case unfolding repeats_upto.simps(2) [of "Suc n"] by (auto simp: joined_Cons)
qed

lemma rx_step_texts: "s \<in> rx_texts (rx_step c r) \<longleftrightarrow> c # s \<in> rx_texts r"
proof (induction r arbitrary: s)
  case (RxThen r1 r2)
  then show ?case unfolding rx_texts.simps joined_Cons by (auto simp: Let_def joined_mem rx_null_iff)
next
  case (RxMany r)
  then show ?case by (auto simp: joined_mem repeats_Cons)
next
  case (RxUpTo n r)
  then show ?case by (cases n) (simp_all add: joined_mem repeats_upto_Cons del: repeats_upto.simps(2))
qed auto

lemma rx_matches_iff: "rx_matches r s \<longleftrightarrow> s \<in> rx_texts r"
  unfolding rx_matches_def
  by (induction s arbitrary: r) (simp_all add: rx_null_iff rx_step_texts)

section \<open>Characters that cannot be matched\<close>

fun rx_avoids :: "char \<Rightarrow> rx \<Rightarrow> bool" where
  "rx_avoids c (RxClass rs) = (\<not> in_class rs c)"
| "rx_avoids c (RxThen r s) = (rx_avoids c r \<and> rx_avoids c s)"
| "rx_avoids c (RxOr r s) = (rx_avoids c r \<and> rx_avoids c s)"
| "rx_avoids c (RxMany r) = rx_avoids c r"
| "rx_avoids c (RxUpTo n r) = rx_avoids c r"
| "rx_avoids c r = True"

lemma rx_avoids_texts: "rx_avoids c r \<Longrightarrow> s \<in> rx_texts r \<Longrightarrow> c \<notin> set s"
proof (induction r arbitrary: s)
  case (RxMany r)
  from RxMany(3) show ?case unfolding rx_texts.simps
    by (induction rule: repeats.induct) (use RxMany in auto)
next
  case (RxUpTo n r)
  then show ?case by (induction n arbitrary: s) (auto simp: joined_mem)
qed (auto simp: joined_mem)

section \<open>Repeated classes\<close>

lemma rx_thenI: "u \<in> rx_texts r \<Longrightarrow> v \<in> rx_texts s \<Longrightarrow> u @ v \<in> rx_texts (RxThen r s)"
  by (auto simp: joined_mem)

lemma class_then [simp]:
  "[] \<notin> joined {[c] | c. in_class rs c} B"
  "c # v \<in> joined {[c] | c. in_class rs c} B \<longleftrightarrow> in_class rs c \<and> v \<in> B"
  by (auto simp: joined_mem intro: exI [of _ "[c]"])

lemma class_upto_texts:
  "w \<in> rx_texts (RxUpTo n (RxClass rs)) \<longleftrightarrow> length w \<le> n \<and> list_all (in_class rs) w"
proof (induction n arbitrary: w)
  case (Suc n)
  then show ?case by (cases w) auto
qed auto

lemma class_many_texts:
  "w \<in> rx_texts (RxMany (RxClass rs)) \<longleftrightarrow> list_all (in_class rs) w"
proof (induction w)
  case (Cons c w)
  then show ?case by (simp add: repeats_Cons)
qed (simp add: repeats_none)

lemma class_some_texts:
  "w \<in> rx_texts (rx_some (RxClass rs)) \<longleftrightarrow> w \<noteq> [] \<and> list_all (in_class rs) w"
  unfolding rx_texts.simps(4) rx_texts.simps(3) by (cases w) (simp_all add: class_many_texts del: rx_texts.simps(6))

lemma joined_assoc: "joined (joined A B) C = joined A (joined B C)"
  by (auto simp: joined_mem) (metis append_assoc)+

lemma class_at_least_texts:
  "w \<in> rx_texts (rx_at_least n (RxClass rs)) \<longleftrightarrow> n \<le> length w \<and> list_all (in_class rs) w"
proof (induction n arbitrary: w)
  case 0
  then show ?case by (simp add: rx_at_least_def class_many_texts del: rx_texts.simps(6))
next
  case (Suc n)
  have "w \<in> rx_texts (rx_at_least (Suc n) (RxClass rs)) \<longleftrightarrow>
    w \<in> joined {[c] | c. in_class rs c} (rx_texts (rx_at_least n (RxClass rs)))"
    by (simp add: rx_at_least_def joined_assoc)
  then show ?case using Suc.IH by (cases w) auto
qed

end
