(* ===== verification/Reference.thy ===== *)
theory Reference
  imports GoRegexp GoFmt
begin

text \<open>
  Image references as the vendored library-go parses and prints them: the regular expressions of
  their grammar (internal/reference/regexp.go), \<open>Parse\<close> of internal/reference, the digests of
  internal/digest, and \<open>DockerImageReference\<close> with \<open>Parse\<close> and its texts (image/reference).
\<close>

section \<open>The grammar\<close>

definition lower_digit :: rx where "lower_digit = RxClass [(CHR ''a'', CHR ''z''), (CHR ''0'', CHR ''9'')]"

definition letter :: rx where "letter = RxClass [(CHR ''A'', CHR ''Z''), (CHR ''a'', CHR ''z'')]"

definition letter_digit :: rx where
  "letter_digit = RxClass [(CHR ''a'', CHR ''z''), (CHR ''A'', CHR ''Z''), (CHR ''0'', CHR ''9'')]"

definition alphaNumericRegexp :: rx where "alphaNumericRegexp = rx_some lower_digit"

definition separatorRegexp :: rx where
  "separatorRegexp =
     RxOr (RxClass [(CHR ''.'', CHR ''.''), (CHR ''_'', CHR ''_'')])
       (RxOr (RxThen (rx_char CHR ''_'') (rx_char CHR ''_'')) (RxMany (rx_char CHR ''-'')))"

definition nameComponentRegexp :: rx where
  "nameComponentRegexp = RxThen alphaNumericRegexp (rx_opt (rx_some (RxThen separatorRegexp alphaNumericRegexp)))"

definition hostnameComponentRegexp :: rx where
  "hostnameComponentRegexp =
     RxOr letter_digit
       (RxThen letter_digit
         (RxThen (RxMany (RxClass [(CHR ''a'', CHR ''z''), (CHR ''A'', CHR ''Z''), (CHR ''0'', CHR ''9''), (CHR ''-'', CHR ''-'')]))
           letter_digit))"

definition hostnameRegexp :: rx where
  "hostnameRegexp =
     RxThen hostnameComponentRegexp
       (RxThen (rx_opt (rx_some (RxThen (rx_char CHR ''.'') hostnameComponentRegexp)))
         (rx_opt (RxThen (rx_char CHR '':'') (rx_some (RxClass [(CHR ''0'', CHR ''9'')])))))"

definition TagRegexp :: rx where
  "TagRegexp =
     RxThen (RxClass [(CHR ''0'', CHR ''9''), (CHR ''A'', CHR ''Z''), (CHR ''a'', CHR ''z''), (CHR ''_'', CHR ''_'')])
       (RxUpTo 127 (RxClass [(CHR ''0'', CHR ''9''), (CHR ''A'', CHR ''Z''), (CHR ''a'', CHR ''z''), (CHR ''_'', CHR ''_''),
         (CHR ''.'', CHR ''.''), (CHR ''-'', CHR ''-'')]))"

definition DigestRegexp :: rx where
  "DigestRegexp =
     RxThen letter (RxThen (RxMany letter_digit)
       (RxThen (RxMany (RxThen (RxClass [(CHR ''-'', CHR ''-''), (CHR ''_'', CHR ''_''), (CHR ''+'', CHR ''+''), (CHR ''.'', CHR ''.'')])
           (RxThen letter (RxMany letter_digit))))
         (RxThen (rx_char CHR '':'')
           (rx_at_least 32 (RxClass [(CHR ''0'', CHR ''9''), (CHR ''A'', CHR ''F''), (CHR ''a'', CHR ''f'')])))))"

definition path_components :: rx where
  "path_components =
     RxThen nameComponentRegexp (rx_opt (rx_some (RxThen (rx_char CHR ''/'') nameComponentRegexp)))"

definition NameRegexp :: rx where
  "NameRegexp = RxThen (rx_opt (RxThen hostnameRegexp (rx_char CHR ''/''))) path_components"

text \<open>The cuts of a text at a character.\<close>

fun cuts :: "char \<Rightarrow> string \<Rightarrow> (string \<times> string) list" where
  "cuts c [] = []"
| "cuts c (x # s) = (if x = c then [([], s)] else []) @ map (\<lambda>(u, v). (x # u, v)) (cuts c s)"

text \<open>
  \<open>ReferenceRegexp.FindStringSubmatch\<close>: name, tag and digest, where a group that did not take part
  is empty. At most one division of a text matches, so it does not matter in which order they are tried.
\<close>

definition reference_matches :: "string \<Rightarrow> (string \<times> string \<times> string) list" where
  "reference_matches s =
     [(n, t, d). (u, d) \<leftarrow> (s, []) # filter (\<lambda>(u, d). rx_matches DigestRegexp d) (cuts CHR ''@'' s),
        (n, t) \<leftarrow> (u, []) # filter (\<lambda>(n, t). rx_matches TagRegexp t) (cuts CHR '':'' u),
        rx_matches NameRegexp n]"

definition FindStringSubmatch :: "string \<Rightarrow> (string \<times> string \<times> string) option" where
  "FindStringSubmatch s = (case reference_matches s of [] \<Rightarrow> None | m # _ \<Rightarrow> Some m)"

section \<open>Digests\<close>

definition AnchoredDigest :: rx where
  "AnchoredDigest =
     RxThen (rx_some (RxClass [(CHR ''a'', CHR ''z''), (CHR ''A'', CHR ''Z''), (CHR ''0'', CHR ''9''), (CHR ''-'', CHR ''-''),
         (CHR ''_'', CHR ''_''), (CHR ''+'', CHR ''+''), (CHR ''.'', CHR ''.'')]))
       (RxThen (rx_char CHR '':'')
         (rx_some (RxClass [(CHR ''a'', CHR ''f''), (CHR ''A'', CHR ''F''), (CHR ''0'', CHR ''9'')])))"

text \<open>The length of a digest in hexadecimal digits.\<close>

definition digest_digits :: "string \<Rightarrow> nat option" where
  "digest_digits algorithm =
     (if algorithm = ''sha256'' then Some (32 * 2) else if algorithm = ''sha384'' then Some (48 * 2)
      else if algorithm = ''sha512'' then Some (64 * 2) else None)"

definition Digest_Validate :: "string \<Rightarrow> go_error option" where
  "Digest_Validate s =
     (if \<not> rx_matches AnchoredDigest s then Some (ErrorString ''invalid checksum digest format'')
      else case cuts CHR '':'' s of
        [] \<Rightarrow> Some (ErrorString ''invalid checksum digest format'')
      | (algorithm, hex) # _ \<Rightarrow>
          (if hex = [] then Some (ErrorString ''invalid checksum digest format'')
           else case digest_digits algorithm of
             Some n \<Rightarrow> if n \<noteq> length hex then Some (ErrorString ''invalid checksum digest length'') else None
           | None \<Rightarrow> Some (ErrorString ''unsupported digest algorithm'')))"

definition ParseDigest :: "string \<Rightarrow> go_error + string" where
  "ParseDigest s = (case Digest_Validate s of Some e \<Rightarrow> Inl e | None \<Rightarrow> Inr s)"

section \<open>Parsing a reference\<close>

datatype Reference =
    Repository string
  | TaggedReference string string
  | CanonicalReference string string
  | FullReference string string string
  | DigestReference string

fun Reference_String :: "Reference \<Rightarrow> string" where
  "Reference_String (Repository n) = n"
| "Reference_String (TaggedReference n t) = n @ '':'' @ t"
| "Reference_String (CanonicalReference n d) = n @ ''@'' @ d"
| "Reference_String (FullReference n t d) = n @ '':'' @ t @ ''@'' @ d"
| "Reference_String (DigestReference d) = d"

definition getBestReferenceType :: "string \<Rightarrow> string \<Rightarrow> string \<Rightarrow> Reference option" where
  "getBestReferenceType name tag digest =
     (if name = [] then (if digest \<noteq> [] then Some (DigestReference digest) else None)
      else if tag = [] then Some (if digest \<noteq> [] then CanonicalReference name digest else Repository name)
      else if digest = [] then Some (TaggedReference name tag)
      else Some (FullReference name tag digest))"

text \<open>
  \<open>strings.ToLower\<close>, as far as a lower-case text can match: beside the ASCII letters only the Kelvin
  sign and the capital I with a dot have an ASCII letter as their lower case.
\<close>

fun ToLower :: "string \<Rightarrow> string" where
  "ToLower [] = []"
| "ToLower (c # s) =
     (if c = CHR 0xE2 \<and> prefix [CHR 0x84, CHR 0xAA] s then CHR ''k'' # ToLower (drop 2 s)
      else if c = CHR 0xC4 \<and> prefix [CHR 0xB0] s then CHR ''i'' # ToLower (drop 1 s)
      else (if in_class [(CHR ''A'', CHR ''Z'')] c then char_of ((of_char c :: nat) + 32) else c) # ToLower s)"

definition reference_Parse :: "string \<Rightarrow> go_error + Reference" where
  "reference_Parse s =
     (case FindStringSubmatch s of
        None \<Rightarrow>
          Inl (ErrorString
            (if s = [] then ''repository name must have at least one component''
             else if FindStringSubmatch (ToLower s) \<noteq> None then ''repository name must be lowercase''
             else ''invalid reference format''))
      | Some (name, tag, digest) \<Rightarrow>
          (if 255 < length name then Inl (ErrorString ''repository name must not be more than 255 characters'')
           else case (if digest \<noteq> [] then ParseDigest digest else Inr []) of
             Inl e \<Rightarrow> Inl e
           | Inr d \<Rightarrow>
               (case getBestReferenceType name tag d of
                  None \<Rightarrow> Inl (ErrorString ''repository name must have at least one component'')
                | Some r \<Rightarrow> Inr r)))"

text \<open>The parts of a reference with a name: its name, its tag and its digest.\<close>

fun ParseNamed_parts :: "Reference \<Rightarrow> (string \<times> string \<times> string) option" where
  "ParseNamed_parts (Repository n) = Some (n, [], [])"
| "ParseNamed_parts (TaggedReference n t) = Some (n, t, [])"
| "ParseNamed_parts (CanonicalReference n d) = Some (n, [], d)"
| "ParseNamed_parts (FullReference n t d) = Some (n, t, d)"
| "ParseNamed_parts (DigestReference d) = None"

definition ParseNamed :: "string \<Rightarrow> go_error + Reference" where
  "ParseNamed s =
     (case reference_Parse s of
        Inl e \<Rightarrow> Inl e
      | Inr r \<Rightarrow>
          (if ParseNamed_parts r = None then Inl (Errorf ''reference %s has no name'' [FStr (Reference_String r)])
           else Inr r))"


section \<open>\<open>DockerImageReference\<close>\<close>

record DockerImageReference =
  dr_Registry :: string
  dr_Namespace :: string
  dr_Name :: string
  dr_Tag :: string
  dr_ID :: string

definition zero_DockerImageReference :: DockerImageReference where
  "zero_DockerImageReference =
     \<lparr>dr_Registry = [], dr_Namespace = [], dr_Name = [], dr_Tag = [], dr_ID = []\<rparr>"

text \<open>A text up to its first slash, and what follows the slash.\<close>

definition before_slash :: "string \<Rightarrow> string" where
  "before_slash s = takeWhile (\<lambda>c. c \<noteq> CHR ''/'') s"

definition after_slash :: "string \<Rightarrow> string" where
  "after_slash s = tl (dropWhile (\<lambda>c. c \<noteq> CHR ''/'') s)"

definition is_registry_only :: "string \<Rightarrow> bool" where
  "is_registry_only name \<longleftrightarrow>
     CHR ''/'' \<notin> set name \<and> (CHR ''.'' \<in> set name \<or> HasPrefix name ''localhost'')"

definition is_name_only :: "string \<Rightarrow> bool" where
  "is_name_only name \<longleftrightarrow>
     CHR ''/'' \<notin> set name \<and> \<not> is_registry_only name \<or>
     CHR ''/'' \<in> set name \<and> CHR '':'' \<notin> set (before_slash name) \<and> CHR ''.'' \<notin> set (before_slash name) \<and>
       before_slash name \<noteq> ''localhost''"

definition fill_Namespace :: "DockerImageReference \<Rightarrow> DockerImageReference" where
  "fill_Namespace r =
     (if CHR ''/'' \<in> set (dr_Name r)
      then r\<lparr>dr_Namespace := before_slash (dr_Name r), dr_Name := after_slash (dr_Name r)\<rparr> else r)"

definition docker_Parse :: "string \<Rightarrow> go_error + DockerImageReference" where
  "docker_Parse spec =
     (case ParseNamed spec of
        Inl e \<Rightarrow> Inl e
      | Inr namedRef \<Rightarrow>
          (case ParseNamed_parts namedRef of
             None \<Rightarrow> Inr zero_DockerImageReference
           | Some (name, tag, digest) \<Rightarrow>
               let r1 = (if is_registry_only name
                         then zero_DockerImageReference\<lparr>dr_Registry := Reference_String namedRef\<rparr>
                         else if is_name_only name then zero_DockerImageReference\<lparr>dr_Name := name\<rparr>
                         else zero_DockerImageReference\<lparr>dr_Registry := before_slash name, dr_Name := after_slash name\<rparr>);
                   r2 = (if is_registry_only name then r1 else r1\<lparr>dr_Tag := tag\<rparr>);
                   r3 = r2\<lparr>dr_ID := digest\<rparr>
               in Inr (fill_Namespace r3)))"

definition IsRegistryDockerHub :: "string \<Rightarrow> bool" where
  "IsRegistryDockerHub registry \<longleftrightarrow>
     registry \<in> {''docker.io'', ''index.docker.io'', ''registry-1.docker.io''}"

definition NameString :: "DockerImageReference \<Rightarrow> string" where
  "NameString r =
     (if length (dr_Name r) = 0 then []
      else if length (dr_ID r) > 0
      then dr_Name r @ (case ParseDigest (dr_ID r) of Inr _ \<Rightarrow> ''@'' | Inl _ \<Rightarrow> '':'') @ dr_ID r
      else if length (dr_Tag r) > 0 then dr_Name r @ '':'' @ dr_Tag r
      else dr_Name r)"

definition Exact :: "DockerImageReference \<Rightarrow> string" where
  "Exact r =
     (let name = NameString r in
      if length name = 0 then name
      else (if length (dr_Registry r) > 0 then dr_Registry r @ ''/'' else []) @
           (if length (dr_Namespace r) \<noteq> 0 then dr_Namespace r @ ''/'' else []) @ name)"

definition docker_String :: "DockerImageReference \<Rightarrow> string" where
  "docker_String r =
     Exact (if length (dr_Namespace r) = 0 \<and> IsRegistryDockerHub (dr_Registry r)
       then r\<lparr>dr_Namespace := ''library''\<rparr> else r)"

end
