(* ===== verification/V1alpha2.thy ===== *)
theory V1alpha2
  imports GoEncode Reference
begin

text \<open>
  pkg/api/v1alpha2: the configuration types of an image set, the enumerations with their JSON
  forms, and the operations on images, operators and storage. The lists that JSON tells apart
  when they are nil (\<open>packages\<close>, \<open>charts\<close>) are options. The embedded structs are fields of the
  same name. The encoder and decoder of \<open>encoding/gob\<close> are parameters.
\<close>

section \<open>Group and version\<close>

definition version :: string where "version = ''v1alpha2''"
definition group :: string where "group = ''mirror.openshift.io''"

record GroupVersionKind =
  gvk_Group :: string
  gvk_Version :: string
  gvk_Kind :: string

text \<open>\<open>GroupVersion.String\<close>\<close>

definition GroupVersion_String :: "string \<Rightarrow> string \<Rightarrow> string" where
  "GroupVersion_String g v = (if 0 < length g then g @ ''/'' @ v else v)"

definition GroupVersion :: string where
  "GroupVersion = GroupVersion_String group version"

section \<open>Image types\<close>

type_synonym ImageType = int

definition TypeInvalid :: ImageType where "TypeInvalid = 0"
definition TypeOCPRelease :: ImageType where "TypeOCPRelease = 1"
definition TypeOCPReleaseContent :: ImageType where "TypeOCPReleaseContent = 2"
definition TypeCincinnatiGraph :: ImageType where "TypeCincinnatiGraph = 3"
definition TypeOperatorCatalog :: ImageType where "TypeOperatorCatalog = 4"
definition TypeOperatorBundle :: ImageType where "TypeOperatorBundle = 5"
definition TypeOperatorRelatedImage :: ImageType where "TypeOperatorRelatedImage = 6"
definition TypeGeneric :: ImageType where "TypeGeneric = 7"

lemmas image_types = TypeInvalid_def TypeOCPRelease_def TypeOCPReleaseContent_def
  TypeCincinnatiGraph_def TypeOperatorCatalog_def TypeOperatorBundle_def
  TypeOperatorRelatedImage_def TypeGeneric_def

definition imageTypeStrings :: "ImageType \<rightharpoonup> string" where
  "imageTypeStrings = map_of
     [(TypeOCPReleaseContent, ''ocpReleaseContent''), (TypeCincinnatiGraph, ''cincinnatiGraph''),
      (TypeOCPRelease, ''ocpRelease''), (TypeOperatorCatalog, ''operatorCatalog''),
      (TypeOperatorBundle, ''operatorBundle''), (TypeOperatorRelatedImage, ''operatorRelatedImage''),
      (TypeGeneric, ''generic'')]"

definition imageStringsType :: "string \<rightharpoonup> ImageType" where
  "imageStringsType = map_of
     [(''ocpReleaseContent'', TypeOCPReleaseContent), (''cincinnatiGraph'', TypeCincinnatiGraph),
      (''ocpRelease'', TypeOCPRelease), (''operatorCatalog'', TypeOperatorCatalog),
      (''operatorBundle'', TypeOperatorBundle), (''operatorRelatedImage'', TypeOperatorRelatedImage),
      (''generic'', TypeGeneric)]"

text \<open>Looking up a missing key gives the zero value.\<close>

definition map_get :: "('k \<rightharpoonup> 'v) \<Rightarrow> 'v \<Rightarrow> 'k \<Rightarrow> 'v" where
  "map_get m zero k = (case m k of Some v \<Rightarrow> v | None \<Rightarrow> zero)"

definition ImageType_String :: "ImageType \<Rightarrow> string" where
  "ImageType_String it = map_get imageTypeStrings [] it"

text \<open>The verb \<open>%v\<close> prints an image type by its \<open>String\<close> method.\<close>

definition ImageType_validate :: "ImageType \<Rightarrow> unit res" where
  "ImageType_validate it =
     (if imageTypeStrings it \<noteq> None then Ok ()
      else if it = TypeInvalid then Err (ErrorString ''must set image type'')
      else Err (Errorf ''unknown image type %v'' [FStr (ImageType_String it)]))"

definition ImageType_MarshalJSON :: "ImageType \<Rightarrow> string res" where
  "ImageType_MarshalJSON it =
     res_bind (ImageType_validate it) (\<lambda>_. Ok (json_text (JStr (ImageType_String it))))"

definition ImageType_UnmarshalJSON :: "string \<Rightarrow> ImageType res" where
  "ImageType_UnmarshalJSON b =
     res_bind (json_Unmarshal dec_string b []) (\<lambda>j. Ok (map_get imageStringsType 0 j))"

section \<open>Platform types\<close>

definition DefaultPlatformArchitecture :: string where "DefaultPlatformArchitecture = ''amd64''"

type_synonym PlatformType = int

definition TypeOCP :: PlatformType where "TypeOCP = 0"
definition TypeOKD :: PlatformType where "TypeOKD = 1"

definition platformTypeStrings :: "PlatformType \<rightharpoonup> string" where
  "platformTypeStrings = map_of [(TypeOCP, ''ocp''), (TypeOKD, ''okd'')]"

definition platformStringsType :: "string \<rightharpoonup> PlatformType" where
  "platformStringsType = map_of [(''ocp'', TypeOCP), (''okd'', TypeOKD)]"

definition PlatformType_String :: "PlatformType \<Rightarrow> string" where
  "PlatformType_String pt = map_get platformTypeStrings [] pt"

definition PlatformType_validate :: "PlatformType \<Rightarrow> unit res" where
  "PlatformType_validate pt =
     (if platformTypeStrings pt = None then Err (ErrorString ''unknown platform type'') else Ok ())"

definition PlatformType_MarshalJSON :: "PlatformType \<Rightarrow> string res" where
  "PlatformType_MarshalJSON pt =
     res_bind (PlatformType_validate pt) (\<lambda>_. Ok (json_text (JStr (PlatformType_String pt))))"

definition PlatformType_UnmarshalJSON :: "string \<Rightarrow> PlatformType res" where
  "PlatformType_UnmarshalJSON b =
     res_bind (json_Unmarshal dec_string b []) (\<lambda>j. Ok (map_get platformStringsType 0 j))"

section \<open>Associations\<close>

record Association =
  as_Name :: string
  as_Path :: string
  as_ID :: string
  as_TagSymlink :: string
  as_Type :: ImageType
  as_ManifestDigests :: "string list"
  as_LayerDigests :: "string list"

definition Association_Validate :: "Association \<Rightarrow> unit res" where
  "Association_Validate a =
     (if length (as_ManifestDigests a) \<noteq> 0 \<and> length (as_LayerDigests a) \<noteq> 0
      then Err (Errorf ''image %q: child descriptors cannot contain both manifests and image layers''
        [FStr (as_Name a)])
      else if length (as_ManifestDigests a) = 0 \<and> length (as_LayerDigests a) = 0
      then Err (Errorf ''image %q: child descriptors must contain at least one manifest or image layer''
        [FStr (as_Name a)])
      else if as_ID a = [] \<and> as_TagSymlink a = []
      then Err (Errorf ''image %q: tag or ID must be set'' [FStr (as_Name a)])
      else ImageType_validate (as_Type a))"

section \<open>Storage\<close>

record RegistryConfig =
  rc_ImageURL :: string
  rc_SkipTLS :: bool

record LocalConfig =
  lc_Path :: string

record StorageConfig =
  st_Registry :: "RegistryConfig option"
  st_Local :: "LocalConfig option"

definition StorageConfig_IsSet :: "StorageConfig \<Rightarrow> bool" where
  "StorageConfig_IsSet s = (if st_Registry s \<noteq> None \<or> st_Local s \<noteq> None then True else False)"

section \<open>What to include\<close>

record IncludeBundle =
  ib_MinVersion :: string
  ib_MaxVersion :: string
  ib_MinBundle :: string

record IncludeChannel =
  ic_Name :: string
  ic_IncludeBundle :: IncludeBundle

record IncludePackage =
  ip_Name :: string
  ip_Channels :: "IncludeChannel list"
  ip_IncludeBundle :: IncludeBundle

record IncludeConfig =
  in_Packages :: "IncludePackage list option"

text \<open>
  \<open>Encode\<close> and \<open>Decode\<close> over a writer or a reader of type \<open>'w\<close>: \<open>enc\<close> and \<open>dec\<close> are the encoder
  and the decoder of gob on it.
\<close>

definition IncludeConfig_Encode ::
  "(IncludeConfig \<Rightarrow> 'w \<Rightarrow> go_error option \<times> 'w) \<Rightarrow> IncludeConfig \<Rightarrow> 'w \<Rightarrow> go_error option \<times> 'w" where
  "IncludeConfig_Encode enc ic w =
     (case enc ic w of
        (Some err, w') \<Rightarrow> (Some (Errorf ''error encoding include config: %v'' [FErr err]), w')
      | (None, w') \<Rightarrow> (None, w'))"

definition IncludeConfig_Decode ::
  "(IncludeConfig \<Rightarrow> 'w \<Rightarrow> go_error option \<times> IncludeConfig \<times> 'w) \<Rightarrow> IncludeConfig \<Rightarrow> 'w \<Rightarrow>
   go_error option \<times> IncludeConfig \<times> 'w" where
  "IncludeConfig_Decode dec ic r =
     (case dec ic r of
        (Some err, ic', r') \<Rightarrow> (Some (Errorf ''error decoding include config: %v'' [FErr err]), ic', r')
      | (None, ic', r') \<Rightarrow> (None, ic', r'))"

section \<open>The configuration of an image set\<close>

record ReleaseChannel =
  rl_Name :: string
  rl_Type :: PlatformType
  rl_MinVersion :: string
  rl_MaxVersion :: string
  rl_ShortestPath :: bool
  rl_Full :: bool

definition ReleaseChannel_IsHeadsOnly :: "ReleaseChannel \<Rightarrow> bool" where
  "ReleaseChannel_IsHeadsOnly r = (\<not> rl_Full r)"

record Platform =
  pf_Graph :: bool
  pf_Channels :: "ReleaseChannel list"
  pf_Architectures :: "string list"

record Operator =
  op_IncludeConfig :: IncludeConfig
  op_Catalog :: string
  op_TargetName :: string
  op_TargetTag :: string
  op_Full :: bool
  op_SkipDependencies :: bool
  op_OriginalRef :: string

record Chart =
  ch_Name :: string
  ch_Version :: string
  ch_Path :: string
  ch_ImagePaths :: "string list"

record Repository =
  rp_URL :: string
  rp_Name :: string
  rp_Charts :: "Chart list option"

record Helm =
  hm_Repositories :: "Repository list"
  hm_Local :: "Chart list"

record Image =
  im_Name :: string

record SampleImages =
  sm_Image :: Image

record V2Mirror =
  mi_Platform :: Platform
  mi_Operators :: "Operator list"
  mi_AdditionalImages :: "Image list"
  mi_Helm :: Helm
  mi_BlockedImages :: "Image list"
  mi_Samples :: "SampleImages list"

record TypeMeta =
  tm_Kind :: string
  tm_APIVersion :: string

definition ImageSetConfigurationKind :: string where
  "ImageSetConfigurationKind = ''ImageSetConfiguration''"

record ImageSetConfigurationSpec =
  ss_Mirror :: V2Mirror
  ss_ArchiveSize :: int
  ss_StorageConfig :: StorageConfig

record ImageSetConfiguration =
  sc_TypeMeta :: TypeMeta
  sc_Spec :: ImageSetConfigurationSpec

section \<open>The name of an operator catalog\<close>

definition IsFBCOCI :: "Operator \<Rightarrow> bool" where
  "IsFBCOCI o' = HasPrefix (op_Catalog o') ''oci:''"

definition Operator_IsHeadsOnly :: "Operator \<Rightarrow> bool" where
  "Operator_IsHeadsOnly o' = (\<not> op_Full o')"

text \<open>What the catalog is tracked as: its text without the transport of an OCI directory.\<close>

definition catalog_text :: "Operator \<Rightarrow> string" where
  "catalog_text o' =
     (if IsFBCOCI o'
      then TrimPrefix (TrimPrefix (TrimPrefix (op_Catalog o') ''oci:'') ''//'') ''/''
      else op_Catalog o')"

text \<open>\<open>Parse\<close> gives the zero reference with an error.\<close>

definition GetUniqueName :: "Operator \<Rightarrow> string res" where
  "GetUniqueName o' =
    (let ctlgRef = catalog_text o' in
     if op_TargetName o' = [] \<and> op_TargetTag o' = [] then Ok ctlgRef
     else case docker_Parse ctlgRef of
       Inl err \<Rightarrow> Err (Errorf ''error parsing source catalog %s: %v''
         [FStr (docker_String zero_DockerImageReference), FErr err])
     | Inr r0 \<Rightarrow>
         (let r1 = (if op_TargetName o' \<noteq> [] then r0\<lparr>dr_Name := op_TargetName o'\<rparr> else r0);
              r2 = (if op_TargetTag o' \<noteq> [] then r1\<lparr>dr_ID := [], dr_Tag := op_TargetTag o'\<rparr> else r1)
          in Ok (Exact r2)))"

end
