(* ===== verification/Grammar.thy ===== *)
theory Grammar
  imports Reference
begin

text \<open>
  What the parser of image references accepts and what it makes of it: at most one division of a text
  into name, tag and digest matches, the languages of tags and digests without regular expressions,
  and that the parts of a parsed reference spell it.
\<close>

section \<open>The grammar of names\<close>

lemma cuts_mem: "(u, v) \<in> set (cuts c s) \<longleftrightarrow> s = u @ c # v"
  by (induction s arbitrary: u) (auto simp: Cons_eq_append_conv)

lemmas class_defs = lower_digit_def letter_def letter_digit_def rx_char_def in_class_def

lemmas grammar_defs = alphaNumericRegexp_def separatorRegexp_def nameComponentRegexp_def
  hostnameComponentRegexp_def hostnameRegexp_def TagRegexp_def DigestRegexp_def path_components_def NameRegexp_def

lemma rx_times_avoids: "rx_avoids c r \<Longrightarrow> rx_avoids c (rx_times n r)"
  by (induction n) simp_all

lemma grammar_avoids:
  "rx_avoids CHR ''@'' NameRegexp" "rx_avoids CHR ''@'' TagRegexp" "rx_avoids CHR '':'' TagRegexp"
  "rx_avoids CHR ''/'' TagRegexp" "rx_avoids CHR ''@'' DigestRegexp"
  "rx_avoids CHR '':'' path_components" "rx_avoids CHR ''/'' hostnameRegexp" "rx_avoids CHR ''/'' nameComponentRegexp"
  by (simp_all add: grammar_defs class_defs rx_at_least_def rx_times_avoids)

lemma grammar_not_empty:
  "[] \<notin> rx_texts TagRegexp" "[] \<notin> rx_texts DigestRegexp" "[] \<notin> rx_texts hostnameRegexp"
  "[] \<notin> rx_texts nameComponentRegexp"
  unfolding rx_null_iff [symmetric] by (simp_all add: grammar_defs class_defs)

lemma rx_char_texts: "rx_texts (rx_char c) = {[c]}"
  by (auto simp: rx_char_def in_class_def)

lemma opt_texts: "rx_texts (rx_opt r) = insert [] (rx_texts r)"
proof -
  have "repeats_upto (Suc 0) A = insert [] A" for A by (auto simp: joined_mem)
  then show ?thesis by simp
qed

lemma repeats_induct1 [consumes 1, case_names once again]:
  assumes "s \<in> joined A (repeats A)" "\<And>s. s \<in> A \<Longrightarrow> P s" "\<And>u v. u \<in> A \<Longrightarrow> P v \<Longrightarrow> P (u @ v)"
  shows "P s"
proof -
  have "v \<in> repeats A \<Longrightarrow> \<forall>u \<in> A. P (u @ v)" for v
  proof (induction rule: repeats.induct)
    case repeats_none
    then show ?case using assms(2) by simp
  next
    case (repeats_more u v)
    then show ?case using assms(3) by blast
  qed
  then show ?thesis using assms(1) by (auto simp: joined_mem)
qed

text \<open>A name is a path, or a host and a path.\<close>

lemma name_cases:
  assumes "n \<in> rx_texts NameRegexp"
  shows "n \<in> rx_texts path_components \<or>
    (\<exists>h p. n = h @ CHR ''/'' # p \<and> h \<in> rx_texts hostnameRegexp \<and> p \<in> rx_texts path_components)"
  using assms unfolding NameRegexp_def rx_texts.simps(4) opt_texts by (auto simp: joined_mem rx_char_texts)

lemma name_colon:
  assumes "a @ CHR '':'' # b \<in> rx_texts NameRegexp"
  shows "CHR ''/'' \<in> set b"
  using name_cases [OF assms]
proof (elim disjE exE conjE)
  assume "a @ CHR '':'' # b \<in> rx_texts path_components"
  from rx_avoids_texts [OF grammar_avoids(6) this] show ?thesis by simp
next
  fix h p
  assume eq: "a @ CHR '':'' # b = h @ CHR ''/'' # p" and p: "p \<in> rx_texts path_components"
  have "CHR '':'' \<notin> set p" using rx_avoids_texts [OF grammar_avoids(6) p] .
  with eq show ?thesis by (auto simp: append_eq_append_conv2 Cons_eq_append_conv append_eq_Cons_conv)
qed

lemma component_words:
  assumes "w \<in> rx_texts nameComponentRegexp"
  shows "Split w CHR ''/'' = [w]" "w \<noteq> []"
  using rx_avoids_texts [OF grammar_avoids(8) assms] grammar_not_empty(4) assms by (auto simp: Split_none)

lemma slash_components:
  assumes "v \<in> rx_texts (rx_some (RxThen (rx_char CHR ''/'') nameComponentRegexp))"
  shows "\<exists>p. v = CHR ''/'' # p \<and> [] \<notin> set (Split p CHR ''/'')"
proof -
  have "v \<in> joined (joined {''/''} (rx_texts nameComponentRegexp))
      (repeats (joined {''/''} (rx_texts nameComponentRegexp)))"
    using assms unfolding rx_texts.simps rx_char_texts .
  then show ?thesis
  proof (induction rule: repeats_induct1)
    case (once s)
    then obtain w where "s = CHR ''/'' # w" "w \<in> rx_texts nameComponentRegexp"
      by (auto simp: joined_mem)
    then show ?case using component_words [of w] by simp
  next
    case (again u v)
    then obtain w p where "u = CHR ''/'' # w" "w \<in> rx_texts nameComponentRegexp"
      "v = CHR ''/'' # p" "[] \<notin> set (Split p CHR ''/'')"
      by (auto simp: joined_mem)
    then show ?case using component_words [of w] by (simp add: Split_append_sep)
  qed
qed

lemma path_words:
  assumes "p \<in> rx_texts path_components"
  shows "[] \<notin> set (Split p CHR ''/'')"
proof -
  obtain w v where p: "p = w @ v" and w: "w \<in> rx_texts nameComponentRegexp" and
    v: "v = [] \<or> v \<in> rx_texts (rx_some (RxThen (rx_char CHR ''/'') nameComponentRegexp))"
    using assms unfolding path_components_def rx_texts.simps(4) [of nameComponentRegexp "rx_opt _"] opt_texts joined_mem
    by blast
  from v show ?thesis
    using component_words [OF w] slash_components [of v] by (auto simp: p Split_append_sep)
qed

lemma name_words:
  assumes "n \<in> rx_texts NameRegexp"
  shows "[] \<notin> set (Split n CHR ''/'')"
  using name_cases [OF assms]
proof (elim disjE exE conjE)
  fix h p
  assume n: "n = h @ CHR ''/'' # p" and h: "h \<in> rx_texts hostnameRegexp" and p: "p \<in> rx_texts path_components"
  have "h \<noteq> []" using h grammar_not_empty(3) by auto
  moreover have "Split h CHR ''/'' = [h]" using rx_avoids_texts [OF grammar_avoids(7) h] by (simp add: Split_none)
  ultimately show ?thesis using path_words [OF p] by (simp add: n Split_append_sep)
qed (rule path_words)

section \<open>One division matches\<close>

text \<open>The text of a name with a tag and a digest, where an empty one is left out.\<close>

definition spelled :: "string \<Rightarrow> string \<Rightarrow> string \<Rightarrow> string" where
  "spelled name tag digest =
     name @ (if tag = [] then [] else CHR '':'' # tag) @ (if digest = [] then [] else CHR ''@'' # digest)"

definition in_grammar :: "string \<Rightarrow> string \<Rightarrow> string \<Rightarrow> bool" where
  "in_grammar name tag digest \<longleftrightarrow>
     rx_matches NameRegexp name \<and> (tag = [] \<or> rx_matches TagRegexp tag) \<and>
     (digest = [] \<or> rx_matches DigestRegexp digest)"

lemma tag_part:
  "(n, t) = (u, []) \<or> (n, t) \<in> set (filter (\<lambda>(n, t). rx_matches TagRegexp t) (cuts CHR '':'' u)) \<longleftrightarrow>
     u = n @ (if t = [] then [] else CHR '':'' # t) \<and> (t = [] \<or> rx_matches TagRegexp t)"
  using grammar_not_empty(1) by (auto simp: cuts_mem rx_matches_iff)

lemma digest_part:
  "(u, d) = (s, []) \<or> (u, d) \<in> set (filter (\<lambda>(u, d). rx_matches DigestRegexp d) (cuts CHR ''@'' s)) \<longleftrightarrow>
     s = u @ (if d = [] then [] else CHR ''@'' # d) \<and> (d = [] \<or> rx_matches DigestRegexp d)"
  using grammar_not_empty(2) by (auto simp: cuts_mem rx_matches_iff)

lemma reference_matches_mem:
  "(n, t, d) \<in> set (reference_matches s) \<longleftrightarrow> s = spelled n t d \<and> in_grammar n t d"
proof -
  have "(n, t, d) \<in> set (reference_matches s) \<longleftrightarrow>
    (\<exists>u. ((u, d) = (s, []) \<or> (u, d) \<in> set (filter (\<lambda>(u, d). rx_matches DigestRegexp d) (cuts CHR ''@'' s))) \<and>
      ((n, t) = (u, []) \<or> (n, t) \<in> set (filter (\<lambda>(n, t). rx_matches TagRegexp t) (cuts CHR '':'' u))) \<and>
      rx_matches NameRegexp n)"
    unfolding reference_matches_def by (auto 0 3)
  also have "\<dots> \<longleftrightarrow> s = spelled n t d \<and> in_grammar n t d"
    unfolding tag_part digest_part spelled_def in_grammar_def by auto
  finally show ?thesis .
qed

lemma cut_once:
  assumes "a @ x = b @ y" "c \<notin> set a" "c \<notin> set b" "x = [] \<or> hd x = c" "y = [] \<or> hd y = c"
  shows "a = b \<and> x = y"
proof -
  have "takeWhile (\<lambda>d. d \<noteq> c) (a @ x) = a" "takeWhile (\<lambda>d. d \<noteq> c) (b @ y) = b"
    using assms(2-5) by (cases x; cases y; auto simp: takeWhile_append)+
  with assms(1) show ?thesis by (metis same_append_eq)
qed

lemma cut_last:
  assumes "a @ c # x = b @ c # y" "c \<notin> set x" "c \<notin> set y"
  shows "a = b \<and> x = y"
  using assms by (auto simp: append_eq_append_conv2 Cons_eq_append_conv append_eq_Cons_conv)

lemma spelled_unique:
  assumes "in_grammar n t d" "in_grammar n' t' d'" "spelled n t d = spelled n' t' d'"
  shows "n = n' \<and> t = t' \<and> d = d'"
proof -
  let ?u = "\<lambda>n t. n @ (if t = [] then [] else CHR '':'' # t)" and ?x = "\<lambda>d. if d = [] then [] else CHR ''@'' # d"
  have avoid: "CHR ''@'' \<notin> set (?u n t)" if "in_grammar n t d" for n t d
    using that rx_avoids_texts [OF grammar_avoids(1), of n] rx_avoids_texts [OF grammar_avoids(2), of t]
    by (auto simp: in_grammar_def rx_matches_iff)
  have "?u n t @ ?x d = ?u n' t' @ ?x d'" using assms(3) by (simp add: spelled_def)
  from cut_once [OF this avoid [OF assms(1)] avoid [OF assms(2)]]
  have eq: "?u n t = ?u n' t'" and d: "d = d'" by (cases "d = []"; cases "d' = []"; simp)+
  have tag: "CHR '':'' \<notin> set t \<and> CHR ''/'' \<notin> set t" if "in_grammar n t d" for n t d
    using that rx_avoids_texts [OF grammar_avoids(3), of t] rx_avoids_texts [OF grammar_avoids(4), of t]
    by (auto simp: in_grammar_def rx_matches_iff)
  have one: "t' = []" if "in_grammar (n' @ CHR '':'' # t') [] d" "in_grammar n' t' d" for n' t' d
    using that name_colon [of n' t'] tag [of n' t' d] by (auto simp: in_grammar_def rx_matches_iff)
  show ?thesis
  proof (cases "t = [] \<or> t' = []")
    case True
    then show ?thesis using eq d one [of n' t' d] one [of n t d'] assms(1,2) by (auto split: if_splits)
  next
    case False
    then show ?thesis using eq d cut_last [of n "CHR '':''" t n' t'] tag [OF assms(1)] tag [OF assms(2)] by simp
  qed
qed

lemma FindStringSubmatch_iff:
  "FindStringSubmatch s = Some (n, t, d) \<longleftrightarrow> s = spelled n t d \<and> in_grammar n t d"
proof -
  have "FindStringSubmatch s = Some m \<longleftrightarrow> m \<in> set (reference_matches s)" for m
  proof (cases "reference_matches s")
    case (Cons a ms)
    have one: "b = a" if "b \<in> set (reference_matches s)" for b
    proof (cases a; cases b)
      fix n t d n' t' d'
      assume "a = (n, t, d)" "b = (n', t', d')"
      with Cons that have "(n, t, d) \<in> set (reference_matches s)" "(n', t', d') \<in> set (reference_matches s)" by auto
      then show ?thesis using spelled_unique \<open>a = _\<close> \<open>b = _\<close> unfolding reference_matches_mem by metis
    qed
    show ?thesis using one [of m] Cons by (auto simp: FindStringSubmatch_def)
  qed (simp add: FindStringSubmatch_def)
  then show ?thesis by (simp add: reference_matches_mem)
qed

section \<open>What is parsed\<close>

lemma in_grammar_name: "in_grammar n t d \<Longrightarrow> n \<noteq> [] \<and> [] \<notin> set (Split n CHR ''/'')"
  using name_words by (fastforce simp: in_grammar_def rx_matches_iff)

lemma only_triple:
  "(\<And>a b c. A a b c \<longleftrightarrow> (a, b, c) = (x, y, z)) \<Longrightarrow> (\<exists>a b c. A a b c \<and> P a b c) \<longleftrightarrow> P x y z"
  by auto

lemma best_exists: "n \<noteq> [] \<Longrightarrow> \<exists>r. getBestReferenceType n t d = Some r"
  by (simp add: getBestReferenceType_def)

lemma reference_Parse_iff:
  "reference_Parse s = Inr r \<longleftrightarrow>
     (\<exists>n t d. s = spelled n t d \<and> in_grammar n t d \<and> length n \<le> 255 \<and>
        (d = [] \<or> Digest_Validate d = None) \<and> getBestReferenceType n t d = Some r)"
proof (cases "FindStringSubmatch s")
  case None
  then have "\<not> (s = spelled n t d \<and> in_grammar n t d)" for n t d by (simp flip: FindStringSubmatch_iff)
  then show ?thesis using None by (auto simp: reference_Parse_def)
next
  case (Some m)
  obtain n t d where m: "m = (n, t, d)" by (cases m)
  have one: "s = spelled n' t' d' \<and> in_grammar n' t' d' \<longleftrightarrow> (n', t', d') = (n, t, d)" for n' t' d'
    using Some by (auto simp: m simp flip: FindStringSubmatch_iff)
  then have "in_grammar n t d" by blast
  then have best: "getBestReferenceType n t d \<noteq> None" using in_grammar_name by (simp add: getBestReferenceType_def)
  have "(\<exists>n' t' d'. s = spelled n' t' d' \<and> in_grammar n' t' d' \<and> length n' \<le> 255 \<and>
        (d' = [] \<or> Digest_Validate d' = None) \<and> getBestReferenceType n' t' d' = Some r) \<longleftrightarrow>
      length n \<le> 255 \<and> (d = [] \<or> Digest_Validate d = None) \<and> getBestReferenceType n t d = Some r"
    using only_triple [OF one, of "\<lambda>n t d. length n \<le> 255 \<and> (d = [] \<or> Digest_Validate d = None) \<and>
      getBestReferenceType n t d = Some r"] by (simp only: conj_assoc)
  also have "\<dots> \<longleftrightarrow> reference_Parse s = Inr r"
    using best by (auto simp: reference_Parse_def Some m ParseDigest_def split: option.splits)
  finally show ?thesis by simp
qed

lemma best_parts:
  assumes "getBestReferenceType n t d = Some r" "n \<noteq> []"
  shows "ParseNamed_parts r = Some (n, t, d) \<and> Reference_String r = spelled n t d"
  using assms by (auto simp: getBestReferenceType_def spelled_def split: if_splits)

lemma ParseNamed_iff:
  "ParseNamed s = Inr r \<longleftrightarrow> reference_Parse s = Inr r"
proof -
  have "ParseNamed_parts r \<noteq> None" if "reference_Parse s = Inr r" for r
    using that best_parts in_grammar_name unfolding reference_Parse_iff by fastforce
  then show ?thesis by (auto simp: ParseNamed_def split: sum.splits)
qed

lemma docker_Parse_cases:
  assumes "docker_Parse s = Inr r"
  obtains n t d where "s = spelled n t d" "in_grammar n t d" "length n \<le> 255" "d = [] \<or> Digest_Validate d = None"
    "r = fill_Namespace (if is_registry_only n then zero_DockerImageReference\<lparr>dr_Registry := s, dr_ID := d\<rparr>
       else if is_name_only n then zero_DockerImageReference\<lparr>dr_Name := n, dr_Tag := t, dr_ID := d\<rparr>
       else zero_DockerImageReference\<lparr>dr_Registry := before_slash n, dr_Name := after_slash n, dr_Tag := t, dr_ID := d\<rparr>)"
proof -
  obtain q where q: "ParseNamed s = Inr q" using assms by (auto simp: docker_Parse_def split: sum.splits)
  then obtain n t d where ntd: "s = spelled n t d" "in_grammar n t d" "length n \<le> 255" "d = [] \<or> Digest_Validate d = None"
    "getBestReferenceType n t d = Some q"
    unfolding ParseNamed_iff reference_Parse_iff by blast
  from best_parts [OF ntd(5)] in_grammar_name [OF ntd(2)] have p: "ParseNamed_parts q = Some (n, t, d)" "Reference_String q = s"
    using ntd(1) by auto
  have "r = fill_Namespace (if is_registry_only n then zero_DockerImageReference\<lparr>dr_Registry := s, dr_ID := d\<rparr>
       else if is_name_only n then zero_DockerImageReference\<lparr>dr_Name := n, dr_Tag := t, dr_ID := d\<rparr>
       else zero_DockerImageReference\<lparr>dr_Registry := before_slash n, dr_Name := after_slash n, dr_Tag := t, dr_ID := d\<rparr>)"
    using assms by (auto simp: docker_Parse_def q p Let_def)
  with ntd that show ?thesis by blast
qed

lemma slash_cut:
  "CHR ''/'' \<in> set s \<Longrightarrow> s = before_slash s @ CHR ''/'' # after_slash s"
  unfolding before_slash_def after_slash_def
  by (induction s) auto

text \<open>What stands before the name of a reference.\<close>

definition before_name :: "DockerImageReference \<Rightarrow> string" where
  "before_name r =
     (if dr_Registry r = [] then [] else dr_Registry r @ ''/'') @
     (if dr_Namespace r = [] then [] else dr_Namespace r @ ''/'')"

lemma Exact_before_name:
  assumes "dr_Name r \<noteq> []"
  shows "Exact r = before_name r @
    (if dr_ID r \<noteq> [] \<and> Digest_Validate (dr_ID r) \<noteq> None then spelled (dr_Name r) (dr_ID r) []
     else spelled (dr_Name r) (if dr_ID r = [] then dr_Tag r else []) (dr_ID r))"
  using assms by (auto simp: Exact_def NameString_def before_name_def spelled_def ParseDigest_def Let_def split: option.splits)

lemma fill_Namespace_spelled:
  assumes "[] \<notin> set (Split (dr_Name r) CHR ''/'')" "dr_Namespace r = []"
  shows "dr_Name (fill_Namespace r) \<noteq> []"
    "before_name (fill_Namespace r) @ spelled (dr_Name (fill_Namespace r)) t d = before_name r @ spelled (dr_Name r) t d"
proof -
  have *: "before_slash n \<noteq> []" "after_slash n \<noteq> []" "n = before_slash n @ CHR ''/'' # after_slash n"
    if "CHR ''/'' \<in> set n" "[] \<notin> set (Split n CHR ''/'')" for n
  proof -
    show n: "n = before_slash n @ CHR ''/'' # after_slash n" using slash_cut [OF that(1)] .
    have "Split n CHR ''/'' = Split (before_slash n) CHR ''/'' @ Split (after_slash n) CHR ''/''"
      by (subst n) (rule Split_append_sep)
    with that(2) show "before_slash n \<noteq> []" "after_slash n \<noteq> []" by auto
  qed
  show "dr_Name (fill_Namespace r) \<noteq> []"
    using assms * [of "dr_Name r"] by (auto simp: fill_Namespace_def)
  show "before_name (fill_Namespace r) @ spelled (dr_Name (fill_Namespace r)) t d = before_name r @ spelled (dr_Name r) t d"
  proof (cases "CHR ''/'' \<in> set (dr_Name r)")
    case True
    note cut = * [OF True assms(1)]
    have "spelled (dr_Name r) t d = before_slash (dr_Name r) @ ''/'' @ spelled (after_slash (dr_Name r)) t d"
      by (subst cut(3)) (simp add: spelled_def)
    then show ?thesis using True cut(1) by (simp add: fill_Namespace_def before_name_def assms(2))
  qed (simp add: fill_Namespace_def)
qed

lemma docker_Parse_text:
  assumes "docker_Parse s = Inr r"
  shows "if dr_Name r = [] then dr_Registry r = s \<and> dr_Namespace r = [] \<and> dr_Tag r = [] \<and> Exact r = []
    else s = before_name r @ spelled (dr_Name r) (dr_Tag r) (dr_ID r) \<and>
      Exact r = before_name r @ spelled (dr_Name r) (if dr_ID r = [] then dr_Tag r else []) (dr_ID r)"
  using assms
proof (rule docker_Parse_cases)
  fix n t d
  let ?z = zero_DockerImageReference
  assume s: "s = spelled n t d" and g: "in_grammar n t d" and d: "d = [] \<or> Digest_Validate d = None" and
    r: "r = fill_Namespace (if is_registry_only n then ?z\<lparr>dr_Registry := s, dr_ID := d\<rparr>
       else if is_name_only n then ?z\<lparr>dr_Name := n, dr_Tag := t, dr_ID := d\<rparr>
       else ?z\<lparr>dr_Registry := before_slash n, dr_Name := after_slash n, dr_Tag := t, dr_ID := d\<rparr>)"
  have n: "[] \<notin> set (Split n CHR ''/'')" using in_grammar_name [OF g] by simp
  show ?thesis
  proof (cases "is_registry_only n")
    case True
    then show ?thesis by (simp add: r fill_Namespace_def zero_DockerImageReference_def Exact_def NameString_def)
  next
    case False
    define q where "q = (if is_name_only n then ?z\<lparr>dr_Name := n, dr_Tag := t, dr_ID := d\<rparr>
       else ?z\<lparr>dr_Registry := before_slash n, dr_Name := after_slash n, dr_Tag := t, dr_ID := d\<rparr>)"
    have rq: "r = fill_Namespace q" using False by (simp add: r q_def)
    have "[] \<notin> set (Split (dr_Name q) CHR ''/'') \<and> before_name q @ spelled (dr_Name q) t d = s"
    proof (cases "is_name_only n")
      case False
      with \<open>\<not> is_registry_only n\<close> have "CHR ''/'' \<in> set n" by (auto simp: is_name_only_def)
      from slash_cut [OF this] n Split_append_sep [of "before_slash n" "CHR ''/''" "after_slash n"]
      have "n = before_slash n @ CHR ''/'' # after_slash n" "[] \<notin> set (Split (after_slash n) CHR ''/'')" "before_slash n \<noteq> []"
        by auto
      with False show ?thesis by (auto simp: q_def zero_DockerImageReference_def before_name_def spelled_def s)
    qed (simp add: q_def zero_DockerImageReference_def before_name_def s n)
    then have q: "[] \<notin> set (Split (dr_Name q) CHR ''/'')" "before_name q @ spelled (dr_Name q) t d = s" by auto
    have z: "dr_Namespace q = []" "dr_Tag q = t" "dr_ID q = d" by (auto simp: q_def zero_DockerImageReference_def)
    have "dr_Tag r = t" "dr_ID r = d" using z by (simp_all add: rq fill_Namespace_def)
    then show ?thesis
      using fill_Namespace_spelled [OF q(1) z(1)] q(2) d Exact_before_name [of r] by (auto simp: rq)
  qed
qed

lemma docker_Parse_ID:
  assumes "docker_Parse s = Inr r"
  shows "dr_ID r = [] \<or> Digest_Validate (dr_ID r) = None" "s \<noteq> []"
proof -
  obtain n t d where s: "s = spelled n t d" and g: "in_grammar n t d" and d: "d = [] \<or> Digest_Validate d = None" and
    r: "r = fill_Namespace (if is_registry_only n then zero_DockerImageReference\<lparr>dr_Registry := s, dr_ID := d\<rparr>
       else if is_name_only n then zero_DockerImageReference\<lparr>dr_Name := n, dr_Tag := t, dr_ID := d\<rparr>
       else zero_DockerImageReference\<lparr>dr_Registry := before_slash n, dr_Name := after_slash n, dr_Tag := t, dr_ID := d\<rparr>)"
    using assms by (rule docker_Parse_cases)
  have "dr_ID r = d" by (simp add: r fill_Namespace_def zero_DockerImageReference_def)
  with d show "dr_ID r = [] \<or> Digest_Validate (dr_ID r) = None" by simp
  show "s \<noteq> []" using in_grammar_name [OF g] by (simp add: s spelled_def)
qed

section \<open>Tags and digests\<close>

definition valid_tag :: "string \<Rightarrow> bool" where
  "valid_tag t \<longleftrightarrow> t \<noteq> [] \<and> length t \<le> 128 \<and>
     in_class [(CHR ''0'', CHR ''9''), (CHR ''A'', CHR ''Z''), (CHR ''a'', CHR ''z''), (CHR ''_'', CHR ''_'')] (hd t) \<and>
     list_all (in_class [(CHR ''0'', CHR ''9''), (CHR ''A'', CHR ''Z''), (CHR ''a'', CHR ''z''), (CHR ''_'', CHR ''_''),
         (CHR ''.'', CHR ''.''), (CHR ''-'', CHR ''-'')]) (tl t)"

definition hex_digits :: "string \<Rightarrow> bool" where
  "hex_digits = list_all (in_class [(CHR ''0'', CHR ''9''), (CHR ''A'', CHR ''F''), (CHR ''a'', CHR ''f'')])"

definition valid_digest :: "string \<Rightarrow> bool" where
  "valid_digest d \<longleftrightarrow>
     (\<exists>algorithm hex. d = algorithm @ CHR '':'' # hex \<and> digest_digits algorithm = Some (length hex) \<and> hex_digits hex)"

lemma TagRegexp_texts: "t \<in> rx_texts TagRegexp \<longleftrightarrow> valid_tag t"
  unfolding TagRegexp_def rx_texts.simps(4) rx_texts.simps(3) valid_tag_def
  by (cases t) (auto simp: class_upto_texts simp del: rx_texts.simps)

lemma cuts_first:
  "c \<notin> set a \<Longrightarrow> cuts c (a @ c # b) = (a, b) # map (\<lambda>(u, v). (a @ c # u, v)) (cuts c b)"
  by (induction a) (auto simp: case_prod_unfold)

lemma digest_shape:
  assumes "d \<in> rx_texts DigestRegexp"
  obtains a h where "d = a @ CHR '':'' # h" "CHR '':'' \<notin> set a" "32 \<le> length h" "hex_digits h"
proof -
  let ?s = "RxMany (RxThen (RxClass [(CHR ''-'', CHR ''-''), (CHR ''_'', CHR ''_''), (CHR ''+'', CHR ''+''), (CHR ''.'', CHR ''.'')])
           (RxThen letter (RxMany letter_digit)))"
  obtain a b c h where d: "d = a @ b @ c @ '':'' @ h" and
    m: "a \<in> rx_texts letter" "b \<in> rx_texts (RxMany letter_digit)" "c \<in> rx_texts ?s" and
    h: "h \<in> rx_texts (rx_at_least 32 (RxClass [(CHR ''0'', CHR ''9''), (CHR ''A'', CHR ''F''), (CHR ''a'', CHR ''f'')]))"
    using assms unfolding DigestRegexp_def rx_texts.simps(4) joined_mem rx_char_texts by blast
  have "rx_avoids CHR '':'' letter" "rx_avoids CHR '':'' (RxMany letter_digit)" "rx_avoids CHR '':'' ?s"
    by (simp_all add: class_defs)
  then have "CHR '':'' \<notin> set (a @ b @ c)" using m rx_avoids_texts by (metis UnE set_append)
  moreover have "32 \<le> length h" "hex_digits h" using h by (simp_all add: class_at_least_texts hex_digits_def)
  ultimately show ?thesis using that [of "a @ b @ c" h] d by simp
qed

lemma known_algorithms:
  assumes "digest_digits a = Some n"
  shows "a \<in> {''sha256'', ''sha384'', ''sha512''} \<and> 64 \<le> n \<and> CHR '':'' \<notin> set a"
  using assms by (auto simp: digest_digits_def split: if_splits)

lemma known_texts:
  assumes "a \<in> {''sha256'', ''sha384'', ''sha512''}"
  shows "a \<in> rx_texts (RxThen letter (RxMany letter_digit))"
  using assms unfolding rx_matches_iff [symmetric] by (elim insertE emptyE; hypsubst; code_simp)

lemma in_DigestRegexp:
  assumes "a \<in> rx_texts (RxThen letter (RxMany letter_digit))"
    "h \<in> rx_texts (rx_at_least 32 (RxClass [(CHR ''0'', CHR ''9''), (CHR ''A'', CHR ''F''), (CHR ''a'', CHR ''f'')]))"
  shows "a @ '':'' @ h \<in> rx_texts DigestRegexp"
proof -
  obtain x y where a: "a = x @ y" and x: "x \<in> rx_texts letter" and y: "y \<in> rx_texts (RxMany letter_digit)"
    using assms(1) unfolding rx_texts.simps(4) [of letter] joined_mem by blast
  have none: "[] \<in> rx_texts (RxMany r)" for r by (simp add: repeats_none)
  have colon: "'':'' \<in> rx_texts (rx_char CHR '':'')" by (simp add: rx_char_texts)
  have "x @ y @ [] @ '':'' @ h \<in> rx_texts DigestRegexp"
    unfolding DigestRegexp_def by (rule rx_thenI [OF x rx_thenI [OF y rx_thenI [OF none rx_thenI [OF colon assms(2)]]]])
  then show ?thesis unfolding a by simp
qed

lemma in_AnchoredDigest:
  assumes "list_all (in_class [(CHR ''a'', CHR ''z''), (CHR ''A'', CHR ''Z''), (CHR ''0'', CHR ''9''), (CHR ''-'', CHR ''-''),
         (CHR ''_'', CHR ''_''), (CHR ''+'', CHR ''+''), (CHR ''.'', CHR ''.'')]) a" "a \<noteq> []"
    "hex_digits h" "h \<noteq> []"
  shows "a @ '':'' @ h \<in> rx_texts AnchoredDigest"
proof -
  have "list_all (in_class [(CHR ''a'', CHR ''f''), (CHR ''A'', CHR ''F''), (CHR ''0'', CHR ''9'')]) h"
    using assms(3) unfolding hex_digits_def by (rule list.pred_mono_strong) (auto simp: in_class_def)
  then have "h \<in> rx_texts (rx_some (RxClass [(CHR ''a'', CHR ''f''), (CHR ''A'', CHR ''F''), (CHR ''0'', CHR ''9'')]))"
    using assms(4) unfolding class_some_texts by simp
  moreover have "'':'' \<in> rx_texts (rx_char CHR '':'')" by (simp add: rx_char_texts)
  ultimately show ?thesis
    unfolding AnchoredDigest_def using assms(1,2) by (intro rx_thenI) (simp_all only: class_some_texts simp_thms)
qed

lemma DigestRegexp_valid:
  "rx_matches DigestRegexp d \<and> Digest_Validate d = None \<longleftrightarrow> valid_digest d"
proof
  assume *: "rx_matches DigestRegexp d \<and> Digest_Validate d = None"
  then obtain a h where d: "d = a @ CHR '':'' # h" "CHR '':'' \<notin> set a" "hex_digits h"
    using digest_shape unfolding rx_matches_iff by metis
  with * have "digest_digits a = Some (length h)"
    by (auto simp: Digest_Validate_def cuts_first split: if_splits option.splits)
  with d show "valid_digest d" unfolding valid_digest_def by blast
next
  assume "valid_digest d"
  then obtain a h where d: "d = a @ CHR '':'' # h" and n: "digest_digits a = Some (length h)" and h: "hex_digits h"
    unfolding valid_digest_def by blast
  note a = known_algorithms [OF n]
  have "h \<in> rx_texts (rx_at_least 32 (RxClass [(CHR ''0'', CHR ''9''), (CHR ''A'', CHR ''F''), (CHR ''a'', CHR ''f'')]))"
    using a h unfolding class_at_least_texts hex_digits_def by simp
  moreover have "a \<in> rx_texts (RxThen letter (RxMany letter_digit))" using a by (intro known_texts) simp
  ultimately have "rx_matches DigestRegexp d"
    unfolding rx_matches_iff d using in_DigestRegexp [of a h] by simp
  moreover have "rx_matches AnchoredDigest d"
    unfolding rx_matches_iff d using in_AnchoredDigest [of a h] a h by (cases h) (auto simp: class_defs)
  ultimately show "rx_matches DigestRegexp d \<and> Digest_Validate d = None"
    using a n by (auto simp: Digest_Validate_def d cuts_first)
qed

section \<open>Properties\<close>

text \<open>
  C12: what is parsed is the grammar. A pull spec parses without an error exactly when it is a name,
  with a colon and a tag or not and with an at sign and a digest or not. The name is of the grammar
  and has at most 255 bytes, the tag has at most 128 characters and does not begin with a dot or a
  dash, and the digest is a known algorithm with its number of hexadecimal digits.
\<close>

theorem Parse_accepts:
  "(\<exists>r. docker_Parse s = Inr r) \<longleftrightarrow>
     (\<exists>n t d. s = spelled n t d \<and> n \<in> rx_texts NameRegexp \<and> length n \<le> 255 \<and>
        (t = [] \<or> valid_tag t) \<and> (d = [] \<or> valid_digest d))"
proof -
  have "(\<exists>r. docker_Parse s = Inr r) \<longleftrightarrow> (\<exists>q. reference_Parse s = Inr q)"
    unfolding ParseNamed_iff [symmetric] by (auto simp: docker_Parse_def Let_def split: sum.splits option.splits)
  also have "\<dots> \<longleftrightarrow> (\<exists>n t d. s = spelled n t d \<and> in_grammar n t d \<and> length n \<le> 255 \<and> (d = [] \<or> Digest_Validate d = None))"
    (is "_ \<longleftrightarrow> ?accepted")
  proof
    assume "?accepted"
    then obtain n t d where g: "s = spelled n t d" "in_grammar n t d" "length n \<le> 255" "d = [] \<or> Digest_Validate d = None"
      by blast
    obtain q where "getBestReferenceType n t d = Some q" using best_exists in_grammar_name [OF g(2)] by blast
    with g show "\<exists>q. reference_Parse s = Inr q" unfolding reference_Parse_iff by blast
  qed (unfold reference_Parse_iff, blast)
  also have "\<dots> \<longleftrightarrow> (\<exists>n t d. s = spelled n t d \<and> n \<in> rx_texts NameRegexp \<and> length n \<le> 255 \<and>
      (t = [] \<or> valid_tag t) \<and> (d = [] \<or> valid_digest d))"
    unfolding DigestRegexp_valid [symmetric] TagRegexp_texts [symmetric] in_grammar_def rx_matches_iff
    by (intro arg_cong [of _ _ Ex] ext) auto
  finally show ?thesis .
qed

text \<open>
  C20: parsing a pull spec keeps its text: the registry, the namespace, the name, the tag and the
  digest of the result, put together again, spell the pull spec, and \<open>Exact\<close> gives it back except
  that a tag beside a digest is dropped. A single word that looks like a host is taken for the
  registry, tag and digest included; such a reference has no name and \<open>Exact\<close> gives the empty text.
\<close>

theorem Parse_keeps_text:
  assumes "docker_Parse s = Inr r"
  shows "if dr_Name r = [] then dr_Registry r = s \<and> dr_Namespace r = [] \<and> dr_Tag r = [] \<and> Exact r = []
    else s = before_name r @ spelled (dr_Name r) (dr_Tag r) (dr_ID r) \<and>
      Exact r = before_name r @ spelled (dr_Name r) (if dr_ID r = [] then dr_Tag r else []) (dr_ID r)"
  by (rule docker_Parse_text [OF assms])

theorem Parse_keeps_text_witness:
  "(let s = ''q.io:5000/n/i/j:v1''; r = \<lparr>dr_Registry = ''q.io:5000'', dr_Namespace = ''n'', dr_Name = ''i/j'', dr_Tag = ''v1'', dr_ID = []\<rparr>
    in docker_Parse s = Inr r \<and> Exact r = s) \<and>
   docker_Parse ''my.index:v1'' = Inr (zero_DockerImageReference\<lparr>dr_Registry := ''my.index:v1''\<rparr>)"
proof -
  have "docker_Parse ''q.io:5000/n/i/j:v1'' =
     Inr \<lparr>dr_Registry = ''q.io:5000'', dr_Namespace = ''n'', dr_Name = ''i/j'', dr_Tag = ''v1'', dr_ID = []\<rparr>"
    "docker_Parse ''my.index:v1'' = Inr (zero_DockerImageReference\<lparr>dr_Registry := ''my.index:v1''\<rparr>)"
    by code_simp+
  with Parse_keeps_text [OF this(1)] show ?thesis by (simp add: before_name_def spelled_def)
qed

end
