(* ===== verification/Metadata.thy ===== *)
theory Metadata
  imports V1alpha2 Grammar
begin

text \<open>
  pkg/api/v1alpha2/type_metadata.go: the metadata of an image set and its JSON form, written
  member by member as \<open>encoding/json\<close> does (\<open>omitempty\<close>, promoted fields of embedded structs, the
  \<open>MarshalJSON\<close> methods of the enumerations, whose first error ends the encoding), and the raw
  index with the marshalling method that calls itself.
\<close>

section \<open>The types\<close>

definition MetadataKind :: string where "MetadataKind = ''Metadata''"

record OperatorMetadata =
  om2_Catalog :: string
  om2_ImagePin :: string
  om2_IncludeConfig :: IncludeConfig

record PlatformMetadata =
  pm_ReleaseChannel :: string
  pm_MinVersion :: string

record PastMirror =
  pa_Timestamp :: int
  pa_Sequence :: int
  pa_Mirror :: V2Mirror
  pa_Operators :: "OperatorMetadata list"
  pa_Platforms :: "PlatformMetadata list"
  pa_Associations :: "Association list"

text \<open>A UUID is its 16 bytes.\<close>

record MetadataSpec =
  ms_Uid :: "nat list"
  ms_SingleUse :: bool
  ms_PastMirror :: PastMirror
  ms_PastAssociations :: "Association list"

record Metadata =
  md_TypeMeta :: TypeMeta
  md_Spec :: MetadataSpec

section \<open>Zero values and \<open>NewMetadata\<close>\<close>

definition zero_V2Mirror :: V2Mirror where
  "zero_V2Mirror =
     \<lparr>mi_Platform = \<lparr>pf_Graph = False, pf_Channels = [], pf_Architectures = []\<rparr>, mi_Operators = [],
      mi_AdditionalImages = [], mi_Helm = \<lparr>hm_Repositories = [], hm_Local = []\<rparr>,
      mi_BlockedImages = [], mi_Samples = []\<rparr>"

definition zero_MetadataSpec :: MetadataSpec where
  "zero_MetadataSpec =
     \<lparr>ms_Uid = replicate 16 0, ms_SingleUse = False,
      ms_PastMirror = \<lparr>pa_Timestamp = 0, pa_Sequence = 0, pa_Mirror = zero_V2Mirror,
        pa_Operators = [], pa_Platforms = [], pa_Associations = []\<rparr>,
      ms_PastAssociations = []\<rparr>"

definition NewMetadata :: Metadata where
  "NewMetadata =
     \<lparr>md_TypeMeta = \<lparr>tm_Kind = MetadataKind, tm_APIVersion = GroupVersion\<rparr>,
      md_Spec = zero_MetadataSpec\<rparr>"

section \<open>Members of an object\<close>

type_synonym members = "(string \<times> json) list res"

fun res_list :: "'a res list \<Rightarrow> 'a list res" where
  "res_list [] = Ok []"
| "res_list (r # rs) = res_bind r (\<lambda>a. res_map ((#) a) (res_list rs))"

definition enc_list :: "('a \<Rightarrow> json res) \<Rightarrow> 'a list \<Rightarrow> json res" where
  "enc_list e as = res_map JArr (res_list (map e as))"

definition enc_object :: "members list \<Rightarrow> json res" where
  "enc_object ms = res_map (\<lambda>ps. JObj (concat ps)) (res_list ms)"

definition member :: "string \<Rightarrow> json res \<Rightarrow> members" where
  "member k r = res_map (\<lambda>v. [(k, v)]) r"

definition mem_str :: "string \<Rightarrow> string \<Rightarrow> members" where
  "mem_str k s = member k (Ok (JStr s))"

definition mem_bool :: "string \<Rightarrow> bool \<Rightarrow> members" where
  "mem_bool k b = member k (Ok (JBool b))"

definition mem_int :: "string \<Rightarrow> int \<Rightarrow> members" where
  "mem_int k n = member k (Ok (JNum (show_int n)))"

text \<open>\<open>omitempty\<close>\<close>

definition opt_str :: "string \<Rightarrow> string \<Rightarrow> members" where
  "opt_str k s = (if s = [] then Ok [] else mem_str k s)"

definition opt_bool :: "string \<Rightarrow> bool \<Rightarrow> members" where
  "opt_bool k b = (if b then mem_bool k b else Ok [])"

definition opt_list :: "string \<Rightarrow> ('a \<Rightarrow> json res) \<Rightarrow> 'a list \<Rightarrow> members" where
  "opt_list k e as = (if as = [] then Ok [] else member k (enc_list e as))"

definition mem_slice :: "string \<Rightarrow> ('a \<Rightarrow> json res) \<Rightarrow> 'a list option \<Rightarrow> members" where
  "mem_slice k e p = member k (case p of None \<Rightarrow> Ok JNull | Some as \<Rightarrow> enc_list e as)"

definition enc_string :: "string \<Rightarrow> json res" where
  "enc_string s = Ok (JStr s)"

text \<open>A value with a \<open>MarshalJSON\<close> method of its own; \<open>t\<close> is the name of its type.\<close>

definition marshaler_error :: "string \<Rightarrow> go_error \<Rightarrow> go_error" where
  "marshaler_error t e = WrapError (''json: error calling MarshalJSON for type '' @ t @ '': '' @ err_text e) e"

definition enc_enum :: "string \<Rightarrow> unit res \<Rightarrow> string \<Rightarrow> json res" where
  "enc_enum t valid s =
     (case valid of Ok _ \<Rightarrow> Ok (JStr s) | Err e \<Rightarrow> Err (marshaler_error t e) | Panic x \<Rightarrow> Panic x)"

section \<open>The encoders\<close>

definition enc_ImageType :: "ImageType \<Rightarrow> json res" where
  "enc_ImageType it = enc_enum ''v1alpha2.ImageType'' (ImageType_validate it) (ImageType_String it)"

definition enc_PlatformType :: "PlatformType \<Rightarrow> json res" where
  "enc_PlatformType pt =
     enc_enum ''v1alpha2.PlatformType'' (PlatformType_validate pt) (PlatformType_String pt)"

definition mem_IncludeBundle :: "IncludeBundle \<Rightarrow> members list" where
  "mem_IncludeBundle b =
     [opt_str ''minVersion'' (ib_MinVersion b), opt_str ''maxVersion'' (ib_MaxVersion b),
      opt_str ''minBundle'' (ib_MinBundle b)]"

definition enc_IncludeChannel :: "IncludeChannel \<Rightarrow> json res" where
  "enc_IncludeChannel c = enc_object (mem_str ''name'' (ic_Name c) # mem_IncludeBundle (ic_IncludeBundle c))"

definition enc_IncludePackage :: "IncludePackage \<Rightarrow> json res" where
  "enc_IncludePackage p =
     enc_object ([mem_str ''name'' (ip_Name p), opt_list ''channels'' enc_IncludeChannel (ip_Channels p)] @
       mem_IncludeBundle (ip_IncludeBundle p))"

definition mem_IncludeConfig :: "IncludeConfig \<Rightarrow> members" where
  "mem_IncludeConfig ic = mem_slice ''packages'' enc_IncludePackage (in_Packages ic)"

definition enc_ReleaseChannel :: "ReleaseChannel \<Rightarrow> json res" where
  "enc_ReleaseChannel r = enc_object
     [mem_str ''name'' (rl_Name r), member ''type'' (enc_PlatformType (rl_Type r)),
      opt_str ''minVersion'' (rl_MinVersion r), opt_str ''maxVersion'' (rl_MaxVersion r),
      opt_bool ''shortestPath'' (rl_ShortestPath r), opt_bool ''full'' (rl_Full r)]"

definition enc_Platform :: "Platform \<Rightarrow> json res" where
  "enc_Platform p = enc_object
     [opt_bool ''graph'' (pf_Graph p), opt_list ''channels'' enc_ReleaseChannel (pf_Channels p),
      opt_list ''architectures'' enc_string (pf_Architectures p)]"

definition enc_Operator :: "Operator \<Rightarrow> json res" where
  "enc_Operator o' = enc_object
     [mem_IncludeConfig (op_IncludeConfig o'), mem_str ''catalog'' (op_Catalog o'),
      opt_str ''targetName'' (op_TargetName o'), opt_str ''targetTag'' (op_TargetTag o'),
      opt_bool ''full'' (op_Full o'), opt_bool ''skipDependencies'' (op_SkipDependencies o'),
      opt_str ''originalRef'' (op_OriginalRef o')]"

definition enc_Chart :: "Chart \<Rightarrow> json res" where
  "enc_Chart c = enc_object
     [mem_str ''name'' (ch_Name c), opt_str ''version'' (ch_Version c), opt_str ''path'' (ch_Path c),
      opt_list ''imagePaths'' enc_string (ch_ImagePaths c)]"

definition enc_Repository :: "Repository \<Rightarrow> json res" where
  "enc_Repository r = enc_object
     [mem_str ''url'' (rp_URL r), mem_str ''name'' (rp_Name r), mem_slice ''charts'' enc_Chart (rp_Charts r)]"

definition enc_Helm :: "Helm \<Rightarrow> json res" where
  "enc_Helm h = enc_object
     [opt_list ''repositories'' enc_Repository (hm_Repositories h), opt_list ''local'' enc_Chart (hm_Local h)]"

definition enc_Image :: "Image \<Rightarrow> json res" where
  "enc_Image i = enc_object [mem_str ''name'' (im_Name i)]"

definition enc_SampleImages :: "SampleImages \<Rightarrow> json res" where
  "enc_SampleImages s = enc_object [mem_str ''name'' (im_Name (sm_Image s))]"

definition enc_V2Mirror :: "V2Mirror \<Rightarrow> json res" where
  "enc_V2Mirror m = enc_object
     [member ''platform'' (enc_Platform (mi_Platform m)),
      opt_list ''operators'' enc_Operator (mi_Operators m),
      opt_list ''additionalImages'' enc_Image (mi_AdditionalImages m),
      member ''helm'' (enc_Helm (mi_Helm m)), opt_list ''blockedImages'' enc_Image (mi_BlockedImages m),
      opt_list ''samples'' enc_SampleImages (mi_Samples m)]"

definition enc_Association :: "Association \<Rightarrow> json res" where
  "enc_Association a = enc_object
     [mem_str ''name'' (as_Name a), mem_str ''path'' (as_Path a), mem_str ''id'' (as_ID a),
      mem_str ''tagSymlink'' (as_TagSymlink a), member ''type'' (enc_ImageType (as_Type a)),
      opt_list ''manifestDigests'' enc_string (as_ManifestDigests a),
      opt_list ''layerDigests'' enc_string (as_LayerDigests a)]"

definition enc_OperatorMetadata :: "OperatorMetadata \<Rightarrow> json res" where
  "enc_OperatorMetadata o' = enc_object
     [mem_str ''catalog'' (om2_Catalog o'), mem_str ''imagePin'' (om2_ImagePin o'),
      mem_IncludeConfig (om2_IncludeConfig o')]"

definition enc_PlatformMetadata :: "PlatformMetadata \<Rightarrow> json res" where
  "enc_PlatformMetadata p = enc_object
     [mem_str ''channel'' (pm_ReleaseChannel p), mem_str ''minVersion'' (pm_MinVersion p)]"

definition enc_PastMirror :: "PastMirror \<Rightarrow> json res" where
  "enc_PastMirror p = enc_object
     [mem_int ''timestamp'' (pa_Timestamp p), mem_int ''sequence'' (pa_Sequence p),
      member ''mirror'' (enc_V2Mirror (pa_Mirror p)),
      opt_list ''operators'' enc_OperatorMetadata (pa_Operators p),
      opt_list ''platforms'' enc_PlatformMetadata (pa_Platforms p),
      opt_list ''associations'' enc_Association (pa_Associations p)]"

text \<open>\<open>uuid.UUID.MarshalText\<close>\<close>

definition uuid_text :: "nat list \<Rightarrow> string" where
  "uuid_text u =
    (let hex = concat (map (\<lambda>n. [hex_digit (n div 16 mod 16), hex_digit (n mod 16)]) u) in
     Join [take 8 hex, take 4 (drop 8 hex), take 4 (drop 12 hex), take 4 (drop 16 hex), drop 20 hex] ''-'')"

definition enc_Metadata :: "Metadata \<Rightarrow> json res" where
  "enc_Metadata m = enc_object
     [opt_str ''kind'' (tm_Kind (md_TypeMeta m)), opt_str ''apiVersion'' (tm_APIVersion (md_TypeMeta m)),
      mem_str ''uid'' (uuid_text (ms_Uid (md_Spec m))), mem_bool ''singleUse'' (ms_SingleUse (md_Spec m)),
      member ''pastMirror'' (enc_PastMirror (ms_PastMirror (md_Spec m))),
      opt_list ''pastAssociations'' enc_Association (ms_PastAssociations (md_Spec m))]"

section \<open>\<open>Metadata.MarshalJSON\<close>\<close>

text \<open>\<open>GroupVersion.WithKind\<close>, \<open>GroupVersionKind.String\<close> and \<open>TypeMeta.SetGroupVersionKind\<close>\<close>

definition WithKind :: "string \<Rightarrow> GroupVersionKind" where
  "WithKind kind = \<lparr>gvk_Group = group, gvk_Version = version, gvk_Kind = kind\<rparr>"

definition GroupVersionKind_String :: "GroupVersionKind \<Rightarrow> string" where
  "GroupVersionKind_String gvk = gvk_Group gvk @ ''/'' @ gvk_Version gvk @ '', Kind='' @ gvk_Kind gvk"

definition SetGroupVersionKind :: "GroupVersionKind \<Rightarrow> Metadata \<Rightarrow> Metadata" where
  "SetGroupVersionKind gvk m =
     m\<lparr>md_TypeMeta :=
       (if gvk_Group gvk = [] \<and> gvk_Version gvk = [] \<and> gvk_Kind gvk = []
        then \<lparr>tm_Kind = [], tm_APIVersion = []\<rparr>
        else \<lparr>tm_Kind = gvk_Kind gvk,
              tm_APIVersion = GroupVersion_String (gvk_Group gvk) (gvk_Version gvk)\<rparr>)\<rparr>"

text \<open>The text ends in a newline; the receiver is a pointer, whose kind and version are set.\<close>

definition Metadata_MarshalJSON :: "Metadata \<Rightarrow> string res \<times> Metadata" where
  "Metadata_MarshalJSON m =
    (let gvk = WithKind MetadataKind; m1 = SetGroupVersionKind gvk m in
     (case enc_Metadata m1 of
        Ok j \<Rightarrow> Ok (json_text j @ [CHR 0x0A])
      | Err err \<Rightarrow> Err (Errorf ''encode %s: %v'' [FStr (GroupVersionKind_String gvk), FErr err])
      | Panic x \<Rightarrow> Panic x, m1))"

section \<open>The raw index\<close>

text \<open>
  \<open>Write\<close> keeps a copy of the data (\<open>RawMessage.UnmarshalJSON\<close> never fails) and gives its length.
\<close>

definition InlinedIndex_Write :: "string \<Rightarrow> string \<Rightarrow> (nat \<times> go_error option) \<times> string" where
  "InlinedIndex_Write index data = ((length data, None), data)"

text \<open>
  \<open>json.Marshal\<close> of a value whose type has the method \<open>MarshalJSON\<close> calls the method and then
  compacts its text; the method is \<open>json.Marshal\<close> of the same value. \<open>None\<close> is a call that does
  not return.
\<close>

partial_function (option) InlinedIndex_MarshalJSON :: "string \<Rightarrow> string res option" where
  "InlinedIndex_MarshalJSON index =
     Option.bind (InlinedIndex_MarshalJSON index) (\<lambda>r.
       Some (case r of
         Ok text \<Rightarrow> Ok text
       | Err e \<Rightarrow> Err (marshaler_error ''v1alpha2.InlinedIndex'' e)
       | Panic x \<Rightarrow> Panic x))"

section \<open>The enumerations\<close>

lemma imageTypeStrings_iff: "imageTypeStrings it \<noteq> None \<longleftrightarrow> 1 \<le> it \<and> it \<le> 7"
  by (auto simp: imageTypeStrings_def image_types)

lemma imageTypeStrings_names:
  assumes "1 \<le> it" "it \<le> 7"
  shows "imageTypeStrings it = Some ([''ocpRelease'', ''ocpReleaseContent'', ''cincinnatiGraph'',
    ''operatorCatalog'', ''operatorBundle'', ''operatorRelatedImage'', ''generic''] ! nat (it - 1))"
proof -
  have "it \<in> {1, 2, 3, 4, 5, 6, 7}" using assms by auto
  then show ?thesis by (auto simp: imageTypeStrings_def image_types)
qed

text \<open>The two tables are inverse to each other.\<close>

lemma imageTypes_cases:
  assumes "imageTypeStrings it = Some s"
  shows "imageStringsType s = Some it \<and> utf8_ok s"
proof -
  have "list_all (\<lambda>(t, s). imageStringsType s = Some t \<and> utf8_ok s)
     [(TypeOCPReleaseContent, ''ocpReleaseContent''), (TypeCincinnatiGraph, ''cincinnatiGraph''),
      (TypeOCPRelease, ''ocpRelease''), (TypeOperatorCatalog, ''operatorCatalog''),
      (TypeOperatorBundle, ''operatorBundle''), (TypeOperatorRelatedImage, ''operatorRelatedImage''),
      (TypeGeneric, ''generic'')]"
    by code_simp
  then show ?thesis using assms unfolding imageTypeStrings_def
    by (fastforce dest: map_of_SomeD simp: list_all_iff)
qed

lemma platformTypes_cases:
  assumes "platformTypeStrings pt = Some s"
  shows "platformStringsType s = Some pt \<and> utf8_ok s"
proof -
  have "list_all (\<lambda>(t, s). platformStringsType s = Some t \<and> utf8_ok s) [(TypeOCP, ''ocp''), (TypeOKD, ''okd'')]"
    by code_simp
  then show ?thesis using assms unfolding platformTypeStrings_def
    by (fastforce dest: map_of_SomeD simp: list_all_iff)
qed

lemma ImageType_validate_Ok: "ImageType_validate it = Ok () \<longleftrightarrow> imageTypeStrings it \<noteq> None"
  by (auto simp: ImageType_validate_def)

lemma ImageType_Marshal_Ok:
  "ImageType_MarshalJSON it = Ok b \<longleftrightarrow> (\<exists>s. imageTypeStrings it = Some s \<and> b = json_text (JStr s))"
  by (auto simp: ImageType_MarshalJSON_def ImageType_validate_def ImageType_String_def map_get_def)

lemma PlatformType_Marshal_Ok:
  "PlatformType_MarshalJSON pt = Ok b \<longleftrightarrow> (\<exists>s. platformTypeStrings pt = Some s \<and> b = json_text (JStr s))"
  by (auto simp: PlatformType_MarshalJSON_def PlatformType_validate_def PlatformType_String_def map_get_def)

section \<open>What can be marshalled\<close>

lemma res_list_Ok:
  "res_list rs = Ok as \<longleftrightarrow> list_all2 (\<lambda>r a. r = Ok a) rs as"
  by (induction rs arbitrary: as) (auto simp: res_map_Ok list_all2_Cons1 res_bind_def split: res.splits)

lemma enc_list_Ok:
  "enc_list e as = Ok j \<longleftrightarrow> (\<exists>js. list_all2 (\<lambda>a j. e a = Ok j) as js \<and> j = JArr js)"
  by (auto simp: enc_list_def res_map_Ok res_list_Ok list_all2_map1)

text \<open>Whether an encoding succeeds depends on the enumerations in it only.\<close>

lemma is_ok_res_bind [simp]: "is_ok (res_bind r k) \<longleftrightarrow> (\<exists>a. r = Ok a \<and> is_ok (k a))"
  by (cases r) auto

lemma is_ok_res_map [simp]: "is_ok (res_map f r) \<longleftrightarrow> is_ok r"
  by (cases r) auto

lemma is_ok_res_list: "is_ok (res_list rs) \<longleftrightarrow> list_all is_ok rs"
proof (induction rs)
  case (Cons r rs)
  then show ?case by (cases r) simp_all
qed simp

lemma is_ok_members [simp]:
  "is_ok (mem_str k s)" "is_ok (mem_bool k b)" "is_ok (mem_int k n)" "is_ok (opt_str k s)"
  "is_ok (opt_bool k b)" "is_ok (member k r) \<longleftrightarrow> is_ok r"
  by (simp_all add: mem_str_def mem_bool_def mem_int_def opt_str_def opt_bool_def member_def)

lemma is_ok_enc [simp]:
  "is_ok (enc_object ms) \<longleftrightarrow> list_all is_ok ms"
  "is_ok (enc_list e as) \<longleftrightarrow> list_all (\<lambda>a. is_ok (e a)) as"
  "is_ok (enc_string s)"
  by (simp_all add: enc_object_def enc_list_def enc_string_def is_ok_res_list list.pred_map comp_def)

lemma is_ok_lists [simp]:
  "is_ok (opt_list k e as) \<longleftrightarrow> list_all (\<lambda>a. is_ok (e a)) as"
  "is_ok (mem_slice k e p) \<longleftrightarrow> (\<forall>as. p = Some as \<longrightarrow> list_all (\<lambda>a. is_ok (e a)) as)"
  by (auto simp: opt_list_def mem_slice_def split: option.split)

lemma list_all_True [simp]: "list_all (\<lambda>_. True) as"
  by (simp add: list_all_iff)

lemma is_ok_types [simp]:
  "is_ok (enc_ImageType it) \<longleftrightarrow> 1 \<le> it \<and> it \<le> 7"
  "is_ok (enc_PlatformType pt) \<longleftrightarrow> pt \<in> {TypeOCP, TypeOKD}"
  using imageTypeStrings_iff [of it]
  by (auto simp: enc_ImageType_def enc_PlatformType_def enc_enum_def ImageType_validate_def
      PlatformType_validate_def platformTypeStrings_def)

lemma is_ok_bundle [simp]: "list_all is_ok (mem_IncludeBundle b)"
  by (simp add: mem_IncludeBundle_def)

lemma is_ok_parts [simp]:
  "is_ok (enc_IncludeChannel c)" "is_ok (enc_IncludePackage p)" "is_ok (mem_IncludeConfig ic)"
  "is_ok (enc_Operator op1)" "is_ok (enc_Chart ch)" "is_ok (enc_Repository rp)" "is_ok (enc_Helm h)"
  "is_ok (enc_Image i)" "is_ok (enc_SampleImages s)" "is_ok (enc_OperatorMetadata om)"
  "is_ok (enc_PlatformMetadata pm)"
proof -
  show c: "is_ok (enc_IncludeChannel c)" for c by (simp add: enc_IncludeChannel_def)
  show p: "is_ok (enc_IncludePackage p)" for p by (simp add: enc_IncludePackage_def c)
  show ic: "is_ok (mem_IncludeConfig ic)" for ic by (simp add: mem_IncludeConfig_def p)
  show "is_ok (enc_Operator op1)" by (simp add: enc_Operator_def ic)
  show ch: "is_ok (enc_Chart ch)" for ch by (simp add: enc_Chart_def)
  show rp: "is_ok (enc_Repository rp)" for rp by (simp add: enc_Repository_def ch)
  show "is_ok (enc_Helm h)" by (simp add: enc_Helm_def ch rp)
  show "is_ok (enc_Image i)" "is_ok (enc_SampleImages s)" "is_ok (enc_PlatformMetadata pm)"
    by (simp_all add: enc_Image_def enc_SampleImages_def enc_PlatformMetadata_def)
  show "is_ok (enc_OperatorMetadata om)" by (simp add: enc_OperatorMetadata_def ic)
qed

text \<open>The enumerations in a metadata object: the types of the channels and of the associations.\<close>

definition types_ok :: "MetadataSpec \<Rightarrow> bool" where
  "types_ok s \<longleftrightarrow>
     (\<forall>r \<in> set (pf_Channels (mi_Platform (pa_Mirror (ms_PastMirror s)))). rl_Type r \<in> {TypeOCP, TypeOKD}) \<and>
     (\<forall>a \<in> set (pa_Associations (ms_PastMirror s)) \<union> set (ms_PastAssociations s).
        1 \<le> as_Type a \<and> as_Type a \<le> 7)"

lemma is_ok_Metadata: "is_ok (enc_Metadata m) \<longleftrightarrow> types_ok (md_Spec m)"
proof -
  have a: "is_ok (enc_Association a) \<longleftrightarrow> 1 \<le> as_Type a \<and> as_Type a \<le> 7" for a
    by (simp add: enc_Association_def)
  have p: "is_ok (enc_Platform p) \<longleftrightarrow> (\<forall>r \<in> set (pf_Channels p). rl_Type r \<in> {TypeOCP, TypeOKD})" for p
    by (simp add: enc_Platform_def enc_ReleaseChannel_def list_all_iff)
  show ?thesis
    by (auto simp: enc_Metadata_def enc_PastMirror_def enc_V2Mirror_def types_ok_def a p list_all_iff)
qed

lemma is_ok_Marshal: "is_ok (fst (Metadata_MarshalJSON m)) \<longleftrightarrow> types_ok (md_Spec m)"
proof -
  let ?m = "SetGroupVersionKind (WithKind MetadataKind) m"
  have "is_ok (fst (Metadata_MarshalJSON m)) \<longleftrightarrow> is_ok (enc_Metadata ?m)"
    by (cases "enc_Metadata ?m") (simp_all add: Metadata_MarshalJSON_def Let_def)
  then show ?thesis by (simp add: is_ok_Metadata SetGroupVersionKind_def)
qed

section \<open>Properties\<close>

text \<open>
  C11: image types and their JSON form. An image type is written exactly when it is one of the seven
  named types, and then as its name; reading what was written gives the same type. The other values,
  the zero value of an unset field first, are refused with an error.
\<close>

theorem ImageType_roundtrip:
  "(is_ok (ImageType_MarshalJSON it) \<longleftrightarrow> 1 \<le> it \<and> it \<le> 7) \<and>
   (1 \<le> it \<and> it \<le> 7 \<longrightarrow> ImageType_MarshalJSON it = Ok (json_text (JStr
      ([''ocpRelease'', ''ocpReleaseContent'', ''cincinnatiGraph'', ''operatorCatalog'',
        ''operatorBundle'', ''operatorRelatedImage'', ''generic''] ! nat (it - 1))))) \<and>
   (\<forall>b. ImageType_MarshalJSON it = Ok b \<longrightarrow> ImageType_UnmarshalJSON b = Ok it) \<and>
   (\<forall>x. ImageType_MarshalJSON it \<noteq> Panic x)"
proof (intro conjI allI impI)
  show "is_ok (ImageType_MarshalJSON it) \<longleftrightarrow> 1 \<le> it \<and> it \<le> 7"
    using imageTypeStrings_iff [of it] by (auto simp: is_ok_iff ImageType_Marshal_Ok)
  assume "1 \<le> it \<and> it \<le> 7"
  then show "ImageType_MarshalJSON it = Ok (json_text (JStr
      ([''ocpRelease'', ''ocpReleaseContent'', ''cincinnatiGraph'', ''operatorCatalog'',
        ''operatorBundle'', ''operatorRelatedImage'', ''generic''] ! nat (it - 1))))"
    using imageTypeStrings_names [of it] by (auto simp: ImageType_Marshal_Ok)
next
  fix b assume "ImageType_MarshalJSON it = Ok b"
  then obtain s where s: "imageTypeStrings it = Some s" "b = json_text (JStr s)"
    by (auto simp: ImageType_Marshal_Ok)
  then show "ImageType_UnmarshalJSON b = Ok it"
    using imageTypes_cases [OF s(1)]
    by (simp add: ImageType_UnmarshalJSON_def json_Unmarshal_string map_get_def)
next
  show "ImageType_MarshalJSON it \<noteq> Panic x" for x
    by (simp add: ImageType_MarshalJSON_def ImageType_validate_def)
qed

theorem ImageType_roundtrip_witness:
  "\<exists>b. ImageType_MarshalJSON TypeGeneric = Ok b \<and> ImageType_UnmarshalJSON b = Ok TypeGeneric"
  using ImageType_roundtrip [of TypeGeneric] by (auto simp: TypeGeneric_def is_ok_iff)

text \<open>
  Platform types survive their JSON form, but reading is not strict: every other string,
  however it is misspelled, is read as the type of OpenShift, without an error.
\<close>

theorem PlatformType_roundtrip:
  assumes "utf8_ok s"
  shows "PlatformType_UnmarshalJSON (json_text (JStr s)) =
      Ok (if s = ''okd'' then TypeOKD else TypeOCP) \<and>
    (PlatformType_MarshalJSON pt = Ok (json_text (JStr s)) \<and> pt \<in> {TypeOCP, TypeOKD} \<longrightarrow>
      PlatformType_UnmarshalJSON (json_text (JStr s)) = Ok pt)"
proof -
  have read: "PlatformType_UnmarshalJSON (json_text (JStr s)) = Ok (if s = ''okd'' then TypeOKD else TypeOCP)"
    using assms by (simp add: PlatformType_UnmarshalJSON_def json_Unmarshal_string map_get_def
        platformStringsType_def TypeOCP_def TypeOKD_def)
  moreover have "pt = (if s = ''okd'' then TypeOKD else TypeOCP)"
    if written: "PlatformType_MarshalJSON pt = Ok (json_text (JStr s))"
  proof -
    obtain s' where s': "platformTypeStrings pt = Some s'" "json_text (JStr s) = json_text (JStr s')"
      using written by (auto simp: PlatformType_Marshal_Ok)
    then have "s = s'" using platformTypes_cases [OF s'(1)] assms
      by (metis json_Unmarshal_string res.inject(1))
    then show ?thesis using s'(1)
      by (auto simp: platformTypeStrings_def TypeOCP_def TypeOKD_def split: if_splits)
  qed
  ultimately show ?thesis by simp
qed

theorem PlatformType_roundtrip_witness:
  "PlatformType_UnmarshalJSON (json_text (JStr ''OKD'')) = Ok TypeOCP"
  using PlatformType_roundtrip [of "''OKD''" TypeOCP] by (simp add: utf8_ok.simps code_def)

text \<open>
  C13: an association is valid exactly when it has children of one kind only, an id or a tag, and
  one of the seven image types; otherwise \<open>Validate\<close> gives an error and never panics.
\<close>

theorem Association_valid:
  "(Association_Validate a = Ok () \<longleftrightarrow>
      (as_ManifestDigests a = []) \<noteq> (as_LayerDigests a = []) \<and>
      \<not> (as_ID a = [] \<and> as_TagSymlink a = []) \<and> 1 \<le> as_Type a \<and> as_Type a \<le> 7) \<and>
   (\<forall>x. Association_Validate a \<noteq> Panic x)"
  using imageTypeStrings_iff [of "as_Type a"]
  by (auto simp: Association_Validate_def ImageType_validate_def)

text \<open>
  Metadata is written as JSON that parses back. \<open>MarshalJSON\<close> succeeds exactly when every
  channel has a platform type and every association an image type; it sets kind and version of
  the object first; and the text it gives, with the newline at its end, is parsed to the members
  it was made of, for strings in UTF-8.
\<close>

lemma Metadata_written_parses:
  assumes "Metadata_MarshalJSON m = (r, m1)"
  shows "(is_ok r \<longleftrightarrow> types_ok (md_Spec m)) \<and>
    md_TypeMeta m1 = md_TypeMeta NewMetadata \<and> md_Spec m1 = md_Spec m \<and>
    (\<forall>s j. r = Ok s \<and> enc_Metadata m1 = Ok j \<and> json_ok j \<longrightarrow> parse_json s = Inr j)"
proof -
  have m1: "m1 = SetGroupVersionKind (WithKind MetadataKind) m"
    and r: "r = (case enc_Metadata m1 of Ok j \<Rightarrow> Ok (json_text j @ [CHR 0x0A])
      | Err err \<Rightarrow> Err (Errorf ''encode %s: %v''
          [FStr (GroupVersionKind_String (WithKind MetadataKind)), FErr err])
      | Panic x \<Rightarrow> Panic x)"
    using assms by (auto simp: Metadata_MarshalJSON_def Let_def)
  have "md_TypeMeta m1 = md_TypeMeta NewMetadata" "md_Spec m1 = md_Spec m"
    by (simp_all add: m1 SetGroupVersionKind_def WithKind_def NewMetadata_def GroupVersion_def group_def)
  moreover have "parse_json s = Inr j" if "r = Ok s" "enc_Metadata m1 = Ok j" "json_ok j" for s j
    using that r parse_json_text_ws [of j "[CHR 0x0A]"] by (simp add: is_ws_def)
  ultimately show ?thesis using is_ok_Marshal [of m] assms by auto
qed

text \<open>
  C15: a raw index cannot be marshalled: \<open>MarshalJSON\<close> of \<open>InlinedIndex\<close> calls itself through
  \<open>json.Marshal\<close> and never returns, for any content.
\<close>

theorem InlinedIndex_never_marshalled: "InlinedIndex_MarshalJSON index = None"
proof -
  have "False" if "InlinedIndex_MarshalJSON index = Some r" for r
    using that
    by (rule InlinedIndex_MarshalJSON.raw_induct [where P = "\<lambda>_ _. False", rotated])
      (auto simp: bind_eq_Some_conv)
  then show ?thesis by (cases "InlinedIndex_MarshalJSON index") auto
qed

lemma GetUniqueName_named:
  assumes "docker_Parse (catalog_text o') = Inr r" "dr_Name r \<noteq> []"
    "op_TargetName o' \<noteq> [] \<or> op_TargetTag o' \<noteq> []"
  shows "GetUniqueName o' = Ok (
      if op_TargetTag o' = []
      then before_name r @ spelled (op_TargetName o') (if dr_ID r = [] then dr_Tag r else []) (dr_ID r)
      else before_name r @ (if op_TargetName o' = [] then dr_Name r else op_TargetName o') @ '':'' @ op_TargetTag o')"
proof -
  have "before_name (r\<lparr>dr_Name := n\<rparr>) = before_name r" "before_name (r\<lparr>dr_ID := i, dr_Tag := t\<rparr>) = before_name r"
    "before_name (r\<lparr>dr_Name := n, dr_ID := i, dr_Tag := t\<rparr>) = before_name r" for n i t
    by (simp_all add: before_name_def)
  then show ?thesis using assms docker_Parse_ID [OF assms(1)]
    by (auto simp: GetUniqueName_def Let_def Exact_before_name spelled_def)
qed

lemma GetUniqueName_error:
  assumes "docker_Parse (catalog_text o') = Inl e" "op_TargetName o' \<noteq> [] \<or> op_TargetTag o' \<noteq> []"
  shows "GetUniqueName o' = Err (ErrorString (''error parsing source catalog : '' @ err_text e))"
proof -
  have "docker_String zero_DockerImageReference = []"
    by (simp add: docker_String_def zero_DockerImageReference_def Exact_def NameString_def IsRegistryDockerHub_def)
  then show ?thesis
    using assms by (auto simp: GetUniqueName_def Let_def Errorf_def fmt_verb_def fmt_extra_def)
qed

lemma GetUniqueName_registry_only:
  assumes "docker_Parse (catalog_text o') = Inr r" "dr_Name r = []"
    "op_TargetName o' \<noteq> [] \<or> op_TargetTag o' \<noteq> []"
  shows "GetUniqueName o' = Ok (if op_TargetName o' = [] then [] else
    catalog_text o' @ ''/'' @ spelled (op_TargetName o') (op_TargetTag o') (if op_TargetTag o' = [] then dr_ID r else []))"
  using docker_Parse_text [OF assms(1)] docker_Parse_ID [OF assms(1)] assms
  by (auto simp: GetUniqueName_def Let_def Exact_def NameString_def spelled_def ParseDigest_def split: option.splits)

text \<open>
  C16: the name a catalog is tracked under. Without a target it is the catalog itself, without
  the \<open>oci:\<close> transport and up to three slashes after it. With one, the catalog is what stands before
  its name, a name, a tag and a digest; a target name replaces the name, a target tag replaces the
  tag and drops the digest, and what stands before the name is kept; with a target name only, the
  digest is kept, or else the tag. A catalog that is taken for a registry has no name: with a target
  tag alone the result is empty. A catalog that does not parse gives an error that does not name it.
\<close>

theorem GetUniqueName_cases:
  "if op_TargetName o' = [] \<and> op_TargetTag o' = [] then GetUniqueName o' = Ok (catalog_text o')
   else case docker_Parse (catalog_text o') of
     Inl e \<Rightarrow> GetUniqueName o' = Err (ErrorString (''error parsing source catalog : '' @ err_text e))
   | Inr r \<Rightarrow>
       if dr_Name r = []
       then GetUniqueName o' = Ok (if op_TargetName o' = [] then [] else catalog_text o' @ ''/'' @
         spelled (op_TargetName o') (op_TargetTag o') (if op_TargetTag o' = [] then dr_ID r else []))
       else \<exists>before. catalog_text o' = before @ spelled (dr_Name r) (dr_Tag r) (dr_ID r) \<and>
         GetUniqueName o' = Ok (
           if op_TargetTag o' = []
           then before @ spelled (op_TargetName o') (if dr_ID r = [] then dr_Tag r else []) (dr_ID r)
           else before @ (if op_TargetName o' = [] then dr_Name r else op_TargetName o') @ '':'' @ op_TargetTag o')"
proof (cases "op_TargetName o' = [] \<and> op_TargetTag o' = []")
  case True
  then show ?thesis by (simp add: GetUniqueName_def Let_def)
next
  case target: False
  then have t: "op_TargetName o' \<noteq> [] \<or> op_TargetTag o' \<noteq> []" by simp
  show ?thesis
  proof (cases "docker_Parse (catalog_text o')")
    case (Inl e)
    then show ?thesis by (simp only: GetUniqueName_error [OF Inl t] target if_False sum.case)
  next
    case (Inr r)
    show ?thesis
    proof (cases "dr_Name r = []")
      case True
      then show ?thesis
        by (simp only: GetUniqueName_registry_only [OF Inr True t] target Inr if_True if_False sum.case simp_thms)
    next
      case False
      have "catalog_text o' = before_name r @ spelled (dr_Name r) (dr_Tag r) (dr_ID r)"
        using docker_Parse_text [OF Inr] False by simp
      with GetUniqueName_named [OF Inr False t] show ?thesis unfolding Inr
        by (simp only: target False if_False sum.case) blast
    qed
  qed
qed

theorem GetUniqueName_cases_witness:
  "\<exists>o'. catalog_text o' = ''q.io/n/i:v0'' \<and> op_TargetTag o' = ''v1'' \<and> GetUniqueName o' = Ok ''q.io/n/i:v1''"
proof -
  define o' :: Operator where "o' =
    \<lparr>op_IncludeConfig = \<lparr>in_Packages = None\<rparr>, op_Catalog = ''q.io/n/i:v0'', op_TargetName = [],
     op_TargetTag = ''v1'', op_Full = False, op_SkipDependencies = False, op_OriginalRef = []\<rparr>"
  have o': "catalog_text o' = ''q.io/n/i:v0''" "op_TargetTag o' = ''v1''" "op_TargetName o' = []"
    by (simp_all add: o'_def catalog_text_def IsFBCOCI_def HasPrefix_def)
  have "docker_Parse ''q.io/n/i:v0'' =
      Inr \<lparr>dr_Registry = ''q.io'', dr_Namespace = ''n'', dr_Name = ''i'', dr_Tag = ''v0'', dr_ID = []\<rparr>"
    by code_simp
  with GetUniqueName_cases [of o'] o' have "GetUniqueName o' = Ok ''q.io/n/i:v1''"
    by (auto simp: spelled_def)
  with o' show ?thesis by blast
qed

end
