(* ===== verification/MetadataDecode.thy ===== *)
theory MetadataDecode
  imports Metadata GoStrconv
begin

text \<open>
  Reading metadata back: the decoders of the types of pkg/api/v1alpha2 that metadata contains, as
  \<open>json.Unmarshal\<close> derives them from the struct tags, the \<open>UnmarshalJSON\<close> methods of the enumerations
  and \<open>uuid.UUID.UnmarshalText\<close>. The locale \<open>codec\<close> is the law of an encoder and a decoder that fit;
  lists and optional members are covered in it once, and every type is an interpretation.
\<close>

section \<open>Enumerations, slices that can be nil, promoted fields\<close>

text \<open>The method gets \<open>null\<close> too, and reads it as the empty string; its error ends the decoding.\<close>

definition dec_enum :: "(string \<rightharpoonup> int) \<Rightarrow> int dec" where
  "dec_enum table j old =
     (case j of
        JStr s \<Rightarrow> (map_get table 0 s, [])
      | JNull \<Rightarrow> (map_get table 0 [], [])
      | _ \<Rightarrow> (old, [method_error (JSONTypeError (json_kind j) ''string'')]))"

definition dec_ImageType :: "ImageType dec" where
  "dec_ImageType = dec_enum imageStringsType"

definition dec_PlatformType :: "PlatformType dec" where
  "dec_PlatformType = dec_enum platformStringsType"

definition dec_nilable :: "string \<Rightarrow> 'a dec \<Rightarrow> 'a \<Rightarrow> 'a list option dec" where
  "dec_nilable t d z j old =
     (case j of
        JArr vs \<Rightarrow> (let (as, es) = dec_elems d z vs in (Some as, es))
      | JNull \<Rightarrow> (None, [])
      | _ \<Rightarrow> type_error j t old)"

text \<open>A field of an embedded struct is a field of the struct around it.\<close>

definition promoted :: "('r \<Rightarrow> 's) \<Rightarrow> (('s \<Rightarrow> 's) \<Rightarrow> 'r \<Rightarrow> 'r) \<Rightarrow> 's field \<Rightarrow> 'r field" where
  "promoted get upd f = (fst f, \<lambda>j r. let (s, es) = snd f j (get r) in (upd (\<lambda>_. s) r, es))"

section \<open>\<open>uuid.ParseBytes\<close>\<close>

definition xvalue :: "char \<Rightarrow> nat option" where
  "xvalue c =
     (let n = code c in
      if 48 \<le> n \<and> n \<le> 57 then Some (n - 48)
      else if 97 \<le> n \<and> n \<le> 102 then Some (n - 87)
      else if 65 \<le> n \<and> n \<le> 70 then Some (n - 55) else None)"

definition xtob :: "char \<Rightarrow> char \<Rightarrow> nat option" where
  "xtob c d = (case (xvalue c, xvalue d) of (Some a, Some b) \<Rightarrow> Some (16 * a + b) | _ \<Rightarrow> None)"

definition uuid_at :: "string \<Rightarrow> nat list \<Rightarrow> nat list res" where
  "uuid_at b xs =
     (case those (map (\<lambda>x. xtob (b ! x) (b ! Suc x)) xs) of
        Some u \<Rightarrow> Ok u | None \<Rightarrow> Err (ErrorString ''invalid UUID format''))"

definition uuid_dashed :: "string \<Rightarrow> nat list res" where
  "uuid_dashed b =
     (if b ! 8 \<noteq> CHR ''-'' \<or> b ! 13 \<noteq> CHR ''-'' \<or> b ! 18 \<noteq> CHR ''-'' \<or> b ! 23 \<noteq> CHR ''-''
      then Err (ErrorString ''invalid UUID format'')
      else uuid_at b [0, 2, 4, 6, 9, 11, 14, 16, 19, 21, 24, 26, 28, 30, 32, 34])"

definition ParseBytes :: "string \<Rightarrow> nat list res" where
  "ParseBytes b =
     (if length b = 36 then uuid_dashed b
      else if length b = 36 + 9 then
        (if fold_case (take 9 b) \<noteq> ''urn:uuid:''
         then Err (Errorf ''invalid urn prefix: %q'' [FStr (take 9 b)]) else uuid_dashed (drop 9 b))
      else if length b = 36 + 2 then uuid_dashed (drop 1 b)
      else if length b = 32 then uuid_at b [0, 2, 4, 6, 8, 10, 12, 14, 16, 18, 20, 22, 24, 26, 28, 30]
      else Err (ErrorString (''invalid UUID length: '' @ show_int (int (length b)))))"

fun dec_UUID :: "nat list dec" where
  "dec_UUID (JStr s) old =
     (case ParseBytes s of Ok u \<Rightarrow> (u, []) | Err e \<Rightarrow> (old, [method_error e]) | Panic x \<Rightarrow> (old, []))"
| "dec_UUID JNull old = (old, [])"
| "dec_UUID j old = type_error j ''uuid.UUID'' old"

section \<open>The types\<close>

definition zero_IncludeBundle :: IncludeBundle where
  "zero_IncludeBundle =
     \<lparr>ib_MinVersion = [], ib_MaxVersion = [], ib_MinBundle = []\<rparr>"

definition fields_IncludeBundle :: "IncludeBundle field list" where
  "fields_IncludeBundle =
    [fld ''minVersion'' dec_string ib_MinVersion ib_MinVersion_update,
     fld ''maxVersion'' dec_string ib_MaxVersion ib_MaxVersion_update,
     fld ''minBundle'' dec_string ib_MinBundle ib_MinBundle_update]"

definition zero_IncludeChannel :: IncludeChannel where
  "zero_IncludeChannel =
     \<lparr>ic_Name = [], ic_IncludeBundle = zero_IncludeBundle\<rparr>"

definition fields_IncludeChannel :: "IncludeChannel field list" where
  "fields_IncludeChannel =
    [fld ''name'' dec_string ic_Name ic_Name_update] @
    map (promoted ic_IncludeBundle ic_IncludeBundle_update) fields_IncludeBundle"

definition dec_IncludeChannel :: "IncludeChannel dec" where
  "dec_IncludeChannel = dec_struct ''v1alpha2.IncludeChannel'' fields_IncludeChannel"

definition zero_IncludePackage :: IncludePackage where
  "zero_IncludePackage =
     \<lparr>ip_Name = [], ip_Channels = [], ip_IncludeBundle = zero_IncludeBundle\<rparr>"

definition fields_IncludePackage :: "IncludePackage field list" where
  "fields_IncludePackage =
    [fld ''name'' dec_string ip_Name ip_Name_update,
     fld ''channels'' (dec_slice ''[]v1alpha2.IncludeChannel'' dec_IncludeChannel zero_IncludeChannel) ip_Channels ip_Channels_update] @
    map (promoted ip_IncludeBundle ip_IncludeBundle_update) fields_IncludeBundle"

definition dec_IncludePackage :: "IncludePackage dec" where
  "dec_IncludePackage = dec_struct ''v1alpha2.IncludePackage'' fields_IncludePackage"

definition zero_IncludeConfig :: IncludeConfig where
  "zero_IncludeConfig =
     \<lparr>in_Packages = None\<rparr>"

definition fields_IncludeConfig :: "IncludeConfig field list" where
  "fields_IncludeConfig =
    [fld ''packages'' (dec_nilable ''[]v1alpha2.IncludePackage'' dec_IncludePackage zero_IncludePackage) in_Packages in_Packages_update]"

definition zero_ReleaseChannel :: ReleaseChannel where
  "zero_ReleaseChannel =
     \<lparr>rl_Name = [], rl_Type = 0, rl_MinVersion = [], rl_MaxVersion = [],
      rl_ShortestPath = False, rl_Full = False\<rparr>"

definition fields_ReleaseChannel :: "ReleaseChannel field list" where
  "fields_ReleaseChannel =
    [fld ''name'' dec_string rl_Name rl_Name_update,
     fld ''type'' dec_PlatformType rl_Type rl_Type_update,
     fld ''minVersion'' dec_string rl_MinVersion rl_MinVersion_update,
     fld ''maxVersion'' dec_string rl_MaxVersion rl_MaxVersion_update,
     fld ''shortestPath'' dec_bool rl_ShortestPath rl_ShortestPath_update,
     fld ''full'' dec_bool rl_Full rl_Full_update]"

definition dec_ReleaseChannel :: "ReleaseChannel dec" where
  "dec_ReleaseChannel = dec_struct ''v1alpha2.ReleaseChannel'' fields_ReleaseChannel"

definition zero_Platform :: Platform where
  "zero_Platform =
     \<lparr>pf_Graph = False, pf_Channels = [], pf_Architectures = []\<rparr>"

definition fields_Platform :: "Platform field list" where
  "fields_Platform =
    [fld ''graph'' dec_bool pf_Graph pf_Graph_update,
     fld ''channels'' (dec_slice ''[]v1alpha2.ReleaseChannel'' dec_ReleaseChannel zero_ReleaseChannel) pf_Channels pf_Channels_update,
     fld ''architectures'' (dec_slice ''[]string'' dec_string []) pf_Architectures pf_Architectures_update]"

definition dec_Platform :: "Platform dec" where
  "dec_Platform = dec_struct ''v1alpha2.Platform'' fields_Platform"

definition zero_Operator :: Operator where
  "zero_Operator =
     \<lparr>op_IncludeConfig = zero_IncludeConfig, op_Catalog = [], op_TargetName = [],
      op_TargetTag = [], op_Full = False, op_SkipDependencies = False,
      op_OriginalRef = []\<rparr>"

definition fields_Operator :: "Operator field list" where
  "fields_Operator =
    map (promoted op_IncludeConfig op_IncludeConfig_update) fields_IncludeConfig @
    [fld ''catalog'' dec_string op_Catalog op_Catalog_update,
     fld ''targetName'' dec_string op_TargetName op_TargetName_update,
     fld ''targetTag'' dec_string op_TargetTag op_TargetTag_update,
     fld ''full'' dec_bool op_Full op_Full_update,
     fld ''skipDependencies'' dec_bool op_SkipDependencies op_SkipDependencies_update,
     fld ''originalRef'' dec_string op_OriginalRef op_OriginalRef_update]"

definition dec_Operator :: "Operator dec" where
  "dec_Operator = dec_struct ''v1alpha2.Operator'' fields_Operator"

definition zero_Chart :: Chart where
  "zero_Chart =
     \<lparr>ch_Name = [], ch_Version = [], ch_Path = [], ch_ImagePaths = []\<rparr>"

definition fields_Chart :: "Chart field list" where
  "fields_Chart =
    [fld ''name'' dec_string ch_Name ch_Name_update,
     fld ''version'' dec_string ch_Version ch_Version_update,
     fld ''path'' dec_string ch_Path ch_Path_update,
     fld ''imagePaths'' (dec_slice ''[]string'' dec_string []) ch_ImagePaths ch_ImagePaths_update]"

definition dec_Chart :: "Chart dec" where
  "dec_Chart = dec_struct ''v1alpha2.Chart'' fields_Chart"

definition zero_Repository :: Repository where
  "zero_Repository =
     \<lparr>rp_URL = [], rp_Name = [], rp_Charts = None\<rparr>"

definition fields_Repository :: "Repository field list" where
  "fields_Repository =
    [fld ''url'' dec_string rp_URL rp_URL_update,
     fld ''name'' dec_string rp_Name rp_Name_update,
     fld ''charts'' (dec_nilable ''[]v1alpha2.Chart'' dec_Chart zero_Chart) rp_Charts rp_Charts_update]"

definition dec_Repository :: "Repository dec" where
  "dec_Repository = dec_struct ''v1alpha2.Repository'' fields_Repository"

definition zero_Helm :: Helm where
  "zero_Helm =
     \<lparr>hm_Repositories = [], hm_Local = []\<rparr>"

definition fields_Helm :: "Helm field list" where
  "fields_Helm =
    [fld ''repositories'' (dec_slice ''[]v1alpha2.Repository'' dec_Repository zero_Repository) hm_Repositories hm_Repositories_update,
     fld ''local'' (dec_slice ''[]v1alpha2.Chart'' dec_Chart zero_Chart) hm_Local hm_Local_update]"

definition dec_Helm :: "Helm dec" where
  "dec_Helm = dec_struct ''v1alpha2.Helm'' fields_Helm"

definition zero_Image :: Image where
  "zero_Image =
     \<lparr>im_Name = []\<rparr>"

definition fields_Image :: "Image field list" where
  "fields_Image =
    [fld ''name'' dec_string im_Name im_Name_update]"

definition dec_Image :: "Image dec" where
  "dec_Image = dec_struct ''v1alpha2.Image'' fields_Image"

definition zero_SampleImages :: SampleImages where
  "zero_SampleImages =
     \<lparr>sm_Image = zero_Image\<rparr>"

definition fields_SampleImages :: "SampleImages field list" where
  "fields_SampleImages =
    map (promoted sm_Image sm_Image_update) fields_Image"

definition dec_SampleImages :: "SampleImages dec" where
  "dec_SampleImages = dec_struct ''v1alpha2.SampleImages'' fields_SampleImages"

definition fields_V2Mirror :: "V2Mirror field list" where
  "fields_V2Mirror =
    [fld ''platform'' dec_Platform mi_Platform mi_Platform_update,
     fld ''operators'' (dec_slice ''[]v1alpha2.Operator'' dec_Operator zero_Operator) mi_Operators mi_Operators_update,
     fld ''additionalImages'' (dec_slice ''[]v1alpha2.Image'' dec_Image zero_Image) mi_AdditionalImages mi_AdditionalImages_update,
     fld ''helm'' dec_Helm mi_Helm mi_Helm_update,
     fld ''blockedImages'' (dec_slice ''[]v1alpha2.Image'' dec_Image zero_Image) mi_BlockedImages mi_BlockedImages_update,
     fld ''samples'' (dec_slice ''[]v1alpha2.SampleImages'' dec_SampleImages zero_SampleImages) mi_Samples mi_Samples_update]"

definition dec_V2Mirror :: "V2Mirror dec" where
  "dec_V2Mirror = dec_struct ''v1alpha2.Mirror'' fields_V2Mirror"

definition zero_Association :: Association where
  "zero_Association =
     \<lparr>as_Name = [], as_Path = [], as_ID = [], as_TagSymlink = [], as_Type = 0,
      as_ManifestDigests = [], as_LayerDigests = []\<rparr>"

definition fields_Association :: "Association field list" where
  "fields_Association =
    [fld ''name'' dec_string as_Name as_Name_update,
     fld ''path'' dec_string as_Path as_Path_update,
     fld ''id'' dec_string as_ID as_ID_update,
     fld ''tagSymlink'' dec_string as_TagSymlink as_TagSymlink_update,
     fld ''type'' dec_ImageType as_Type as_Type_update,
     fld ''manifestDigests'' (dec_slice ''[]string'' dec_string []) as_ManifestDigests as_ManifestDigests_update,
     fld ''layerDigests'' (dec_slice ''[]string'' dec_string []) as_LayerDigests as_LayerDigests_update]"

definition dec_Association :: "Association dec" where
  "dec_Association = dec_struct ''v1alpha2.Association'' fields_Association"

definition zero_OperatorMetadata :: OperatorMetadata where
  "zero_OperatorMetadata =
     \<lparr>om2_Catalog = [], om2_ImagePin = [], om2_IncludeConfig = zero_IncludeConfig\<rparr>"

definition fields_OperatorMetadata :: "OperatorMetadata field list" where
  "fields_OperatorMetadata =
    [fld ''catalog'' dec_string om2_Catalog om2_Catalog_update,
     fld ''imagePin'' dec_string om2_ImagePin om2_ImagePin_update] @
    map (promoted om2_IncludeConfig om2_IncludeConfig_update) fields_IncludeConfig"

definition dec_OperatorMetadata :: "OperatorMetadata dec" where
  "dec_OperatorMetadata = dec_struct ''v1alpha2.OperatorMetadata'' fields_OperatorMetadata"

definition zero_PlatformMetadata :: PlatformMetadata where
  "zero_PlatformMetadata =
     \<lparr>pm_ReleaseChannel = [], pm_MinVersion = []\<rparr>"

definition fields_PlatformMetadata :: "PlatformMetadata field list" where
  "fields_PlatformMetadata =
    [fld ''channel'' dec_string pm_ReleaseChannel pm_ReleaseChannel_update,
     fld ''minVersion'' dec_string pm_MinVersion pm_MinVersion_update]"

definition dec_PlatformMetadata :: "PlatformMetadata dec" where
  "dec_PlatformMetadata = dec_struct ''v1alpha2.PlatformMetadata'' fields_PlatformMetadata"

definition zero_PastMirror :: PastMirror where
  "zero_PastMirror =
     \<lparr>pa_Timestamp = 0, pa_Sequence = 0, pa_Mirror = zero_V2Mirror, pa_Operators = [],
      pa_Platforms = [], pa_Associations = []\<rparr>"

definition fields_PastMirror :: "PastMirror field list" where
  "fields_PastMirror =
    [fld ''timestamp'' dec_int pa_Timestamp pa_Timestamp_update,
     fld ''sequence'' dec_int pa_Sequence pa_Sequence_update,
     fld ''mirror'' dec_V2Mirror pa_Mirror pa_Mirror_update,
     fld ''operators'' (dec_slice ''[]v1alpha2.OperatorMetadata'' dec_OperatorMetadata zero_OperatorMetadata) pa_Operators pa_Operators_update,
     fld ''platforms'' (dec_slice ''[]v1alpha2.PlatformMetadata'' dec_PlatformMetadata zero_PlatformMetadata) pa_Platforms pa_Platforms_update,
     fld ''associations'' (dec_slice ''[]v1alpha2.Association'' dec_Association zero_Association) pa_Associations pa_Associations_update]"

definition dec_PastMirror :: "PastMirror dec" where
  "dec_PastMirror = dec_struct ''v1alpha2.PastMirror'' fields_PastMirror"

definition zero_TypeMeta :: TypeMeta where
  "zero_TypeMeta =
     \<lparr>tm_Kind = [], tm_APIVersion = []\<rparr>"

definition fields_TypeMeta :: "TypeMeta field list" where
  "fields_TypeMeta =
    [fld ''kind'' dec_string tm_Kind tm_Kind_update,
     fld ''apiVersion'' dec_string tm_APIVersion tm_APIVersion_update]"

definition fields_MetadataSpec :: "MetadataSpec field list" where
  "fields_MetadataSpec =
    [fld ''uid'' dec_UUID ms_Uid ms_Uid_update,
     fld ''singleUse'' dec_bool ms_SingleUse ms_SingleUse_update,
     fld ''pastMirror'' dec_PastMirror ms_PastMirror ms_PastMirror_update,
     fld ''pastAssociations'' (dec_slice ''[]v1alpha2.Association'' dec_Association zero_Association) ms_PastAssociations ms_PastAssociations_update]"

definition zero_Metadata :: Metadata where
  "zero_Metadata =
     \<lparr>md_TypeMeta = zero_TypeMeta, md_Spec = zero_MetadataSpec\<rparr>"

definition fields_Metadata :: "Metadata field list" where
  "fields_Metadata =
    map (promoted md_TypeMeta md_TypeMeta_update) fields_TypeMeta @
    map (promoted md_Spec md_Spec_update) fields_MetadataSpec"

definition dec_Metadata :: "Metadata dec" where
  "dec_Metadata = dec_struct ''v1alpha2.Metadata'' fields_Metadata"

section \<open>An encoder and a decoder that fit\<close>

definition dec_entry :: "'r field list \<Rightarrow> string \<Rightarrow> json \<Rightarrow> 'r \<Rightarrow> 'r \<times> go_error list" where
  "dec_entry fds k j r = (case find_field fds k of None \<Rightarrow> (r, []) | Some f \<Rightarrow> snd f j r)"

lemma dec_members_entry:
  "dec_members fds ((k, v) # ms) r =
     (let (r1, es1) = dec_entry fds k v r; (r2, es2) = dec_members fds ms r1 in (r2, es1 @ es2))"
  by (simp add: dec_entry_def Let_def split: option.split prod.split)

text \<open>The members that are written take the fields from \<open>r\<close> to \<open>r'\<close>.\<close>

definition reads :: "'r field list \<Rightarrow> members list \<Rightarrow> 'r \<Rightarrow> 'r \<Rightarrow> bool" where
  "reads fds ms r r' \<longleftrightarrow> (\<forall>pss. res_list ms = Ok pss \<longrightarrow> dec_members fds (concat pss) r = (r', []))"

lemma reads_end: "r = r' \<Longrightarrow> reads fds [] r r'"
  by (simp add: reads_def)

lemma reads_member:
  assumes "\<And>j. e = Ok j \<Longrightarrow> dec_entry fds k j r = (r1, [])" "reads fds ms r1 r'"
  shows "reads fds (member k e # ms) r r'"
  using assms by (auto simp: reads_def member_def res_bind_def res_map_Ok dec_members_entry
      split: res.splits simp del: dec_members.simps)

lemma reads_omitempty:
  assumes "\<And>j. e = Ok j \<Longrightarrow> dec_entry fds k j r = (r1, [])" "b \<Longrightarrow> r1 = r" "reads fds ms r1 r'"
  shows "reads fds ((if b then Ok [] else member k e) # ms) r r'"
  using reads_member [OF assms(1,3)] assms(2,3) by (auto simp: reads_def res_map_Ok)

lemma back_object: "enc_object ms = Ok j \<Longrightarrow> reads fds ms z a \<Longrightarrow> dec_struct t fds j z = (a, [])"
  by (auto simp: enc_object_def reads_def res_map_Ok dec_struct_def)

lemma opt_bool_omitempty: "opt_bool k b = (if \<not> b then Ok [] else member k (Ok (JBool b)))"
  by (simp add: opt_bool_def mem_bool_def)

lemmas member_forms = mem_str_def mem_bool_def mem_int_def opt_str_def opt_bool_omitempty opt_list_def
  mem_slice_def mem_IncludeBundle_def mem_IncludeConfig_def

lemmas entry_simps = dec_entry_def find_field_def fld_def promoted_def

locale codec =
  fixes enc :: "'a \<Rightarrow> json res" and dec :: "'a dec" and zero :: 'a
  assumes restores: "enc a = Ok j \<Longrightarrow> dec j zero = (a, [])"
begin

lemma back_elems: "list_all2 (\<lambda>a j. enc a = Ok j) as js \<Longrightarrow> dec_elems dec zero js = (as, [])"
  by (induction as js rule: list_all2_induct) (simp_all add: restores)

lemma back_slice: "enc_list enc as = Ok j \<Longrightarrow> dec_slice t dec zero j old = (as, [])"
  using back_elems by (auto simp: enc_list_Ok dec_slice_def)

lemma back_nilable:
  "(case p of None \<Rightarrow> Ok JNull | Some as \<Rightarrow> enc_list enc as) = Ok j \<Longrightarrow> dec_nilable t dec zero j old = (p, [])"
  using back_elems by (auto simp: enc_list_Ok dec_nilable_def split: option.splits)

end

interpretation string: codec enc_string dec_string "[]"
  by unfold_locales (auto simp: enc_string_def)

interpretation image_type: codec enc_ImageType dec_ImageType 0
  using imageTypes_cases
  by unfold_locales (auto simp: enc_ImageType_def enc_enum_def dec_ImageType_def dec_enum_def map_get_def
      ImageType_validate_def ImageType_String_def split: res.splits if_splits option.splits)

interpretation platform_type: codec enc_PlatformType dec_PlatformType 0
  using platformTypes_cases
  by unfold_locales (auto simp: enc_PlatformType_def enc_enum_def dec_PlatformType_def dec_enum_def
      map_get_def PlatformType_validate_def PlatformType_String_def split: res.splits if_splits option.splits)

interpretation include_channel: codec enc_IncludeChannel dec_IncludeChannel zero_IncludeChannel
  unfolding enc_IncludeChannel_def dec_IncludeChannel_def member_forms append.simps
  by (unfold_locales, erule back_object)
    (rule reads_member reads_omitempty reads_end | simp add: entry_simps zero_IncludeChannel_def zero_IncludeBundle_def fields_IncludeChannel_def fields_IncludeBundle_def)+

interpretation include_package: codec enc_IncludePackage dec_IncludePackage zero_IncludePackage
  unfolding enc_IncludePackage_def dec_IncludePackage_def member_forms append.simps
  by (unfold_locales, erule back_object)
    (rule reads_member reads_omitempty reads_end | simp add: entry_simps zero_IncludePackage_def zero_IncludeBundle_def fields_IncludePackage_def fields_IncludeBundle_def include_channel.back_slice)+

interpretation release_channel: codec enc_ReleaseChannel dec_ReleaseChannel zero_ReleaseChannel
  unfolding enc_ReleaseChannel_def dec_ReleaseChannel_def member_forms append.simps
  by (unfold_locales, erule back_object)
    (rule reads_member reads_omitempty reads_end | simp add: entry_simps zero_ReleaseChannel_def fields_ReleaseChannel_def platform_type.restores)+

interpretation platform: codec enc_Platform dec_Platform zero_Platform
  unfolding enc_Platform_def dec_Platform_def member_forms append.simps
  by (unfold_locales, erule back_object)
    (rule reads_member reads_omitempty reads_end | simp add: entry_simps zero_Platform_def fields_Platform_def release_channel.back_slice string.back_slice)+

interpretation operator: codec enc_Operator dec_Operator zero_Operator
  unfolding enc_Operator_def dec_Operator_def member_forms append.simps
  by (unfold_locales, erule back_object)
    (rule reads_member reads_omitempty reads_end | simp add: entry_simps zero_Operator_def zero_IncludeConfig_def fields_Operator_def fields_IncludeConfig_def include_package.back_nilable)+

interpretation chart: codec enc_Chart dec_Chart zero_Chart
  unfolding enc_Chart_def dec_Chart_def member_forms append.simps
  by (unfold_locales, erule back_object)
    (rule reads_member reads_omitempty reads_end | simp add: entry_simps zero_Chart_def fields_Chart_def string.back_slice)+

interpretation repository: codec enc_Repository dec_Repository zero_Repository
  unfolding enc_Repository_def dec_Repository_def member_forms append.simps
  by (unfold_locales, erule back_object)
    (rule reads_member reads_omitempty reads_end | simp add: entry_simps zero_Repository_def fields_Repository_def chart.back_nilable)+

interpretation helm: codec enc_Helm dec_Helm zero_Helm
  unfolding enc_Helm_def dec_Helm_def member_forms append.simps
  by (unfold_locales, erule back_object)
    (rule reads_member reads_omitempty reads_end | simp add: entry_simps zero_Helm_def fields_Helm_def repository.back_slice chart.back_slice)+

interpretation image_name: codec enc_Image dec_Image zero_Image
  unfolding enc_Image_def dec_Image_def member_forms append.simps
  by (unfold_locales, erule back_object)
    (rule reads_member reads_omitempty reads_end | simp add: entry_simps zero_Image_def fields_Image_def)+

interpretation sample: codec enc_SampleImages dec_SampleImages zero_SampleImages
  unfolding enc_SampleImages_def dec_SampleImages_def member_forms append.simps
  by (unfold_locales, erule back_object)
    (rule reads_member reads_omitempty reads_end | simp add: entry_simps zero_SampleImages_def zero_Image_def fields_SampleImages_def fields_Image_def)+

interpretation association: codec enc_Association dec_Association zero_Association
  unfolding enc_Association_def dec_Association_def member_forms append.simps
  by (unfold_locales, erule back_object)
    (rule reads_member reads_omitempty reads_end | simp add: entry_simps zero_Association_def fields_Association_def image_type.restores string.back_slice)+

interpretation operator_metadata: codec enc_OperatorMetadata dec_OperatorMetadata zero_OperatorMetadata
  unfolding enc_OperatorMetadata_def dec_OperatorMetadata_def member_forms append.simps
  by (unfold_locales, erule back_object)
    (rule reads_member reads_omitempty reads_end | simp add: entry_simps zero_OperatorMetadata_def zero_IncludeConfig_def fields_OperatorMetadata_def fields_IncludeConfig_def include_package.back_nilable)+

interpretation platform_metadata: codec enc_PlatformMetadata dec_PlatformMetadata zero_PlatformMetadata
  unfolding enc_PlatformMetadata_def dec_PlatformMetadata_def member_forms append.simps
  by (unfold_locales, erule back_object)
    (rule reads_member reads_omitempty reads_end | simp add: entry_simps zero_PlatformMetadata_def fields_PlatformMetadata_def)+

lemma zero_V2Mirror_parts:
  "zero_V2Mirror = \<lparr>mi_Platform = zero_Platform, mi_Operators = [], mi_AdditionalImages = [],
     mi_Helm = zero_Helm, mi_BlockedImages = [], mi_Samples = []\<rparr>"
  by (simp add: zero_V2Mirror_def zero_Platform_def zero_Helm_def)

interpretation v2mirror: codec enc_V2Mirror dec_V2Mirror zero_V2Mirror
  unfolding enc_V2Mirror_def dec_V2Mirror_def member_forms append.simps
  by (unfold_locales, erule back_object)
    (rule reads_member reads_omitempty reads_end | simp add: entry_simps zero_V2Mirror_parts fields_V2Mirror_def platform.restores operator.back_slice image_name.back_slice helm.restores sample.back_slice)+

section \<open>Numbers and identifiers\<close>

lemma digits_value_snoc: "digits_value (ds @ [c]) = 10 * digits_value ds + (int (code c) - 48)"
  by (simp add: digits_value_def)

lemma show_nat_value:
  "digits_value (show_nat n) = int n \<and> list_all is_digit (show_nat n) \<and> show_nat n \<noteq> [] \<and>
   hd (show_nat n) \<noteq> CHR ''-''"
proof (induction n rule: show_nat.induct)
  case (1 n)
  have digit: "is_digit (char_of (48 + d))" "int (code (char_of (48 + d))) = 48 + int d"
    "char_of (48 + d) \<noteq> CHR ''-''" if "d < 10" for d :: nat
    using that digit_signs(1) [of d] by (auto simp: is_digit_def code_char_of)
  show ?case
  proof (cases "n < 10")
    case True
    then show ?thesis using digit [of n] by (subst (1 2 3 4) show_nat.simps) (simp add: digits_value_def)
  next
    case False
    have split: "show_nat n = show_nat (n div 10) @ [char_of (48 + n mod 10)]"
      using False by (subst show_nat.simps) simp
    have "int n = 10 * int (n div 10) + int (n mod 10)" by presburger
    then show ?thesis
      using 1 [OF False] digit [of "n mod 10"] unfolding split digits_value_snoc by (simp add: hd_append)
  qed
qed

lemma dec_int_show: "- (2 ^ 63) \<le> n \<Longrightarrow> n < 2 ^ 63 \<Longrightarrow> dec_int (JNum (show_int n)) old = (n, [])"
proof -
  assume n: "- (2 ^ 63) \<le> n" "n < 2 ^ 63"
  note v = show_nat_value [of "nat \<bar>n\<bar>"]
  have plus: "drop_sign (show_nat m) = show_nat m" for m
    using show_nat_value [of m] by (cases "show_nat m") (auto simp: drop_sign_def)
  have "parse_int64 (show_int n) = Some n"
    using n v plus [of "nat n"] by (cases "n < 0") (auto simp: parse_int64_def show_int_def drop_sign_def Let_def)
  then show ?thesis by simp
qed

lemma xvalue_digit: "n < 16 \<Longrightarrow> xvalue (hex_digit n) = Some n"
  by (simp add: xvalue_def hex_digit_code Let_def)

lemma xtob_digits: "n < 256 \<Longrightarrow> xtob (hex_digit (n div 16 mod 16)) (hex_digit (n mod 16)) = Some n"
  by (simp add: xtob_def xvalue_digit)

definition uuid_ok :: "nat list \<Rightarrow> bool" where
  "uuid_ok u \<longleftrightarrow> length u = 16 \<and> list_all (\<lambda>n. n < 256) u"

lemma ParseBytes_text: "uuid_ok u \<Longrightarrow> ParseBytes (uuid_text u) = Ok u"
proof -
  assume u: "uuid_ok u"
  then obtain a b c d e f g h i j k l m n p q where us: "u = [a, b, c, d, e, f, g, h, i, j, k, l, m, n, p, q]"
    by (auto simp: uuid_ok_def length_Suc_conv numeral_eq_Suc)
  show ?thesis
    using u unfolding us by (simp add: uuid_ok_def uuid_text_def ParseBytes_def uuid_dashed_def uuid_at_def xtob_digits)
qed

section \<open>Metadata\<close>

lemma zero_MetadataSpec_parts:
  "zero_MetadataSpec = \<lparr>ms_Uid = replicate 16 0, ms_SingleUse = False, ms_PastMirror = zero_PastMirror,
     ms_PastAssociations = []\<rparr>"
  by (simp add: zero_MetadataSpec_def zero_PastMirror_def)

text \<open>What Go's types say of the values: 64-bit integers, and an identifier of 16 bytes.\<close>

definition machine_ok :: "MetadataSpec \<Rightarrow> bool" where
  "machine_ok s \<longleftrightarrow> uuid_ok (ms_Uid s) \<and>
     - (2 ^ 63) \<le> pa_Timestamp (ms_PastMirror s) \<and> pa_Timestamp (ms_PastMirror s) < 2 ^ 63 \<and>
     - (2 ^ 63) \<le> pa_Sequence (ms_PastMirror s) \<and> pa_Sequence (ms_PastMirror s) < 2 ^ 63"

lemma dec_PastMirror_restores:
  assumes "- (2 ^ 63) \<le> pa_Timestamp p" "pa_Timestamp p < 2 ^ 63"
    and "- (2 ^ 63) \<le> pa_Sequence p" "pa_Sequence p < 2 ^ 63"
    and "enc_PastMirror p = Ok j"
  shows "dec_PastMirror j zero_PastMirror = (p, [])"
  using assms(5) unfolding enc_PastMirror_def dec_PastMirror_def member_forms
  by (elim back_object)
    (rule reads_member reads_omitempty reads_end
      | simp add: entry_simps zero_PastMirror_def fields_PastMirror_def dec_int_show [OF assms(1,2)] dec_int_show [OF assms(3,4)]
          v2mirror.restores operator_metadata.back_slice platform_metadata.back_slice association.back_slice
          del: dec_int.simps)+

lemma dec_Metadata_restores:
  assumes "machine_ok (md_Spec m)" "enc_Metadata m = Ok j"
  shows "dec_Metadata j zero_Metadata = (m, [])"
proof -
  have uid: "dec_UUID (JStr (uuid_text (ms_Uid (md_Spec m)))) old = (ms_Uid (md_Spec m), [])" for old
    using assms(1) by (simp add: machine_ok_def ParseBytes_text)
  have past: "enc_PastMirror (ms_PastMirror (md_Spec m)) = Ok v \<Longrightarrow>
      dec_PastMirror v zero_PastMirror = (ms_PastMirror (md_Spec m), [])" for v
    using assms(1) dec_PastMirror_restores by (simp add: machine_ok_def)
  show ?thesis
    using assms(2) unfolding enc_Metadata_def dec_Metadata_def member_forms
    by (elim back_object)
      (rule reads_member reads_omitempty reads_end
        | simp add: entry_simps zero_Metadata_def zero_TypeMeta_def zero_MetadataSpec_parts fields_Metadata_def
            fields_TypeMeta_def fields_MetadataSpec_def uid past association.back_slice del: dec_UUID.simps)+
qed

text \<open>
  C14: metadata survives its JSON form. \<open>MarshalJSON\<close> succeeds exactly when every channel has a
  platform type and every association an image type, and sets kind and version of the object first;
  and what it writes, strings in UTF-8 given, is read back by \<open>json.Unmarshal\<close> as the same object: every
  field of every nested type, lists that are nil included.
\<close>

theorem Metadata_roundtrip:
  assumes "machine_ok (md_Spec m)" "Metadata_MarshalJSON m = (r, m1)"
  shows "(is_ok r \<longleftrightarrow> types_ok (md_Spec m)) \<and>
    md_TypeMeta m1 = md_TypeMeta NewMetadata \<and> md_Spec m1 = md_Spec m \<and>
    (\<forall>s j. r = Ok s \<and> enc_Metadata m1 = Ok j \<and> json_ok j \<longrightarrow>
       json_Unmarshal dec_Metadata s zero_Metadata = Ok m1)"
  using Metadata_written_parses [OF assms(2)] dec_Metadata_restores [of m1] assms(1)
  by (auto simp: json_Unmarshal_Ok)

theorem Metadata_roundtrip_witness:
  "let m = NewMetadata\<lparr>md_Spec := zero_MetadataSpec\<lparr>ms_SingleUse := True,
       ms_PastAssociations := [zero_Association\<lparr>as_Name := ''a'', as_Type := TypeGeneric\<rparr>]\<rparr>\<rparr>
   in \<exists>s. fst (Metadata_MarshalJSON m) = Ok s \<and> json_Unmarshal dec_Metadata s zero_Metadata = Ok m"
proof -
  let ?m = "NewMetadata\<lparr>md_Spec := zero_MetadataSpec\<lparr>ms_SingleUse := True,
       ms_PastAssociations := [zero_Association\<lparr>as_Name := ''a'', as_Type := TypeGeneric\<rparr>]\<rparr>\<rparr>"
  have ok: "machine_ok (md_Spec ?m)" "types_ok (md_Spec ?m)"
    by (simp_all add: machine_ok_def uuid_ok_def types_ok_def zero_MetadataSpec_parts zero_PastMirror_def
        zero_V2Mirror_def TypeGeneric_def list_all_iff)
  obtain r m1 where run: "Metadata_MarshalJSON ?m = (r, m1)" by fastforce
  note rt = Metadata_roundtrip [OF ok(1) run]
  then obtain s where s: "r = Ok s" using ok(2) by (auto simp: is_ok_iff)
  have m1: "m1 = ?m" using rt by (simp add: NewMetadata_def Metadata.equality)
  have "case enc_Metadata ?m of Ok j \<Rightarrow> json_ok j | _ \<Rightarrow> False" by code_simp
  then obtain j where "enc_Metadata m1 = Ok j" "json_ok j" unfolding m1 by (auto split: res.splits)
  then show ?thesis using rt s run m1 by (auto simp: Let_def)
qed

end
