(* ===== verification/Rerun.thy ===== *)
theory Rerun
  imports Running
begin

text \<open>
  What a run finds of the run before it: a successful operator run leaves the catalogs in the
  cache and has printed them, and with the catalogs in the cache a run calls no library.
\<close>

section \<open>The second run\<close>

text \<open>What is there stays there when a file is created.\<close>

lemma walk_set_file:
  assumes "entry w q \<noteq> Some Dir" "walk w cur cs = Inr r" "entry w cur = Some Dir"
  shows "walk (set_entry q (File s) w) cur cs = Inr r"
  using assms(2,3)
proof (induction cs arbitrary: cur)
  case (Cons c cs)
  let ?next = "if c = ''..'' then butlast cur else cur @ [c]"
  have cur: "entry (set_entry q (File s) w) cur = Some Dir"
    using Cons.prems(2) assms(1) by (auto simp: entry_set_entry)
  have step: "walk w ?next cs = Inr r" using Cons.prems by simp
  show ?case
  proof (cases cs)
    case Nil
    then show ?thesis using step cur by simp
  next
    case (Cons c' cs')
    then have "entry w ?next = Some Dir" using step by (auto split: option.splits node.splits)
    then have "walk (set_entry q (File s) w) ?next cs = Inr r" using Cons.IH step by blast
    then show ?thesis using cur by simp
  qed
qed simp

text \<open>The directory \<open>p\<close> names is there.\<close>

definition dir_there :: "string \<Rightarrow> world \<Rightarrow> bool" where
  "dir_there p w \<longleftrightarrow> (\<exists>q. locate w p = Inr q \<and> entry w q = Some Dir)"

lemma dir_there_start: "dir_there p w \<Longrightarrow> comps p \<noteq> [] \<Longrightarrow> entry w (start_dir w p) = Some Dir"
  by (cases "comps p") (auto simp: dir_there_def locate_def split: if_splits option.splits node.splits)

lemma dir_there_not_missing:
  assumes "dir_there p w" "\<And>q. faults w SysStat q \<noteq> Some ENOENT"
  shows "\<not> missing p w"
  using assms by (auto simp: dir_there_def missing_def os_Stat_def sys_at_def split: option.splits)

lemma dir_there_Create:
  assumes "dir_there p w" "os_Create f w = (r, w')"
  shows "dir_there p w'"
proof (cases r)
  case (Ok h)
  then obtain q where q: "w' = set_entry q (File []) w" "entry w q \<noteq> Some Dir"
    using os_Create_Ok assms(2) by blast
  obtain r where r: "locate w p = Inr r" "entry w r = Some Dir"
    using assms(1) by (auto simp: dir_there_def)
  then have "p \<noteq> []" by (auto simp: locate_def)
  then have "walk w (start_dir w p) (comps p) = Inr r" using r(1) by (simp add: locate_def)
  moreover have "entry w (start_dir w p) = Some Dir"
    using dir_there_start [OF assms(1)] r \<open>p \<noteq> []\<close> by (cases "comps p") (simp_all add: locate_def)
  ultimately have "walk w' (start_dir w p) (comps p) = Inr r"
    unfolding q(1) by (rule walk_set_file [OF q(2)])
  then have "locate w' p = Inr r" using \<open>p \<noteq> []\<close> by (simp add: locate_def q(1) start_dir_def split: if_splits)
  moreover have "entry w' r = Some Dir" using r(2) q by (auto simp: entry_set_entry)
  ultimately show ?thesis by (auto simp: dir_there_def)
next
  case (Err e)
  then have "w' = w" using assms(2) by (auto simp: os_Create_def split: sum.splits if_splits)
  then show ?thesis using assms(1) by simp
next
  case (Panic x)
  then show ?thesis using assms(2) os_Create_safe [of f] by (auto dest: no_panicD)
qed

lemma dir_there_same_files: "same_files w w' \<Longrightarrow> dir_there p w' = dir_there p w"
  by (simp add: dir_there_def locate_same_files same_files_entry)

lemma os_ReadDir_there: "os_ReadDir p w = Ok files \<Longrightarrow> dir_there p w"
  by (auto simp: os_ReadDir_def dir_there_def dest!: sys_at_Inr split: sum.splits option.splits node.splits)

lemma start_dir_append: "p \<noteq> [] \<Longrightarrow> start_dir w (p @ s) = start_dir w p"
  by (cases p) (simp_all add: start_dir_def HasPrefix_def)

lemma dir_there_parent:
  assumes "dir_there (p @ CHR ''/'' # s) w" "p \<noteq> []" "comps s = [c]"
  shows "dir_there p w"
proof -
  obtain q where "walk w (start_dir w p) (comps p @ [c]) = Inr q"
    using assms by (auto simp: dir_there_def locate_def comps_append_slash start_dir_append)
  then show ?thesis using assms(2)
    by (auto simp: dir_there_def locate_def walk_append split: sum.splits option.splits node.splits)
qed

lemma Collect_operator_lists:
  assumes "Collector_Collect (the_collector gz lib opts) w = (Ok (), w')"
    and "asks ''operator'' opts" "\<not> asks ''release'' opts"
  obtains opts1 v1 where "co_Global opts1 = co_Global opts"
    "list_operators (Manifest_New gz) opts1 (image_index_dir (gl_Reference (co_Global opts)))
      ''/configs'' v1 = (Ok (), w')"
proof -
  let ?o = "the_collector gz lib opts" and ?i = "image_index_dir (gl_Reference (co_Global opts))"
  let ?Q = "\<lambda>opts1. co_Global opts1 = co_Global opts"
  let ?c = "dir_path [gl_Dir (co_Global opts), operatorImageExtractDir, ?i]"
  obtain f v where "collect_with ?o (bufio_NewWriter f) v = (Ok (), w')"
    using assms(1) by (auto simp: Collect_run split: prod.splits res.splits)
  then obtain opts0 u where "collect_operator ?o (bufio_NewWriter f) ?i ''/configs'' v = (Ok opts0, u)"
    "(if asks ''release'' opts0 then collect_release ?o opts0 (bufio_NewWriter f) ?i else go_return ()) u =
      (Ok (), w')"
    using assms(2) unfolding collect_with_def Let_def asks_def the_collector_simps
    by (elim go_bind_Ok) simp
  moreover from this have "co_Global opts0 = co_Global opts"
    unfolding the_collector_def by (blast dest: imageindex.collect_operator_globals)
  ultimately have op: "collect_operator ?o (bufio_NewWriter f) ?i ''/configs'' v = (Ok opts0, w')"
    using assms(3) by (simp add: asks_def go_return_def)
  have "keeps_ens (\<lambda>_ _. True) ?Q (fetch_operator ?o (bufio_NewWriter f) ?i)"
    unfolding the_collector_def
    by (rule any.ens_fetch_operator) (auto simp: keeps_def dest: imageindex.globals)
  then have ens: "keeps_ens (\<lambda>_ _. True) ?Q
      (if_missing ?c (fetch_operator ?o (bufio_NewWriter f) ?i) (go_return opts))"
    by (intro any.ens_if_missing any.ens_return) simp_all
  obtain opts1 v1 where 1: "if_missing ?c (fetch_operator ?o (bufio_NewWriter f) ?i) (go_return opts) v
      = (Ok opts1, v1)"
    "list_operators (Manifest_New gz) opts1 ?i ''/configs'' v1 = (Ok (), w')"
    using op unfolding collect_operator_def Let_def go_seq_def
    by (elim go_bind_Ok) (auto simp: the_collector_def go_return_def)
  then show ?thesis using that keeps_ensD(2) [OF ens] by blast
qed

lemma listing_log_only: "keeps log_only (list_operators (Manifest_New gz) opts dir label)"
  by (rule log_only.keeps_list_operators) (intro oci_files.reads log_appends)+

lemma list_operators_reads:
  assumes "list_operators (Manifest_New gz) opts dir label w = (Ok (), w')"
  obtains files where
    "os_ReadDir (dir_path [gl_Dir (co_Global opts), operatorImageExtractDir, dir, label]) w = Ok files"
  using assms unfolding list_operators_def Let_def by (elim go_bind_Ok) (simp add: go_read_def)

lemma operator_configs_path:
  "dir_path [gl_Dir (co_Global opts), operatorImageExtractDir,
     image_index_dir (gl_Reference (co_Global opts)), label] = operator_extract_dir opts @ ''/'' @ label"
  by (simp add: dir_path_def operator_extract_dir_def copy_dir_def)

lemma Collect_operator_there:
  assumes "Collector_Collect (the_collector gz lib opts) w = (Ok (), w')"
    and "asks ''operator'' opts" "\<not> asks ''release'' opts" "gl_Dir (co_Global opts) \<noteq> []"
  shows "dir_there (operator_extract_dir opts) w'"
proof -
  let ?i = "image_index_dir (gl_Reference (co_Global opts))"
  obtain opts1 v1 where 1: "co_Global opts1 = co_Global opts"
    "list_operators (Manifest_New gz) opts1 ?i ''/configs'' v1 = (Ok (), w')"
    using Collect_operator_lists [OF assms(1-3)] .
  obtain files where "os_ReadDir (operator_extract_dir opts @ ''/'' @ ''/configs'') v1 = Ok files"
    using list_operators_reads [OF 1(2)] unfolding 1(1) operator_configs_path .
  then have "dir_there (operator_extract_dir opts @ CHR ''/'' # ''/configs'') v1"
    by (auto dest: os_ReadDir_there)
  moreover have "comps ''/configs'' = [''configs'']" by (simp add: comps_def)
  ultimately have "dir_there (operator_extract_dir opts) v1"
    using dir_there_parent [of "operator_extract_dir opts" "''/configs''" v1 "''configs''"] assms(4)
    by (simp add: operator_extract_dir_def copy_dir_def dir_path_def)
  moreover have "same_files v1 w'"
    using keeps_log_only(1) [OF listing_log_only] 1(2) by (rule keepsD)
  ultimately show ?thesis by (simp add: dir_there_same_files)
qed

lemma os_ReadDir_same_files: "same_files w w' \<Longrightarrow> os_ReadDir p w' = os_ReadDir p w"
  by (simp add: os_ReadDir_def sys_at_same_files same_files_entry split: sum.split option.split node.split)
    (simp add: same_files_def)

text \<open>What a collection that succeeds has printed last: the catalogs as they are in the cache.\<close>

lemma Collect_operator_report:
  assumes "Collector_Collect (the_collector gz lib opts) w = (Ok (), w')"
    and "asks ''operator'' opts" "\<not> asks ''release'' opts"
  shows "\<exists>files pre. os_ReadDir (operator_extract_dir opts @ ''//configs'') w' = Ok files \<and>
    stderr w' = pre @ concat (map (operator_report w' (operator_extract_dir opts @ ''//configs'')) files)"
proof -
  let ?i = "image_index_dir (gl_Reference (co_Global opts))"
  let ?d = "operator_extract_dir opts @ ''//configs''"
  obtain opts1 v1 where 1: "co_Global opts1 = co_Global opts"
    "list_operators (Manifest_New gz) opts1 ?i ''/configs'' v1 = (Ok (), w')"
    using Collect_operator_lists [OF assms(1-3)] .
  have path: "dir_path [gl_Dir (co_Global opts1), operatorImageExtractDir, ?i, ''/configs''] = ?d"
    unfolding 1(1) operator_configs_path by simp
  obtain files where files: "os_ReadDir ?d v1 = Ok files"
    using list_operators_reads [OF 1(2)] unfolding path .
  obtain ls where w': "w' = v1\<lparr>stderr := stderr v1 @ ls @ concat (map (operator_report v1 ?d) files)\<rparr>"
    using list_operators_run [of opts1 ?i "''/configs''" v1 files gz] 1(2) files unfolding path by auto
  then have same: "same_files v1 w'" "level w' = level v1" by (simp_all add: same_files_def)
  have "operator_report v1 ?d = operator_report w' ?d"
    by (rule ext) (simp add: operator_report_same_files [OF same])
  moreover have "stderr w' = (stderr v1 @ ls) @ concat (map (operator_report v1 ?d) files)"
    by (subst w') simp
  moreover have "os_ReadDir ?d w' = Ok files" using os_ReadDir_same_files [OF same(1)] files by simp
  ultimately show ?thesis by metis
qed

text \<open>What a run does when the cache is warm: no copy, nothing removed, the tree stays a tree.\<close>

definition warm :: "world \<Rightarrow> world \<Rightarrow> bool" where
  "warm w v \<longleftrightarrow> no_copies w v \<and> dirs_grow w v \<and> keeps_wf w v"

interpretation warm: world_relation warm
  by unfold_locales (auto simp: warm_def no_copies_def dirs_grow_def keeps_wf_def)

lemma keeps_warm: "keeps no_copies m \<Longrightarrow> keeps dirs_grow m \<Longrightarrow> keeps keeps_wf m \<Longrightarrow> keeps warm m"
  by (simp add: keeps_def warm_def)

lemma log_only_warm: "keeps log_only m \<Longrightarrow> keeps warm m"
  by (intro keeps_warm keeps_log_only)

lemma warm_collect:
  assumes "asks ''operator'' opts" "\<not> asks ''release'' opts"
    and "dir_there (operator_extract_dir opts) w" "\<And>q. faults w SysStat q \<noteq> Some ENOENT"
  shows "warm w (snd (Collector_Collect (the_collector gz lib opts) w))"
proof -
  let ?o = "the_collector gz lib opts" and ?i = "image_index_dir (gl_Reference (co_Global opts))"
  have listing: "keeps warm (list_operators (Manifest_New gz) opts ?i ''/configs'')"
    by (rule warm.keeps_list_operators) (intro log_only_warm oci_files.reads log_appends)+
  have quiet: "warm v (snd (collect_with ?o b v))" if "\<not> missing (operator_extract_dir opts) v" for b v
  proof -
    have "if_missing (operator_extract_dir opts) k (go_return opts) v = (Ok opts, v)" for k
      using that by (simp add: if_missing_def go_bind_def go_read_def go_return_def)
    then have "collect_with ?o b v = list_operators (Manifest_New gz) opts ?i ''/configs'' v"
      using assms(1,2)
      by (simp add: collect_with_def collect_operator_def Let_def the_collector_def asks_def
          operator_extract_dir_def copy_dir_def go_seq_def go_bind_def go_return_def
          split: prod.split res.split)
    then show ?thesis using listing by (simp add: keeps_def)
  qed
  obtain r w1 where create: "os_Create logsFile w = (r, w1)" by fastforce
  have there: "\<not> missing (operator_extract_dir opts) v" if "same_files w1 v" for v
  proof -
    have "dir_there (operator_extract_dir opts) v"
      using dir_there_Create [OF assms(3) create] dir_there_same_files [OF that] by simp
    moreover have "faults v = faults w"
      using keepsD [OF os_Create_dirs create] that by (simp add: dirs_grow_def same_files_def)
    ultimately show ?thesis using dir_there_not_missing assms(4) by simp
  qed
  have "keeps warm (os_Create logsFile)" by (intro keeps_warm keeps_intros)
  then have w1: "warm w w1" using create by (rule keepsD)
  show ?thesis
  proof (cases r)
    case (Ok f)
    then show ?thesis using create warm.trans [OF w1] quiet there [OF same_files.refl]
      by (simp add: Collect_run)
  next
    case (Err e)
    let ?v = "snd (log_Error errMsg [FErr e] w1)"
    have "same_files w1 ?v" by (simp add: log_Error_run)
    moreover have "keeps warm (log_Error errMsg [FErr e])" by (intro log_only_warm log_appends)
    then have "warm w1 ?v" by (simp add: keeps_def)
    ultimately show ?thesis
      using create warm.trans [OF warm.trans [OF w1]] quiet there [of ?v] Err by (simp add: Collect_run)
  qed (use create w1 in \<open>simp add: Collect_run\<close>)
qed

text \<open>A plain path to something that is there leads to it.\<close>

lemma walk_dirs:
  "''..'' \<notin> set cs \<Longrightarrow> (\<And>q. strict_prefix q (cur @ cs) \<Longrightarrow> entry w q = Some Dir) \<Longrightarrow>
     walk w cur cs = Inr (cur @ cs)"
proof (induction cs arbitrary: cur)
  case (Cons c cs)
  have "entry w cur = Some Dir" by (rule Cons.prems(2)) (simp add: strict_prefix_def)
  moreover have "walk w (cur @ [c]) cs = Inr ((cur @ [c]) @ cs)"
    using Cons.prems by (intro Cons.IH) simp_all
  ultimately show ?case using Cons.prems(1) by auto
qed simp

lemma locate_there:
  assumes "fs_wf w" "plain p" "p \<noteq> []" "entry w (place (cwd w) p) \<noteq> None"
  shows "locate w p = Inr (place (cwd w) p)"
  using assms fs_wf_prefix [OF assms(1,4)]
  by (simp add: locate_def plain_def place_def start_dir_def walk_dirs)

lemma dir_there_place:
  "dir_there p w \<Longrightarrow> plain p \<Longrightarrow> entry w (place (cwd w) p) = Some Dir"
  by (auto simp: dir_there_def dest: locate_plain)

text \<open>The extracted catalogs are beside what a run clears and makes before it collects.\<close>

lemma operator_cache_outside:
  "\<not> run_region d (place d (operator_extract_dir (set_target kind opts)))"
  using place_copy_dir [OF in_working_dir_target, of operatorImageExtractDir d kind opts]
  by (simp add: operatorImageExtractDir_def operator_extract_dir_def run_region_def)

lemma operator_extract_plain:
  assumes "plain (image_index_dir (gl_Reference (co_Global opts)))"
  shows "plain (operator_extract_dir (set_target kind opts))"
    "operator_extract_dir (set_target kind opts) \<noteq> []"
  using assms unfolding operator_extract_dir_def copy_dir_def plain_def comps_dir_path3
  by (simp_all add: workingDir_def operatorImageExtractDir_def comps_def dir_path_def)

text \<open>The catalogs of the reference are in the cache.\<close>

definition cached :: "CopyOptions \<Rightarrow> world \<Rightarrow> bool" where
  "cached opts w \<longleftrightarrow> fs_wf w \<and> (\<forall>q. faults w SysStat q \<noteq> Some ENOENT) \<and>
     entry w (place (cwd w) (operator_extract_dir opts)) = Some Dir"

definition stays_cached :: "CopyOptions \<Rightarrow> world \<Rightarrow> world \<Rightarrow> bool" where
  "stays_cached opts w v \<longleftrightarrow> (cached opts w \<longrightarrow> cached opts v \<and> net v = net w)"

interpretation stays_cached: world_relation "stays_cached opts" for opts
  by unfold_locales (auto simp: stays_cached_def)

lemma prelude_stays_cached:
  assumes "prelude w v"
  shows "stays_cached (set_target kind opts) w v"
  using assms operator_cache_outside [of "cwd w" kind opts]
  by (auto simp: stays_cached_def cached_def prelude_def changes_only_def keeps_wf_def no_copies_def)

lemma cached_dir_there:
  "cached opts w \<Longrightarrow> plain (operator_extract_dir opts) \<Longrightarrow> operator_extract_dir opts \<noteq> [] \<Longrightarrow>
     dir_there (operator_extract_dir opts) w"
  using locate_there [of w "operator_extract_dir opts"] by (auto simp: cached_def dir_there_def)

lemma command_stays_cached:
  assumes "accepted opts args" "hd args = ''operator''"
    and "plain (image_index_dir (gl_Reference (co_Global opts)))"
  shows "keeps (stays_cached (set_target (hd args) opts)) (command_run gz lib opts args)"
proof -
  let ?t = "set_target (hd args) opts" and ?ex = "completed gz lib opts (hd args)"
  have asks: "asks ''operator'' ?t" "\<not> asks ''release'' ?t"
    unfolding assms(2) by (simp_all add: asks_def)
  note there = operator_extract_plain [OF assms(3), of "hd args"]
  have collect: "keeps (stays_cached ?t) (Collector_Collect (the_collector gz lib ?t))"
  proof (rule keepsI)
    fix w
    let ?v = "snd (Collector_Collect (the_collector gz lib ?t) w)"
    have "cached ?t ?v \<and> net ?v = net w" if c: "cached ?t w"
    proof -
      have "warm w ?v"
        using warm_collect [OF asks cached_dir_there [OF c there]] c by (simp add: cached_def)
      then show ?thesis using c
        by (auto simp: cached_def warm_def dirs_grow_def keeps_wf_def no_copies_def)
    qed
    then show "stays_cached ?t w ?v" by (simp add: stays_cached_def)
  qed
  show ?thesis
  proof (rule stays_cached.keeps_command)
    show "keeps (stays_cached ?t) (Executor_Run ex)" if "ex = ?ex" for ex
      unfolding that
      by (rule keeps_run_prelude [OF stays_cached.world_relation_axioms prelude_stays_cached collect])
    show "stays_cached ?t w v" if "same_files w v" "no_copies w v" for w v
      using that same_files_entry [OF that(1)]
      by (simp add: stays_cached_def cached_def fs_wf_def same_files_def no_copies_def)
    show "args \<noteq> []" using assms(1) by (auto simp: accepted_def)
  qed
qed

lemma command_operator_cached:
  assumes "accepted opts args" "hd args = ''operator''" "trusted_lib lib" "fs_wf w"
    and "plain (image_index_dir (gl_Reference (co_Global opts)))"
    and "\<And>q. faults w SysStat q \<noteq> Some ENOENT"
    and "command_run gz lib opts args w = (Ok 0, w')"
  shows "cached (set_target (hd args) opts) w'"
proof -
  let ?t = "set_target (hd args) opts"
  obtain v where v: "prelude w v" "Collector_Collect (the_collector gz lib ?t) v = (Ok (), w')"
    using command_Ok [OF assms(1,7)] by blast
  have "asks ''operator'' ?t" "\<not> asks ''release'' ?t"
    unfolding assms(2) by (simp_all add: asks_def)
  then have "dir_there (operator_extract_dir ?t) w'"
    by (rule Collect_operator_there [OF v(2)]) (simp add: workingDir_def)
  then have "entry w' (place (cwd w') (operator_extract_dir ?t)) = Some Dir"
    by (rule dir_there_place) (rule operator_extract_plain [OF assms(5)])
  moreover have "fs_wf w'"
    using v(1) assms(4) keepsD [OF imageindex.collect_wf [OF trusted_writes [OF assms(3)]]] v(2)
    by (auto simp: prelude_def keeps_wf_def the_collector_def)
  moreover have "faults w' = faults w"
    using v(1) keepsD [OF imageindex.collect_steady [OF trusted_writes [OF assms(3)]]] v(2)
    by (auto simp: prelude_def changes_only_def steady_def the_collector_def)
  ultimately show ?thesis using assms(6) by (simp add: cached_def)
qed


end
