(* ===== verification/Quiet.thy ===== *)
theory Quiet
  imports GoFiles
begin

text \<open>
  What the operations of the \<open>os\<close> package do to the files when the operating system refuses
  nothing: for plain paths, each is a plain operation on the map from places to files and
  directories, or an error.
\<close>

definition calm :: "world \<Rightarrow> bool" where
  "calm w \<longleftrightarrow> fs_wf w \<and> (\<forall>op q. faults w op q = None) \<and> entry w (cwd w) = Some Dir"

lemma calm_faults [simp]: "calm w \<Longrightarrow> faults w op q = None"
  by (simp add: calm_def)

lemma calm_start: "calm w \<Longrightarrow> entry w (start_dir w p) = Some Dir"
  by (simp add: calm_def start_dir_def)

lemma place_start: "place (cwd w) p = start_dir w p @ comps p"
  by (simp add: place_def start_dir_def)

lemma calm_up: "calm w \<Longrightarrow> entry w q \<noteq> None \<Longrightarrow> prefix p q \<Longrightarrow> p \<noteq> q \<Longrightarrow> entry w p = Some Dir"
  using fs_wf_prefix [of w q p] by (simp add: calm_def strict_prefix_def)

section \<open>Finding a place\<close>

lemma walk_calm:
  assumes "fs_wf w" "''..'' \<notin> set cs" "entry w cur = Some Dir"
  shows "if entry w (butlast (cur @ cs)) = Some Dir then walk w cur cs = Inr (cur @ cs)
    else \<exists>e. walk w cur cs = Inl e"
  using assms(2,3)
proof (induction cs arbitrary: cur)
  case Nil
  then have "entry w (butlast cur) = Some Dir" using assms(1) by (simp add: fs_wf_def)
  then show ?case by simp
next
  case (Cons c cs)
  show ?case
  proof (cases "cs = []")
    case True
    then show ?thesis using Cons.prems by simp
  next
    case False
    have step: "walk w cur (c # cs) = walk w (cur @ [c]) cs" using Cons.prems by auto
    show ?thesis
    proof (cases "entry w (cur @ [c]) = Some Dir")
      case True
      then show ?thesis using Cons.IH [of "cur @ [c]"] Cons.prems(1) step by simp
    next
      case not_dir: False
      then have "\<exists>e. walk w (cur @ [c]) cs = Inl e"
        using False by (cases cs) (auto split: option.splits node.splits)
      moreover have "strict_prefix (cur @ [c]) (butlast (cur @ c # cs)) \<or> cur @ [c] = butlast (cur @ c # cs)"
        using False by (cases cs rule: rev_cases) (auto simp: butlast_append strict_prefix_def)
      then have "entry w (butlast (cur @ c # cs)) \<noteq> Some Dir"
        using not_dir fs_wf_prefix [OF assms(1), of "butlast (cur @ c # cs)" "cur @ [c]"] by auto
      ultimately show ?thesis using step by simp
    qed
  qed
qed

lemma locate_calm:
  assumes "calm w" "plain p" "p \<noteq> []"
  shows "if entry w (butlast (place (cwd w) p)) = Some Dir then locate w p = Inr (place (cwd w) p)
    else \<exists>e. locate w p = Inl e"
  using walk_calm [of w "comps p" "start_dir w p"] calm_start [OF assms(1), of p] assms
  by (simp add: locate_def plain_def place_start calm_def)

lemma os_Stat_calm:
  assumes "calm w" "plain p" "p \<noteq> []"
  shows "case entry w (place (cwd w) p) of None \<Rightarrow> \<exists>e. os_Stat p w = Err e | Some n \<Rightarrow> os_Stat p w = Ok n"
proof -
  let ?q = "place (cwd w) p"
  have "entry w ?q \<noteq> None \<longrightarrow> entry w (butlast ?q) = Some Dir" using assms(1) by (simp add: calm_def fs_wf_def)
  then show ?thesis using locate_calm [OF assms] calm_faults [OF assms(1)]
    by (auto simp: os_Stat_def sys_at_def split: option.splits if_splits)
qed

section \<open>A new file\<close>

lemma calm_set_entry:
  assumes "calm w" "entry w (butlast q) = Some Dir" "n = Dir \<or> entry w q \<noteq> Some Dir"
  shows "calm (set_entry q n w)"
proof -
  have "keeps_wf w (set_entry q n w)" using assms(2,3) by (intro keeps_wf_set_entry) auto
  moreover have "entry (set_entry q n w) (cwd w) = Some Dir"
    using assms(1,3) by (auto simp: calm_def entry_set_entry)
  ultimately show ?thesis using assms(1) by (simp add: calm_def keeps_wf_def)
qed

section \<open>\<open>MkdirAll\<close>\<close>

lemma comps_slashes: "list_all (\<lambda>c. c = CHR ''/'') u \<Longrightarrow> comps u = []"
proof (induction u)
  case (Cons c u)
  then show ?case using comps_append_slash [of "[]" u] by (simp add: comps_def)
qed (simp add: comps_def)

lemma comps_word: "CHR ''/'' \<notin> set v \<Longrightarrow> list_all (\<lambda>c. c = CHR ''/'') u \<Longrightarrow> length (comps (v @ u)) \<le> 1"
proof -
  assume v: "CHR ''/'' \<notin> set v" and u: "list_all (\<lambda>c. c = CHR ''/'') u"
  have "length (comps v) \<le> 1" using v by (simp add: comps_def Split_none)
  moreover have "comps (v @ u) = comps v"
    using u comps_slashes [of "tl u"] comps_append_slash [of v "tl u"] by (cases u) simp_all
  ultimately show ?thesis by simp
qed

lemma path_split:
  "\<exists>v u. CHR ''/'' \<notin> set v \<and> list_all (\<lambda>c. c = CHR ''/'') u \<and>
     p = rev (upto_slash p) @ v @ u \<and> (upto_slash p \<noteq> [] \<longrightarrow> hd (upto_slash p) = CHR ''/'')"
proof -
  let ?a = "dropWhile (\<lambda>c. c = CHR ''/'') (rev p)" and ?u = "takeWhile (\<lambda>c. c = CHR ''/'') (rev p)"
  let ?v = "takeWhile (\<lambda>c. c \<noteq> CHR ''/'') ?a"
  have "rev p = ?u @ ?v @ upto_slash p" by (simp add: upto_slash_def)
  then have "p = rev (?u @ ?v @ upto_slash p)" by (metis rev_rev_ident)
  then have "p = rev (upto_slash p) @ rev ?v @ rev ?u" by simp
  moreover have "CHR ''/'' \<notin> set (rev ?v)" by (auto dest: set_takeWhileD)
  moreover have "list_all (\<lambda>c. c = CHR ''/'') (rev ?u)" by (auto simp: list_all_iff dest: set_takeWhileD)
  moreover have "upto_slash p \<noteq> [] \<longrightarrow> hd (upto_slash p) = CHR ''/''"
    using hd_dropWhile [of "\<lambda>c. c \<noteq> CHR ''/''" ?a] by (simp add: upto_slash_def)
  ultimately show ?thesis by blast
qed

text \<open>The parent path names the place above, or (for a path like \<open>a/.\<close>) the same place.\<close>

lemma parent_place:
  shows "parent_str p = [] \<Longrightarrow> length (comps p) \<le> 1"
    and "parent_str p \<noteq> [] \<Longrightarrow> \<exists>cs. place d p = place d (parent_str p) @ cs \<and> length cs \<le> 1"
proof -
  obtain v u where p: "CHR ''/'' \<notin> set v" "list_all (\<lambda>c. c = CHR ''/'') u" "p = rev (upto_slash p) @ v @ u"
    "upto_slash p \<noteq> [] \<longrightarrow> hd (upto_slash p) = CHR ''/''"
    using path_split [of p] by blast
  have split: "p = parent_str p @ CHR ''/'' # v @ u" if "upto_slash p \<noteq> []"
    using p(3,4) that by (cases "upto_slash p") (simp_all add: parent_str_def)
  have vu: "length (comps (v @ u)) \<le> 1" by (rule comps_word [OF p(1,2)])
  show "length (comps p) \<le> 1" if "parent_str p = []"
    using split that vu p(3) comps_append_slash [of "[]" "v @ u"]
    by (cases "upto_slash p = []") (simp_all add: comps_def)
  show "\<exists>cs. place d p = place d (parent_str p) @ cs \<and> length cs \<le> 1" if "parent_str p \<noteq> []"
    using split parent_str_cases [OF that] place_append [OF that, of d "v @ u"] vu by metis
qed

definition no_file_above :: "path \<Rightarrow> (path \<Rightarrow> node option) \<Rightarrow> bool" where
  "no_file_above q M \<longleftrightarrow> list_all (\<lambda>r. case M r of Some (File _) \<Rightarrow> False | _ \<Rightarrow> True) (prefixes q)"

definition add_dirs :: "path \<Rightarrow> (path \<Rightarrow> node option) \<Rightarrow> path \<Rightarrow> node option" where
  "add_dirs q M r = (if prefix r q then Some Dir else M r)"

lemma no_file_above_iff: "no_file_above q M \<longleftrightarrow> (\<forall>r s. prefix r q \<longrightarrow> M r \<noteq> Some (File s))"
  by (auto simp: no_file_above_def list_all_iff split: option.splits node.splits)


lemma add_dirs_there: "calm w \<Longrightarrow> entry w q = Some Dir \<Longrightarrow> add_dirs q (entry w) = entry w"
  using calm_up [of w q] by (auto simp: add_dirs_def fun_eq_iff) metis

lemma no_file_above_snoc:
  assumes "calm w" "entry w (butlast q) = Some Dir" "\<And>s. entry w q \<noteq> Some (File s)"
  shows "no_file_above q (entry w)"
  using assms(2,3) calm_up [OF assms(1), of "butlast q"]
  by (cases q rule: rev_cases) (fastforce simp: no_file_above_iff)+

text \<open>One step, when everything above the place is there.\<close>

lemma mkdir_last_calm:
  assumes "calm w" "plain p" "p \<noteq> []" "q = place (cwd w) p"
    and "entry w (butlast q) = Some Dir" "\<And>s. entry w q \<noteq> Some (File s)"
  shows "\<exists>w'. mkdir_last p w = (Ok (), w') \<and> calm w' \<and> cwd w' = cwd w \<and> entry w' = add_dirs q (entry w)"
proof -
  have loc: "locate w p = Inr q" using locate_calm [OF assms(1-3)] assms(4,5) by simp
  show ?thesis
  proof (cases "entry w q")
    case None
    have "entry (set_entry q Dir w) = add_dirs q (entry w)"
      using calm_up [OF assms(1), of "butlast q"] assms(5) None
      by (cases q rule: rev_cases) (auto simp: fun_eq_iff add_dirs_def entry_set_entry)
    then show ?thesis using loc None assms(1,5) calm_set_entry [OF assms(1,5), of Dir]
      by (simp add: mkdir_last_def os_Mkdir_def sys_at_def)
  next
    case (Some n)
    then have "n = Dir" using assms(6) by (cases n) simp_all
    then show ?thesis using loc Some assms(1) os_Stat_calm [OF assms(1-3)] assms(4)
      by (simp add: mkdir_last_def os_Mkdir_def sys_at_def add_dirs_there)
  qed
qed

lemma os_MkdirAll_calm:
  assumes "calm w" "plain p" "p \<noteq> []"
  shows "if no_file_above (place (cwd w) p) (entry w)
    then \<exists>w'. os_MkdirAll p w = (Ok (), w') \<and> calm w' \<and> cwd w' = cwd w \<and>
      entry w' = add_dirs (place (cwd w) p) (entry w)
    else \<exists>e. fst (os_MkdirAll p w) = Err e"
  using assms
proof (induction p w rule: os_MkdirAll.induct)
  case (1 p w)
  let ?q = "place (cwd w) p" and ?pp = "parent_str p"
  note calm = \<open>calm w\<close> and plain = \<open>plain p\<close> and ne = \<open>p \<noteq> []\<close>
  note stat = os_Stat_calm [OF calm plain ne]
  show ?case
  proof (cases "entry w ?q")
    case (Some n)
    then have "os_Stat p w = Ok n" using stat by simp
    then have run: "os_MkdirAll p w = (if n = Dir then Ok () else Err (PathError ''mkdir'' p ENOTDIR), w)"
      by (rule os_MkdirAll_there)
    show ?thesis
    proof (cases n)
      case Dir
      then have "no_file_above ?q (entry w)" using Some calm_up [OF calm, of ?q] by (force simp: no_file_above_iff)
      then show ?thesis using run Dir Some calm add_dirs_there by auto
    next
      case (File s)
      then have "\<not> no_file_above ?q (entry w)" using Some by (auto simp: no_file_above_iff)
      then show ?thesis using run File by simp
    qed
  next
    case None
    then obtain e where e: "os_Stat p w = Err e" using stat by auto
    then have run: "os_MkdirAll p w = (case (if ?pp = [] then (Ok (), w) else os_MkdirAll ?pp w) of
        (Ok _, w') \<Rightarrow> mkdir_last p w' | r \<Rightarrow> r)"
      by (intro os_MkdirAll_missing) simp
    show ?thesis
    proof (cases "?pp = []")
      case True
      then have "butlast ?q = start_dir w p"
        using parent_place(1) [of p] None calm_start [OF calm, of p]
        by (cases "comps p" rule: rev_cases) (simp_all add: place_start butlast_append)
      then have up: "entry w (butlast ?q) = Some Dir" using calm_start [OF calm] by simp
      then have "no_file_above ?q (entry w)" using None no_file_above_snoc [OF calm] by simp
      then show ?thesis using run True mkdir_last_calm [OF calm plain ne refl up] None by simp
    next
      case False
      obtain cs where cs: "?q = place (cwd w) ?pp @ cs" "length cs \<le> 1"
        using parent_place(2) [OF False] by blast
      let ?r = "place (cwd w) ?pp"
      have IH: "if no_file_above ?r (entry w)
        then \<exists>w'. os_MkdirAll ?pp w = (Ok (), w') \<and> calm w' \<and> cwd w' = cwd w \<and> entry w' = add_dirs ?r (entry w)
        else \<exists>e. fst (os_MkdirAll ?pp w) = Err e"
        by (rule 1(1) [OF e False calm parent_str_plain [OF plain False] False])
      have same: "no_file_above ?q (entry w) = no_file_above ?r (entry w)"
        using None cs by (cases cs rule: rev_cases) (auto simp: no_file_above_iff)
      show ?thesis
      proof (cases "no_file_above ?r (entry w)")
        case True
        then obtain w1 where w1: "os_MkdirAll ?pp w = (Ok (), w1)" "calm w1" "cwd w1 = cwd w"
          "entry w1 = add_dirs ?r (entry w)"
          using IH by auto
        have q: "?q = place (cwd w1) p" using w1(3) by simp
        have up: "entry w1 (butlast ?q) = Some Dir"
          unfolding w1(4) using cs by (cases cs rule: rev_cases) (simp_all add: add_dirs_def prefixeq_butlast)
        have "entry w1 ?q \<noteq> Some (File s)" for s using None w1(4) by (simp add: add_dirs_def)
        then obtain w2 where w2: "mkdir_last p w1 = (Ok (), w2)" "calm w2" "cwd w2 = cwd w1"
          "entry w2 = add_dirs ?q (entry w1)"
          using mkdir_last_calm [OF w1(2) plain ne q up] by blast
        have "add_dirs ?q (entry w1) = add_dirs ?q (entry w)"
          unfolding w1(4) using cs by (auto simp: add_dirs_def fun_eq_iff intro: prefix_order.trans)
        then show ?thesis using run False w1 w2 same True by simp
      next
        case blocked: False
        then obtain e w1 where "os_MkdirAll ?pp w = (Err e, w1)" using IH by (metis prod.collapse)
        then show ?thesis using run False same blocked by simp
      qed
    qed
  qed
qed

end
