(* ===== verification/Unpack.thy ===== *)
theory Unpack
  imports Untar Quiet
begin

text \<open>
  What extracting an archive should do, said without the operating system: a function on trees (maps
  from places to files and directories). The program's extraction, with its walks along path texts,
  the recursion of \<open>MkdirAll\<close>, its open files and its error returns, implements it.
\<close>

type_synonym tree = "path \<Rightarrow> node option"

text \<open>One wanted entry at its place \<open>q\<close>; \<open>None\<close> when it cannot be extracted.\<close>

definition unpack_entry :: "path \<Rightarrow> string \<Rightarrow> char \<Rightarrow> string \<Rightarrow> go_error option \<Rightarrow> tree \<Rightarrow> tree option" where
  "unpack_entry q name flag data err M =
     (if flag = TypeDir then
        (if name = ''./'' then Some M
         else if no_file_above q M then Some (add_dirs q M) else None)
      else if flag = TypeReg then
        (if M (butlast q) = Some Dir \<and> M q \<noteq> Some Dir \<and> err = None then Some (M(q \<mapsto> File data)) else None)
      else Some M)"

fun unpack :: "path \<Rightarrow> string \<Rightarrow> tar_item list \<Rightarrow> tree \<Rightarrow> tree option" where
  "unpack t cfg [] M = Some M"
| "unpack t cfg (TarError e # items) M = None"
| "unpack t cfg (TarEntry name flag data err # items) M =
     (if Contains name cfg
      then Option.bind (unpack_entry (t @ comps name) name flag data err M) (unpack t cfg items)
      else unpack t cfg items M)"

text \<open>The world \<open>w'\<close> is \<open>w\<close> with the tree \<open>M\<close> in it.\<close>

definition now_shows :: "tree \<Rightarrow> world \<Rightarrow> world \<Rightarrow> bool" where
  "now_shows M w w' \<longleftrightarrow> calm w' \<and> cwd w' = cwd w \<and> entry w' = M"

definition implements :: "'a go \<Rightarrow> world \<Rightarrow> tree option \<Rightarrow> bool" where
  "implements m w r \<longleftrightarrow>
     (case r of
        Some M \<Rightarrow> \<exists>a w'. m w = (Ok a, w') \<and> now_shows M w w'
      | None \<Rightarrow> \<exists>e w'. m w = (Err e, w'))"

lemma implements_seq:
  assumes "implements m w r" "\<And>M w'. r = Some M \<Longrightarrow> now_shows M w w' \<Longrightarrow> implements k w' (f M)"
  shows "implements (go_seq m k) w (Option.bind r f)"
proof (cases r)
  case None
  then show ?thesis using assms(1) by (auto simp: implements_def go_seq_def go_bind_def)
next
  case (Some M)
  then obtain w1 where w1: "m w = (Ok (), w1)" "now_shows M w w1" using assms(1) by (auto simp: implements_def)
  have "implements k w1 (f M)" by (rule assms(2) [OF Some w1(2)])
  then show ?thesis using w1 Some
    by (auto simp: implements_def go_seq_def go_bind_def now_shows_def split: option.splits)
qed

lemma store_file_implements:
  assumes "calm w" "plain p" "p \<noteq> []" "q = place (cwd w) p"
  shows "implements (store_file p data err) w
    (if entry w (butlast q) = Some Dir \<and> entry w q \<noteq> Some Dir \<and> err = None then Some ((entry w)(q \<mapsto> File data)) else None)"
proof -
  note loc = locate_calm [OF assms(1-3)]
  show ?thesis
  proof (cases "entry w (butlast q) = Some Dir \<and> entry w q \<noteq> Some Dir")
    case False
    then show ?thesis using loc assms(1,4)
      by (auto simp: implements_def store_file_def or_errorf_def os_Create_def sys_at_def go_defs split: if_splits)
  next
    case True
    let ?w1 = "set_entry q (File []) w"
    have "q \<noteq> []" using True by auto
    have w1: "calm ?w1" "entry ?w1 = (entry w)(q \<mapsto> File [])"
      using calm_set_entry [OF assms(1), of q "File []"] True by (auto simp: fun_eq_iff entry_set_entry)
    have "entry ?w1 (butlast q) = Some Dir" using True w1(2) by auto
    then have w2: "calm (set_entry q (File data) ?w1)" "entry (set_entry q (File data) ?w1) = (entry w)(q \<mapsto> File data)"
      using calm_set_entry [OF w1(1), of q "File data"] w1(2) \<open>q \<noteq> []\<close> by (auto simp: fun_eq_iff entry_set_entry)
    have "os_Create p w = (Ok (p, q), ?w1)" using loc True assms(1,4) by (simp add: os_Create_def sys_at_def)
    moreover have "os_Write (p, q) data ?w1 = (Ok (), if data = [] then ?w1 else set_entry q (File data) ?w1)"
      using w1 assms(1) by (simp add: os_Write_def cong: option.case_cong)
    ultimately show ?thesis using w1 w2 True
      by (cases err) (auto simp: implements_def store_file_def or_errorf_def io_Copy_def go_defs now_shows_def)
  qed
qed

lemma MkdirAll_implements:
  assumes "calm w" "plain p" "p \<noteq> []" "q = place (cwd w) p"
  shows "implements (or_errorf (os_MkdirAll p) f go_return) w
    (if no_file_above q (entry w) then Some (add_dirs q (entry w)) else None)"
proof (cases "no_file_above q (entry w)")
  case True
  then obtain w' where "os_MkdirAll p w = (Ok (), w')" "now_shows (add_dirs q (entry w)) w w'"
    using os_MkdirAll_calm [OF assms(1-3)] assms(4) by (auto simp: now_shows_def)
  then show ?thesis using True by (simp add: implements_def or_errorf_def go_try_def go_return_def)
next
  case False
  then obtain e w' where "os_MkdirAll p w = (Err e, w')"
    using os_MkdirAll_calm [OF assms(1-3)] assms(4) by (cases "os_MkdirAll p w") auto
  then show ?thesis using False by (simp add: implements_def or_errorf_def go_try_def go_fail_def)
qed

lemma implements_same:
  "calm w \<Longrightarrow> same_files w (snd (m w)) \<Longrightarrow> fst (m w) = Ok a \<Longrightarrow> implements m w (Some (entry w))"
  using same_files_entry [of w "snd (m w)"]
  by (cases "m w") (auto simp: implements_def now_shows_def calm_def fs_wf_def same_files_def)

lemma untar_entry_implements:
  assumes "calm w" "plain path" "path \<noteq> []" "plain name"
  shows "implements (untar_entry path name flag data err) w
    (unpack_entry (place (cwd w) path @ comps name) name flag data err (entry w))"
proof -
  let ?p = "path @ ''/'' @ name"
  have p: "plain ?p" "?p \<noteq> []" "place (cwd w) ?p = place (cwd w) path @ comps name"
    using assms(2-4) plain_append [of path name] place_append [of path "cwd w" name] by simp_all
  show ?thesis
  proof (cases "flag = TypeDir")
    case True
    have "implements (go_return ()) w (Some (entry w))"
      by (rule implements_same [OF assms(1)]) (simp_all add: go_return_def same_files.refl)
    moreover have "implements (or_errorf (os_MkdirAll ?p) f go_return) w
        (if no_file_above (place (cwd w) path @ comps name) (entry w)
         then Some (add_dirs (place (cwd w) path @ comps name) (entry w)) else None)" for f
      by (rule MkdirAll_implements [OF assms(1) p(1,2) p(3) [symmetric]])
    ultimately show ?thesis using True by (simp add: untar_entry_def unpack_entry_def)
  next
    case not_dir: False
    show ?thesis
    proof (cases "flag = TypeReg")
      case True
      then show ?thesis using store_file_implements [OF assms(1) p(1,2) p(3) [symmetric], of data err]
        unfolding True untar_entry_file by (simp add: unpack_entry_def TypeDir_def TypeReg_def)
    next
      case False
      have "implements (print_line s) w (Some (entry w))" for s
        by (rule implements_same [OF assms(1)]) (simp_all add: print_line_def same_files_def)
      then show ?thesis using False not_dir by (simp add: untar_entry_def unpack_entry_def)
    qed
  qed
qed

lemma untar_loop_implements:
  assumes "calm w" "plain path" "path \<noteq> []" "names_plain items"
  shows "implements (untar_loop items path cfg) w (unpack (place (cwd w) path) cfg items (entry w))"
  using assms
proof (induction items path cfg arbitrary: w rule: untar_loop.induct)
  case (1 path cfg)
  then show ?case by (simp add: implements_def now_shows_def go_return_def)
next
  case (2 e items path cfg)
  then show ?case by (simp add: implements_def go_fail_def)
next
  case (3 name flag data err items path cfg)
  have plain: "plain name" "names_plain items" using 3(5) by (simp_all add: names_plain_def)
  show ?case
  proof (cases "Contains name cfg")
    case True
    have "implements (untar_loop items path cfg) w' (unpack (place (cwd w) path) cfg items M)"
      if "now_shows M w w'" for M w'
      using 3(1) [of w'] 3(3,4) plain(2) that by (auto simp: now_shows_def)
    then show ?thesis using True untar_entry_implements [OF 3(2-4) plain(1)] by (simp add: implements_seq)
  next
    case False
    then show ?thesis using 3(1) [OF 3(2-4) plain(2)] by simp
  qed
qed

end
