(* ===== verification/Layers.thy ===== *)
theory Layers
  imports Manifest Unpack
begin

text \<open>
  The layers of an image: \<open>ExtractLayersOCI\<close> refines a function on trees that takes the layers one
  after the other, finds each by its digest and unpacks what it decodes to.
\<close>

fun unpack_layers ::
  "gunzip \<Rightarrow> path \<Rightarrow> path \<Rightarrow> string \<Rightarrow> OCIManifest list \<Rightarrow> tree \<Rightarrow> tree option" where
  "unpack_layers gz f t cfg [] M = Some M"
| "unpack_layers gz f t cfg (blob # blobs) M =
     (if \<not> Contains (om_Digest blob) ''sha256'' then None
      else case digest_hex (om_Digest blob) of
        Ok hex \<Rightarrow>
          (case M (f @ comps hex) of
             Some (File s) \<Rightarrow>
               (case gz s of
                  Inl e \<Rightarrow> None
                | Inr items \<Rightarrow> Option.bind (unpack t cfg items M) (unpack_layers gz f t cfg blobs))
           | _ \<Rightarrow> None)
      | _ \<Rightarrow> None)"

text \<open>Digests that are read without a panic, and whose name is a plain file name.\<close>

definition digests_ok :: "OCIManifest list \<Rightarrow> bool" where
  "digests_ok blobs \<longleftrightarrow> list_all (\<lambda>b. Contains (om_Digest b) ''sha256'' \<longrightarrow>
     (case digest_hex (om_Digest b) of Ok hex \<Rightarrow> plain hex | _ \<Rightarrow> False)) blobs"

lemma os_Open_calm:
  assumes "calm w" "plain p" "p \<noteq> []"
  shows "case entry w (place (cwd w) p) of None \<Rightarrow> \<exists>e. os_Open p w = Err e | Some n \<Rightarrow> os_Open p w = Ok (p, n)"
proof -
  let ?q = "place (cwd w) p"
  have "entry w ?q \<noteq> None \<longrightarrow> entry w (butlast ?q) = Some Dir" using assms(1) by (simp add: calm_def fs_wf_def)
  then show ?thesis using locate_calm [OF assms] calm_faults [OF assms(1)]
    by (auto simp: os_Open_def sys_at_def split: option.splits if_splits)
qed

lemma os_ReadFile_calm:
  "calm w \<Longrightarrow> plain p \<Longrightarrow> p \<noteq> [] \<Longrightarrow> entry w (place (cwd w) p) = Some (File s) \<Longrightarrow> os_ReadFile p w = Ok s"
  using os_Open_calm [of w p] by (simp add: os_ReadFile_def)

lemma untar_implements:
  assumes "calm w" "plain toPath" "toPath \<noteq> []" "archives_plain gz"
  shows "implements (untar gz (p, n) toPath label) w
    (case n of
       File s \<Rightarrow> (case gz s of Inl e \<Rightarrow> None
         | Inr items \<Rightarrow> unpack (place (cwd w) toPath) (trim_slashes label) items (entry w))
     | Dir \<Rightarrow> None)"
proof (cases n)
  case Dir
  then show ?thesis by (simp add: untar_def gzip_NewReader_def implements_def go_fail_def)
next
  case (File s)
  have "names_plain items" if "gz s = Inr items" for items using assms(4) that by (simp add: archives_plain_def)
  then show ?thesis using File untar_loop_implements [OF assms(1-3)]
    by (auto simp: untar_def gzip_NewReader_def implements_def go_fail_def split: sum.split)
qed

lemma extract_layers_implements:
  assumes "calm w" "plain toPath" "toPath \<noteq> []" "plain fromPath" "fromPath \<noteq> []" "archives_plain gz" "digests_ok blobs"
  shows "implements (go_for blobs (extract_layer gz fromPath toPath label)) w
    (unpack_layers gz (place (cwd w) fromPath) (place (cwd w) toPath) (trim_slashes label) blobs (entry w))"
  using assms(1,7)
proof (induction blobs arbitrary: w)
  case Nil
  then show ?case by (simp add: implements_def now_shows_def go_return_def)
next
  case (Cons b bs)
  let ?t = "place (cwd w) toPath" and ?f = "place (cwd w) fromPath" and ?cfg = "trim_slashes label"
  note seq = go_seq_def [symmetric]
  show ?case
  proof (cases "Contains (om_Digest b) ''sha256''")
    case False
    then show ?thesis by (simp add: extract_layer_def implements_def go_bind_def go_fail_def)
  next
    case True
    then obtain hex where hex: "digest_hex (om_Digest b) = Ok hex" "plain hex"
      using Cons.prems(2) by (auto simp: digests_ok_def split: res.splits)
    let ?p = "fromPath @ ''/'' @ hex"
    have p: "plain ?p" "?p \<noteq> []" "place (cwd w) ?p = ?f @ comps hex"
      using assms(4,5) hex(2) plain_append [of fromPath hex] place_append [of fromPath "cwd w" hex] by simp_all
    have layer: "extract_layer gz fromPath toPath label b =
        go_bind (go_read (os_Open ?p)) (\<lambda>f. untar gz f toPath label)"
      using True hex(1) by (simp add: extract_layer_def)
    have rest: "implements (go_for bs (extract_layer gz fromPath toPath label)) w'
        (unpack_layers gz ?f ?t ?cfg bs M)" if "now_shows M w w'" for M w'
      using Cons.IH [of w'] Cons.prems(2) that by (auto simp: now_shows_def digests_ok_def)
    show ?thesis
    proof (cases "entry w (?f @ comps hex)")
      case None
      then obtain e where "os_Open ?p w = Err e" using os_Open_calm [OF Cons.prems(1) p(1,2)] unfolding p(3) by auto
      then show ?thesis using True hex(1) None layer
        by (simp add: implements_def go_bind_def go_read_def)
    next
      case (Some n)
      then have "os_Open ?p w = Ok (?p, n)" using os_Open_calm [OF Cons.prems(1) p(1,2)] unfolding p(3) by simp
      then have run: "go_for (b # bs) (extract_layer gz fromPath toPath label) w =
          go_seq (untar gz (?p, n) toPath label) (go_for bs (extract_layer gz fromPath toPath label)) w"
        unfolding go_for.simps layer by (simp add: go_bind_assoc go_seq_def) (simp add: go_bind_def go_read_def)
      have "implements (go_seq (untar gz (?p, n) toPath label) (go_for bs (extract_layer gz fromPath toPath label))) w
          (Option.bind (case n of File s \<Rightarrow> (case gz s of Inl e \<Rightarrow> None | Inr items \<Rightarrow> unpack ?t ?cfg items (entry w))
             | Dir \<Rightarrow> None) (unpack_layers gz ?f ?t ?cfg bs))"
        by (rule implements_seq [OF untar_implements [OF Cons.prems(1) assms(2,3,6)] rest])
      then have "implements (go_for (b # bs) (extract_layer gz fromPath toPath label)) w
          (Option.bind (case n of File s \<Rightarrow> (case gz s of Inl e \<Rightarrow> None | Inr items \<Rightarrow> unpack ?t ?cfg items (entry w))
             | Dir \<Rightarrow> None) (unpack_layers gz ?f ?t ?cfg bs))"
        unfolding implements_def run .
      then show ?thesis using True hex(1) Some by (cases n) (simp_all split: sum.splits)
    qed
  qed
qed

text \<open>
  C19: extraction implements its specification. In a calm world (a tree of files, a system that refuses
  nothing), with archives and digests without \<open>..\<close>, \<open>ExtractLayersOCI\<close> does to the files exactly what
  \<open>unpack_layers\<close> does to the tree, layer by layer and entry by entry; and it returns an error exactly
  when the specification has no result.
\<close>

theorem ExtractLayersOCI_implements:
  assumes "calm w" "missing (toPath @ label) w" "plain toPath" "toPath \<noteq> []" "plain fromPath" "fromPath \<noteq> []"
    and "archives_plain gz" "digests_ok (oci_Layers oci)"
  shows "implements (ExtractLayersOCI gz fromPath toPath label (Some oci)) w
    (unpack_layers gz (place (cwd w) fromPath) (place (cwd w) toPath) (trim_slashes label)
       (oci_Layers oci) (entry w))"
proof -
  have run: "ExtractLayersOCI gz fromPath toPath label (Some oci) w =
      go_for (oci_Layers oci) (extract_layer gz fromPath toPath label) w"
    using assms(2) by (simp add: ExtractLayersOCI_run)
  show ?thesis using extract_layers_implements [OF assms(1,3-8)] unfolding implements_def run by blast
qed

text \<open>The hypotheses hold for a layer with a directory and a file, and the file is extracted.\<close>

lemma ExtractLayersOCI_implements_witness:
  "let gz = (\<lambda>_. Inr [TarEntry ''configs/foo'' TypeDir [] None, TarEntry ''etc/x'' TypeReg ''no'' None,
        TarEntry ''configs/foo/a'' TypeReg ''yes'' None]);
      w = slip_world\<lparr>fs := [([''home''], Dir), ([''home'', ''b''], Dir), ([''home'', ''b'', ''l''], File [])]\<rparr>;
      oci = zero_OCISchema\<lparr>oci_Layers := [zero_OCIManifest\<lparr>om_Digest := ''sha256:l''\<rparr>]\<rparr>;
      v = snd (ExtractLayersOCI gz ''b'' ''out'' ''/configs'' (Some oci) w)
    in entry v [''home'', ''out'', ''configs'', ''foo'', ''a''] = Some (File ''yes'') \<and>
      entry v [''home'', ''out'', ''etc'', ''x''] = None"
proof -
  define gz :: gunzip where "gz = (\<lambda>_. Inr [TarEntry ''configs/foo'' TypeDir [] None,
    TarEntry ''etc/x'' TypeReg ''no'' None, TarEntry ''configs/foo/a'' TypeReg ''yes'' None])"
  define w where "w = slip_world\<lparr>fs := [([''home''], Dir), ([''home'', ''b''], Dir),
    ([''home'', ''b'', ''l''], File [])]\<rparr>"
  define oci where "oci = zero_OCISchema\<lparr>oci_Layers := [zero_OCIManifest\<lparr>om_Digest := ''sha256:l''\<rparr>]\<rparr>"
  have calm: "calm w" by (simp add: calm_def fs_wf_def w_def slip_world_def entry_def)
  have gz: "archives_plain gz" by (simp add: archives_plain_def gz_def names_plain_def plain_def comps_def)
  have oci: "digests_ok (oci_Layers oci)" by (simp add: oci_def) code_simp
  have missing: "missing (''out'' @ ''/configs'') w" unfolding w_def by code_simp
  have unpacked: "case unpack_layers gz (place (cwd w) ''b'') (place (cwd w) ''out'') (trim_slashes ''/configs'')
      (oci_Layers oci) (entry w) of None \<Rightarrow> False
    | Some M \<Rightarrow> M [''home'', ''out'', ''configs'', ''foo'', ''a''] = Some (File ''yes'') \<and>
        M [''home'', ''out'', ''etc'', ''x''] = None"
    unfolding w_def gz_def oci_def by code_simp
  have "implements (ExtractLayersOCI gz ''b'' ''out'' ''/configs'' (Some oci)) w
    (unpack_layers gz (place (cwd w) ''b'') (place (cwd w) ''out'') (trim_slashes ''/configs'')
      (oci_Layers oci) (entry w))"
    by (rule ExtractLayersOCI_implements [OF calm missing _ _ _ _ gz oci]) (simp_all add: plain_def comps_def)
  then show ?thesis using unpacked unfolding gz_def w_def oci_def
    by (auto simp: Let_def implements_def now_shows_def split: option.splits)
qed

end
