(* ===== verification/Under.thy ===== *)
theory Under
  imports Layers
begin

text \<open>
  What extracting does below the directory it extracts to depends only on what is there, on the
  archives and on the wanted name, not on where the directory is or on the rest of the tree.
\<close>

section \<open>Extraction at a place\<close>

text \<open>What a tree has below \<open>t\<close>, and trees that differ below \<open>t\<close> only, or in directories above it.\<close>

definition under :: "path \<Rightarrow> tree \<Rightarrow> tree" where
  "under t M p = M (t @ p)"

definition open_way :: "path \<Rightarrow> tree \<Rightarrow> bool" where
  "open_way t M \<longleftrightarrow> (\<forall>r s. strict_prefix r t \<longrightarrow> M r \<noteq> Some (File s))"

definition outside :: "path \<Rightarrow> tree \<Rightarrow> tree \<Rightarrow> bool" where
  "outside t M M' \<longleftrightarrow> (\<forall>q. \<not> prefix t q \<longrightarrow> M' q = M q \<or> strict_prefix q t \<and> M' q = Some Dir)"

lemma outside_refl: "outside t M M"
  by (simp add: outside_def)

lemma outside_trans: "outside t M M' \<Longrightarrow> outside t M' M'' \<Longrightarrow> outside t M M''"
  by (simp add: outside_def) metis

lemma outside_open_way: "outside t M M' \<Longrightarrow> open_way t M \<Longrightarrow> open_way t M'"
  unfolding outside_def open_way_def
  by (metis node.distinct(1) option.inject prefix_order.less_le_not_le)

lemma unpack_entry_under:
  assumes "unpack_entry cs name flag data err (under t M) = Some N" "open_way t M"
  shows "\<exists>M'. unpack_entry (t @ cs) name flag data err M = Some M' \<and> under t M' = N \<and> outside t M M'"
proof (cases "flag = TypeDir")
  case True
  have way: "no_file_above (t @ cs) M" if "no_file_above cs (under t M)"
    unfolding no_file_above_iff
  proof (intro allI impI)
    fix r s assume "prefix r (t @ cs)"
    then consider "strict_prefix r t" | us where "r = t @ us" "prefix us cs"
      unfolding prefix_append strict_prefix_def by (metis append_Nil2 prefix_bot.bot_least)
    then show "M r \<noteq> Some (File s)"
    proof cases
      case 1
      then show ?thesis using assms(2) by (simp add: open_way_def)
    next
      case 2
      then show ?thesis using that by (simp add: no_file_above_iff under_def)
    qed
  qed
  have "under t (add_dirs (t @ cs) M) = add_dirs cs (under t M)"
    by (simp add: fun_eq_iff under_def add_dirs_def)
  moreover have "outside t M (add_dirs (t @ cs) M)"
    by (auto simp: outside_def add_dirs_def prefix_append strict_prefix_def)
  ultimately show ?thesis using True assms(1) way outside_refl
    by (auto simp: unpack_entry_def split: if_splits)
next
  case not_dir: False
  show ?thesis
  proof (cases "flag = TypeReg")
    case True
    then have ok: "under t M (butlast cs) = Some Dir" "under t M cs \<noteq> Some Dir" "err = None"
      "N = (under t M)(cs \<mapsto> File data)"
      using assms(1) not_dir by (auto simp: unpack_entry_def split: if_splits)
    then have "cs \<noteq> []" by auto
    then have "M (butlast (t @ cs)) = Some Dir" "M (t @ cs) \<noteq> Some Dir"
      using ok(1,2) by (simp_all add: under_def butlast_append)
    moreover have "under t (M(t @ cs \<mapsto> File data)) = N" unfolding ok(4) by (simp add: fun_eq_iff under_def)
    moreover have "outside t M (M(t @ cs \<mapsto> File data))" by (auto simp: outside_def)
    ultimately show ?thesis using True not_dir ok(3) by (auto simp: unpack_entry_def)
  next
    case False
    then show ?thesis using assms(1) not_dir outside_refl by (auto simp: unpack_entry_def)
  qed
qed

lemma unpack_under:
  "unpack [] cfg items (under t M) = Some N \<Longrightarrow> open_way t M \<Longrightarrow>
     \<exists>M'. unpack t cfg items M = Some M' \<and> under t M' = N \<and> outside t M M'"
proof (induction items arbitrary: M)
  case Nil
  then show ?case using outside_refl by auto
next
  case (Cons i items)
  show ?case
  proof (cases i)
    case (TarEntry name flag data err)
    show ?thesis
    proof (cases "Contains name cfg")
      case True
      then obtain N1 where n1: "unpack_entry (comps name) name flag data err (under t M) = Some N1"
        "unpack [] cfg items N1 = Some N"
        using Cons.prems(1) TarEntry by (auto simp: Option.bind_eq_Some_conv)
      then obtain M1 where m1: "unpack_entry (t @ comps name) name flag data err M = Some M1" "under t M1 = N1"
        "outside t M M1"
        using unpack_entry_under Cons.prems(2) by blast
      have "\<exists>M'. unpack t cfg items M1 = Some M' \<and> under t M' = N \<and> outside t M1 M'"
        using Cons.IH [of M1] m1(2) n1(2) outside_open_way [OF m1(3) Cons.prems(2)] by simp
      then show ?thesis using True TarEntry m1 outside_trans by auto
    next
      case False
      then show ?thesis using Cons TarEntry by simp
    qed
  next
    case (TarError e)
    then show ?thesis using Cons.prems(1) by simp
  qed
qed

fun unpack_streams :: "string \<Rightarrow> tar_item list list \<Rightarrow> tree \<Rightarrow> tree option" where
  "unpack_streams cfg [] M = Some M"
| "unpack_streams cfg (items # rest) M = Option.bind (unpack [] cfg items M) (unpack_streams cfg rest)"

text \<open>The layer \<open>blob\<close> is in the tree below \<open>f\<close>, and decodes to the entries.\<close>

definition layer_is :: "gunzip \<Rightarrow> tree \<Rightarrow> OCIManifest \<Rightarrow> tar_item list \<Rightarrow> bool" where
  "layer_is gz img blob items \<longleftrightarrow> Contains (om_Digest blob) ''sha256'' \<and>
     (\<exists>hex s. digest_hex (om_Digest blob) = Ok hex \<and> plain hex \<and> img (comps hex) = Some (File s) \<and> gz s = Inr items)"

lemma unpack_layers_under:
  assumes "list_all2 (layer_is gz img) blobs streams" "unpack_streams cfg streams (under t M) = Some N"
    and "\<forall>p n. img p = Some n \<longrightarrow> M (f @ p) = Some n" "open_way t M"
    and "\<And>p. \<not> prefix t (f @ p)"  "\<And>p. \<not> strict_prefix (f @ p) t"
  shows "\<exists>M'. unpack_layers gz f t cfg blobs M = Some M' \<and> under t M' = N \<and> outside t M M'"
  using assms(1-4)
proof (induction blobs streams arbitrary: M rule: list_all2_induct)
  case Nil
  then show ?case using outside_refl by auto
next
  case (Cons b bs items rest)
  obtain hex s where b: "Contains (om_Digest b) ''sha256''" "digest_hex (om_Digest b) = Ok hex"
    "img (comps hex) = Some (File s)" "gz s = Inr items"
    using Cons(1) by (auto simp: layer_is_def)
  obtain N1 where n1: "unpack [] cfg items (under t M) = Some N1" "unpack_streams cfg rest N1 = Some N"
    using Cons(4) by (auto simp: Option.bind_eq_Some_conv)
  obtain M1 where m1: "unpack t cfg items M = Some M1" "under t M1 = N1" "outside t M M1"
    using unpack_under [OF n1(1) Cons(6)] by blast
  have "\<forall>p n. img p = Some n \<longrightarrow> M1 (f @ p) = Some n"
    using Cons(5) m1(3) assms(5,6) by (metis outside_def)
  then obtain M' where "unpack_layers gz f t cfg bs M1 = Some M'" "under t M' = N" "outside t M1 M'"
    using Cons(3) [of M1] n1(2) m1(2) outside_open_way [OF m1(3) Cons(6)] by auto
  moreover have "M (f @ comps hex) = Some (File s)" using b(3) Cons(5) by simp
  ultimately show ?case using b m1 outside_trans by auto
qed

end
