(* ===== verification/Succeeds.thy ===== *)
theory Succeeds
  imports Rerun Under
begin

text \<open>
  Total correctness of Go statements: from every world in which \<open>P\<close> holds, \<open>m\<close> returns without an
  error or a panic, and \<open>Q\<close> holds of its result and the world it leaves. The rules follow the
  structure of a statement.
\<close>

section \<open>The rules\<close>

definition succeeds :: "(world \<Rightarrow> bool) \<Rightarrow> 'a go \<Rightarrow> ('a \<Rightarrow> world \<Rightarrow> bool) \<Rightarrow> bool" where
  "succeeds P m Q \<longleftrightarrow> (\<forall>w. P w \<longrightarrow> (\<exists>a w'. m w = (Ok a, w') \<and> Q a w'))"

lemma succeedsI: "(\<And>w. P w \<Longrightarrow> \<exists>a w'. m w = (Ok a, w') \<and> Q a w') \<Longrightarrow> succeeds P m Q"
  by (simp add: succeeds_def)

lemma succeedsD: "succeeds P m Q \<Longrightarrow> P w \<Longrightarrow> \<exists>a w'. m w = (Ok a, w') \<and> Q a w'"
  by (simp add: succeeds_def)

lemma succeeds_cons:
  "succeeds P m Q \<Longrightarrow> (\<And>w. P' w \<Longrightarrow> P w) \<Longrightarrow> (\<And>a w. Q a w \<Longrightarrow> Q' a w) \<Longrightarrow> succeeds P' m Q'"
  unfolding succeeds_def by meson

lemma succeeds_return: "(\<And>w. P w \<Longrightarrow> Q a w) \<Longrightarrow> succeeds P (go_return a) Q"
  by (rule succeedsI) (simp add: go_return_def)

lemma succeeds_lift: "(\<And>w. P w \<Longrightarrow> \<exists>a. r = Ok a \<and> Q a w) \<Longrightarrow> succeeds P (go_lift r) Q"
  by (rule succeedsI) (force simp: go_lift_def)

lemma succeeds_read: "(\<And>w. P w \<Longrightarrow> \<exists>a. f w = Ok a \<and> Q a w) \<Longrightarrow> succeeds P (go_read f) Q"
  by (rule succeedsI) (force simp: go_read_def)

lemma succeeds_bind:
  assumes "succeeds P m R" "\<And>a. succeeds (R a) (k a) Q"
  shows "succeeds P (go_bind m k) Q"
proof (rule succeedsI)
  fix w assume "P w"
  then obtain a w1 where 1: "m w = (Ok a, w1)" "R a w1" using succeedsD [OF assms(1)] by blast
  obtain b w2 where "k a w1 = (Ok b, w2)" "Q b w2" using succeedsD [OF assms(2) 1(2)] by blast
  then show "\<exists>a w'. go_bind m k w = (Ok a, w') \<and> Q a w'" using 1(1) by (simp add: go_bind_def)
qed

lemma succeeds_seq:
  "succeeds P m (\<lambda>_. R) \<Longrightarrow> succeeds R k Q \<Longrightarrow> succeeds P (go_seq m k) Q"
  unfolding go_seq_def by (rule succeeds_bind)

lemma succeeds_try:
  assumes "succeeds P m R" "\<And>a. succeeds (R a) (k (Inr a)) Q"
  shows "succeeds P (go_try m k) Q"
proof (rule succeedsI)
  fix w assume "P w"
  then obtain a w1 where 1: "m w = (Ok a, w1)" "R a w1" using succeedsD [OF assms(1)] by blast
  obtain b w2 where "k (Inr a) w1 = (Ok b, w2)" "Q b w2" using succeedsD [OF assms(2) 1(2)] by blast
  then show "\<exists>a w'. go_try m k w = (Ok a, w') \<and> Q a w'" using 1(1) by (simp add: go_try_def)
qed

lemma succeeds_or_log: "succeeds P m (\<lambda>_. R) \<Longrightarrow> succeeds R k Q \<Longrightarrow> succeeds P (or_log m k) Q"
  unfolding or_log_def by (rule succeeds_try) simp_all

lemma succeeds_for:
  "(\<And>x. x \<in> set xs \<Longrightarrow> succeeds P (body x) (\<lambda>_. P)) \<Longrightarrow> succeeds P (go_for xs body) (\<lambda>_. P)"
proof (induction xs)
  case Nil
  show ?case by (simp add: succeeds_return)
next
  case (Cons x xs)
  show ?case unfolding go_for.simps by (rule succeeds_bind [where R = "\<lambda>_. P"]) (simp_all add: Cons)
qed

text \<open>A condition that is not about the world.\<close>

lemma succeeds_when: "(b \<Longrightarrow> succeeds P m Q) \<Longrightarrow> succeeds (\<lambda>w. b \<and> P w) m Q"
  by (simp add: succeeds_def)

lemma succeeds_when': "(b \<Longrightarrow> succeeds P m Q) \<Longrightarrow> succeeds (\<lambda>w. P w \<and> b) m Q"
  by (simp add: succeeds_def)

section \<open>Statements that leave a condition as it is\<close>

definition stable :: "(world \<Rightarrow> world \<Rightarrow> bool) \<Rightarrow> (world \<Rightarrow> bool) \<Rightarrow> bool" where
  "stable R P \<longleftrightarrow> (\<forall>w w'. R w w' \<longrightarrow> P w \<longrightarrow> P w')"

lemma succeeds_keep_ens:
  assumes "keeps_ens R S m" "stable R P" "\<And>w. P w \<Longrightarrow> is_ok (fst (m w))"
  shows "succeeds P m (\<lambda>a w. P w \<and> S a)"
proof (rule succeedsI)
  fix w assume "P w"
  then obtain a v where v: "m w = (Ok a, v)" using assms(3) [of w] by (cases "m w") (auto simp: is_ok_iff)
  have "R w v" "S a" using keepsD [OF keeps_ensD(1) [OF assms(1)] v] keeps_ensD(2) [OF assms(1) v] by simp_all
  then show "\<exists>a w'. m w = (Ok a, w') \<and> P w' \<and> S a" using v \<open>P w\<close> assms(2) by (simp add: stable_def)
qed

lemma succeeds_keep:
  assumes "keeps R m" "stable R P" "\<And>w. P w \<Longrightarrow> is_ok (fst (m w))"
  shows "succeeds P m (\<lambda>_. P)"
  using succeeds_keep_ens [of R "\<lambda>_. True" m P] assms by (simp add: keeps_ens_def)

text \<open>A condition on the files, the working directory and the faults.\<close>

locale file_state =
  fixes P :: "world \<Rightarrow> bool"
  assumes same_files_stable: "stable same_files P"
begin

lemma succeeds_log:
  "succeeds P (log_Info f a) (\<lambda>_. P)" "succeeds P (log_Debug f a) (\<lambda>_. P)"
  "succeeds P (log_Trace f a) (\<lambda>_. P)" "succeeds P (log_Error f a) (\<lambda>_. P)"
  "succeeds P (logrus_Warnf f a) (\<lambda>_. P)" "succeeds P (println ws) (\<lambda>_. P)"
proof -
  have fine: "succeeds P m (\<lambda>_. P)" if "keeps same_files m" "\<And>w. fst (m w) = Ok ()" for m :: "unit go"
    by (rule succeeds_keep [OF that(1) same_files_stable]) (simp add: that(2))
  show "succeeds P (log_Info f a) (\<lambda>_. P)" "succeeds P (log_Debug f a) (\<lambda>_. P)"
    "succeeds P (log_Trace f a) (\<lambda>_. P)" "succeeds P (log_Error f a) (\<lambda>_. P)"
    by (rule fine; simp only: log_same_files log_methods_Ok)+
  show "succeeds P (logrus_Warnf f a) (\<lambda>_. P)" "succeeds P (println ws) (\<lambda>_. P)"
    by (rule fine; simp add: logrus_Warnf_def println_def keeps_def same_files_def)+
qed

end

text \<open>
  Everything but the entry \<open>q\<close> stays: what a statement does that writes to the file at \<open>q\<close> only.
\<close>

definition but_at :: "path \<Rightarrow> world \<Rightarrow> world \<Rightarrow> bool" where
  "but_at q w w' \<longleftrightarrow> cwd w' = cwd w \<and> faults w' = faults w \<and> (fs_wf w \<longrightarrow> fs_wf w') \<and>
     (\<forall>r. r \<noteq> q \<longrightarrow> entry w' r = entry w r)"

interpretation but_at: world_relation "but_at q" for q
  by unfold_locales (auto simp: but_at_def)

lemma same_files_but_at: "same_files w w' \<Longrightarrow> but_at q w w'"
  using same_files_entry [of w w'] by (auto simp: but_at_def same_files_def fs_wf_def)

text \<open>A condition that does not look at the file at \<open>q\<close>.\<close>

locale beside_file =
  fixes q :: path and P :: "world \<Rightarrow> bool"
  assumes but_at_stable: "stable (but_at q) P"

sublocale beside_file \<subseteq> file_state P
proof unfold_locales
  show "stable same_files P" using but_at_stable same_files_but_at unfolding stable_def by blast
qed

lemma os_Write_but_at: "keeps (but_at q) (os_Write (p, q) data)"
proof (rule keepsI)
  fix w
  have "keeps_wf w (snd (os_Write (p, q) data w))" using os_Write_wf by (simp add: keeps_def)
  then show "but_at q w (snd (os_Write (p, q) data w))"
    by (auto simp: but_at_def keeps_wf_def os_Write_def entry_set_entry split: option.splits node.splits)
qed

section \<open>Writers\<close>

text \<open>A writer on the file at \<open>q\<close>, or on no file.\<close>

definition writer_at :: "path \<Rightarrow> bufio_Writer \<Rightarrow> bool" where
  "writer_at q b \<longleftrightarrow> (\<forall>h. bw_file b = Some h \<longrightarrow> snd h = q)"

lemma file_Write_but_at: "\<forall>h. f = Some h \<longrightarrow> snd h = q \<Longrightarrow> keeps (but_at q) (file_Write f p)"
  using os_Write_but_at by (cases f) (auto simp: file_Write_def but_at.keeps_fail)

lemma ok_try:
  "no_panic m \<Longrightarrow> (\<And>r v. is_ok (fst (k r v))) \<Longrightarrow> is_ok (fst (go_try m k w))"
  by (cases "m w"; cases "fst (m w)") (auto simp: go_try_def dest: no_panicD)

lemma ok_bind:
  "is_ok (fst (m w)) \<Longrightarrow> (\<And>a v. is_ok (fst (k a v))) \<Longrightarrow> is_ok (fst (go_bind m k w))"
  by (cases "m w") (auto simp: go_bind_def is_ok_iff)

lemma bw_emit_Ok: "is_ok (fst (bw_emit p b d w))"
  unfolding bw_emit_def by (rule ok_try [OF file_Write_safe]) (simp add: go_return_def split: sum.split)

lemma bw_Flush_Ok: "is_ok (fst (bw_Flush b w))"
  by (simp add: bw_Flush_def bw_emit_Ok) (simp add: go_return_def)

lemma bw_put_Ok: "is_ok (fst (bw_put p b w))"
  by (simp add: bw_put_def bw_emit_Ok) (simp add: go_return_def)

lemma bw_Write_Ok: "is_ok (fst (bw_Write p b w))"
  unfolding bw_Write_def Let_def by (auto intro: ok_bind bw_Flush_Ok bw_put_Ok simp: go_return_def)

lemma bw_writes_Ok: "is_ok (fst (bw_writes ps b w))"
  by (induction ps arbitrary: b w) (simp_all add: ok_bind bw_Write_Ok go_return_def)

context beside_file
begin

lemmas succeeds_logs = succeeds_log

lemma succeeds_writes:
  assumes "writer_at q b"
  shows "succeeds P (bw_writes ps b) (\<lambda>b w. P w \<and> writer_at q b)"
proof (rule succeeds_cons [OF succeeds_keep_ens [OF _ but_at_stable bw_writes_Ok]])
  show "keeps_ens (but_at q) (\<lambda>b'. bw_file b' = bw_file b) (bw_writes ps b)"
    by (rule but_at.writer_writes [OF file_Write_but_at]) (use assms in \<open>simp_all add: writer_at_def\<close>)
qed (use assms in \<open>simp_all add: writer_at_def\<close>)

lemma succeeds_flush:
  assumes "writer_at q b"
  shows "succeeds P (bw_Flush b) (\<lambda>b w. P w)"
proof (rule succeeds_keep [OF _ but_at_stable bw_Flush_Ok])
  show "keeps (but_at q) (bw_Flush b)"
    by (rule keeps_ensD(1) [OF but_at.writer_Flush [OF file_Write_but_at]])
      (use assms in \<open>simp_all add: writer_at_def\<close>)
qed

end

section \<open>Conditions on the tree of files\<close>

text \<open>Nothing is refused, the working directory is \<open>d\<close>, and the files satisfy \<open>F\<close>.\<close>

definition at_dir :: "path \<Rightarrow> (tree \<Rightarrow> bool) \<Rightarrow> world \<Rightarrow> bool" where
  "at_dir d F w \<longleftrightarrow> cwd w = d \<and> calm w \<and> F (entry w)"

lemma at_dir_beside:
  assumes "q \<noteq> d" "\<And>M M'. (\<And>r. r \<noteq> q \<Longrightarrow> M' r = M r) \<Longrightarrow> F M \<Longrightarrow> F M'"
  shows "beside_file q (at_dir d F)"
  by unfold_locales (use assms in \<open>auto simp: stable_def but_at_def at_dir_def calm_def\<close>)

interpretation at_dir: file_state "at_dir d F" for d F
proof (unfold_locales, unfold stable_def, intro allI impI)
  fix w w' assume s: "same_files w w'" and w: "at_dir d F w"
  have "entry w' = entry w" "cwd w' = cwd w" "faults w' = faults w"
    using s same_files_entry [OF s] by (simp_all add: same_files_def)
  then show "at_dir d F w'" using w same_files_wf [OF s] by (auto simp: at_dir_def calm_def keeps_wf_def)
qed

lemma succeeds_MkdirAll:
  assumes "plain p" "p \<noteq> []" "\<And>M. F M \<Longrightarrow> no_file_above (place d p) M"
    and "\<And>M. F M \<Longrightarrow> G (add_dirs (place d p) M)"
  shows "succeeds (at_dir d F) (os_MkdirAll p) (\<lambda>_. at_dir d G)"
proof (rule succeedsI)
  fix w assume w: "at_dir d F w"
  then obtain w' where "os_MkdirAll p w = (Ok (), w')" "calm w'" "cwd w' = cwd w"
    "entry w' = add_dirs (place d p) (entry w)"
    using os_MkdirAll_calm [of w p] assms(1-3) by (auto simp: at_dir_def)
  then show "\<exists>a w'. os_MkdirAll p w = (Ok a, w') \<and> at_dir d G w'" using w assms(4) by (auto simp: at_dir_def)
qed

lemma succeeds_ReadFile:
  assumes "plain p" "p \<noteq> []" "\<And>M. F M \<Longrightarrow> M (place d p) = Some (File s)" "json_Unmarshal dec s old = Ok a"
  shows "succeeds (at_dir d F) (go_bind (go_read (os_ReadFile p)) (\<lambda>x. unmarshal_go dec x old))
    (\<lambda>r w. r = a \<and> at_dir d F w)"
proof (rule succeedsI)
  fix w assume w: "at_dir d F w"
  then have "os_ReadFile p w = Ok s" using assms(1-3) os_ReadFile_calm [of w p s] by (auto simp: at_dir_def)
  then show "\<exists>b w'. go_bind (go_read (os_ReadFile p)) (\<lambda>x. unmarshal_go dec x old) w = (Ok b, w') \<and> b = a \<and> at_dir d F w'"
    using w assms(4) by (simp add: read_then unmarshal_go_run)
qed

text \<open>A path without a file on its way, to nothing, is reported missing.\<close>

lemma walk_ENOENT:
  "''..'' \<notin> set cs \<Longrightarrow> \<forall>r s. strict_prefix r (cur @ cs) \<longrightarrow> entry w r \<noteq> Some (File s) \<Longrightarrow>
     walk w cur cs = Inl e \<Longrightarrow> e = ENOENT"
proof (induction cs arbitrary: cur)
  case (Cons c cs)
  have "entry w cur \<noteq> Some (File s)" for s using Cons.prems(2) by (auto simp: strict_prefix_def)
  then show ?case using Cons.IH [of "cur @ [c]"] Cons.prems by (auto split: option.splits node.splits)
qed simp

lemma missing_calm:
  assumes "calm w" "plain p" "p \<noteq> []" "no_file_above (place (cwd w) p) (entry w)" "entry w (place (cwd w) p) = None"
  shows "missing p w"
proof (cases "locate w p")
  case (Inl e)
  then have "walk w (start_dir w p) (comps p) = Inl e" using assms(3) by (simp add: locate_def)
  then have "e = ENOENT"
    using assms(2,4) walk_ENOENT [of "comps p" "start_dir w p" w e]
    by (auto simp: plain_def place_start no_file_above_iff strict_prefix_def)
  then show ?thesis using Inl by (simp add: missing_def os_Stat_def sys_at_def)
next
  case (Inr q)
  then have "q = place (cwd w) p" using locate_plain [OF assms(2)] by simp
  then show ?thesis using Inr assms(1,5) by (simp add: missing_def os_Stat_def sys_at_def)
qed

text \<open>Clearing the logs.\<close>

lemma succeeds_RemoveAll:
  assumes "plain p" "p \<noteq> []" "\<not> prefix (place d p) d" "\<And>M. F M \<Longrightarrow> M (butlast (place d p)) = Some Dir"
    and "\<And>M. F M \<Longrightarrow> G (\<lambda>r. if prefix (place d p) r then None else M r)"
  shows "succeeds (at_dir d F) (os_RemoveAll p) (\<lambda>_. at_dir d G)"
proof (rule succeedsI)
  fix w assume w: "at_dir d F w"
  let ?q = "place d p" and ?v = "snd (os_RemoveAll p w)"
  have q: "locate w p = Inr ?q" using w locate_calm [OF _ assms(1,2), of w] assms(4) by (auto simp: at_dir_def)
  have free: "faults w op r = None" for op r using w by (simp add: at_dir_def)
  have "?q \<noteq> []" using assms(3) by auto
  then have e: "entry ?v = (\<lambda>r. if prefix ?q r then None else entry w r)"
    using free os_RemoveAll_entry [OF q] by (auto simp: fun_eq_iff)
  have "fs_wf ?v" using w os_RemoveAll_wf [of p] by (auto simp: at_dir_def calm_def keeps_def keeps_wf_def)
  then have "at_dir d G ?v"
    using w assms(3,5) by (auto simp: at_dir_def calm_def e os_RemoveAll_fields)
  moreover have "fst (os_RemoveAll p w) = Ok ()" by (simp add: os_RemoveAll_def q free Let_def)
  ultimately show "\<exists>a w'. os_RemoveAll p w = (Ok a, w') \<and> at_dir d G w'" by (metis prod.collapse)
qed

text \<open>A directory that can be read.\<close>

lemma os_ReadDir_calm:
  assumes "calm w" "plain p" "p \<noteq> []" "entry w (place (cwd w) p) = Some Dir"
  shows "os_ReadDir p w = Ok (dir_names (fs w) (place (cwd w) p))"
proof -
  have "entry w (butlast (place (cwd w) p)) = Some Dir" using assms(1,4) by (simp add: calm_def fs_wf_def)
  then show ?thesis using locate_calm [OF assms(1-3)] assms(1,4) by (simp add: os_ReadDir_def sys_at_def)
qed

end
