(* ===== verification/Fetching.thy ===== *)
theory Fetching
  imports Succeeds
begin

text \<open>
  Fetching an image: the copy into the cache when the library delivers it, and the extraction of
  its catalogs, each carried from a condition on the tree of files to the next. What an image
  holds is a function on its tree, \<open>image_catalogs\<close>.
\<close>

section \<open>A copy that succeeds at once\<close>

text \<open>Nothing stops the copy before the library is called, and nothing afterwards.\<close>

definition copyable :: "image_lib \<Rightarrow> CopyOptions \<Rightarrow> string \<Rightarrow> bool" where
  "copyable lib opts src \<longleftrightarrow> co_Format opts = [] \<and> (\<exists>s. il_ParseImageName lib src = Inr s) \<and>
     (\<forall>w. \<exists>pc. GetPolicyContext (il_Policy lib) (co_Global opts) w = Inr pc \<and> il_Destroy lib pc = None)"

lemma succeeds_copy_attempt:
  assumes "beside_file q Q" "writer_at q out"
    and "succeeds P (mc ctx pc d s co) (\<lambda>r w. snd r = None \<and> Q w)"
  shows "succeeds P (copy_attempt mc ctx pc d s co out) (\<lambda>r w. fst r = None \<and> Q w)"
  unfolding copy_attempt_def
proof (rule succeeds_bind [OF assms(3)], rule succeeds_when, clarsimp split: prod.split)
  fix report
  show "succeeds Q (go_bind (bw_writes report out)
      (\<lambda>out1. go_bind (bw_Flush out1) (\<lambda>out2. go_return (None, out2)))) (\<lambda>r w. fst r = None \<and> Q w)"
    by (rule succeeds_bind [OF beside_file.succeeds_writes [OF assms(1,2)]], rule succeeds_when',
        rule succeeds_bind [OF beside_file.succeeds_flush [OF assms(1)]])
      (simp_all add: succeeds_return)
qed

lemma succeeds_IfNecessary:
  assumes "succeeds P (operation c) (\<lambda>r w. fst r = None \<and> Q w)"
  shows "succeeds P (IfNecessary retryable ctx operation options c) (\<lambda>r w. fst r = None \<and> Q w)"
  unfolding IfNecessary_def
  by (rule succeeds_bind [OF assms], rule succeeds_when)
    (auto intro!: succeedsI simp: retry_none split: prod.split)

lemma succeeds_Mirror_Run:
  assumes "copyable lib opts src" "il_ParseImageName lib dest = Inr r" "writer_at q out"
    and "beside_file q P" "beside_file q Q"
    and "\<And>ctx pc s co. succeeds P (mc ctx pc r s co) (\<lambda>a w. snd a = None \<and> Q w)"
  shows "succeeds P (Mirror_Run lib mc src dest mode opts out)
    (\<lambda>a w. a = (with_RemoveSignatures opts, None) \<and> Q w)"
proof -
  let ?opts = "with_RemoveSignatures opts"
  obtain s where s: "il_ParseImageName lib src = Inr s" using assms(1) by (auto simp: copyable_def)
  have simps: "co_Format ?opts = []" using assms(1) by (simp add: with_RemoveSignatures_def copyable_def)
  note logs = beside_file.succeeds_logs [OF assms(4)]
  have refs: "succeeds P (copy_refs lib mc ?opts out pc s r) (\<lambda>_. Q)" for pc
    unfolding copy_refs_def Let_def simps
  proof (rule succeeds_bind [where R = "\<lambda>_. P"], simp_all add: image_NewSystemContext_def Let_def succeeds_lift,
      rule succeeds_bind [where R = "\<lambda>_. P"], simp add: succeeds_read)
    show "succeeds P (go_bind (IfNecessary (il_isRetryable lib) ctx (copy_attempt mc ctx pc r s co)
        (co_RetryOpts ?opts) out) (\<lambda>(err, _). case err of None \<Rightarrow> go_return () | Some e \<Rightarrow> go_fail e)) (\<lambda>_. Q)" for ctx co
      by (rule succeeds_bind [OF succeeds_IfNecessary [where Q = Q]])
        (auto intro!: succeeds_copy_attempt assms(3,5,6) succeeds_when succeeds_return split: prod.split)
  qed
  have policy: "succeeds P (destroying lib pc (copy_with_policy lib mc src dest ?opts out pc)) (\<lambda>_. Q)"
    if "il_Destroy lib pc = None" for pc
    unfolding destroying_def
  proof (rule succeeds_try)
    show "succeeds P (copy_with_policy lib mc src dest ?opts out pc) (\<lambda>_. Q)"
      using refs by (simp add: copy_with_policy_def or_fail_def s assms(2))
  qed (simp add: that succeeds_return)
  have main: "succeeds P (go_bind (go_read (\<lambda>w. Ok (GetPolicyContext (il_Policy lib) (co_Global opts) w)))
      (\<lambda>r. case r of Inl e \<Rightarrow> go_fail (f e)
       | Inr pc \<Rightarrow> destroying lib pc (copy_with_policy lib mc src dest ?opts out pc))) (\<lambda>_. Q)" for f
  proof (rule succeeds_bind)
    show "succeeds P (go_read (\<lambda>w. Ok (GetPolicyContext (il_Policy lib) (co_Global opts) w)))
        (\<lambda>r w. (\<exists>pc. r = Inr pc \<and> il_Destroy lib pc = None) \<and> P w)"
      using assms(1) by (auto intro!: succeeds_read simp: copyable_def)
  qed (rule succeeds_when, auto simp: policy)
  have warn: "succeeds P (WarnIfUsed o' alts) (\<lambda>_. P)" for o' alts
    unfolding WarnIfUsed_def by (simp add: logs succeeds_return)
  have reexec: "succeeds P (ReexecIfNecessaryForImages lib names) (\<lambda>_. P)" for names
    unfolding ReexecIfNecessaryForImages_def by (rule succeeds_for) (rule logs)
  have "succeeds P (Mirror_copy lib mc src dest opts out) (\<lambda>_. Q)"
    unfolding Mirror_copy_def by (rule succeeds_seq [OF warn succeeds_seq [OF reexec main]])
  then show ?thesis unfolding Mirror_Run_def
    by (rule succeeds_try) (simp add: succeeds_return)
qed

section \<open>The places of a run\<close>

text \<open>Where the image is copied to and extracted to, for the name \<open>i\<close> of an image in the cache.\<close>

definition copy_place :: "path \<Rightarrow> string list \<Rightarrow> path" where
  "copy_place d i = d @ [''working-dir'', ''operator-images''] @ i"

definition extract_place :: "path \<Rightarrow> string list \<Rightarrow> path" where
  "extract_place d i = d @ [''working-dir'', ''hold-operators''] @ i"

lemmas place_defs = copy_place_def extract_place_def

lemma copy_not_extract [simp]: "\<not> prefix (copy_place d i) (extract_place d i @ p)" "\<not> prefix (extract_place d i) (copy_place d i @ p)"
  "\<not> prefix (copy_place d i) (extract_place d i)" "\<not> prefix (extract_place d i) (copy_place d i)"
  "\<not> prefix (copy_place d i @ p) (extract_place d i)" "\<not> prefix (copy_place d i) d" "\<not> prefix (extract_place d i) d"
  by (simp_all add: place_defs)

abbreviation image_comps :: "CopyOptions \<Rightarrow> string list" where
  "image_comps opts \<equiv> comps (image_index_dir (gl_Reference (co_Global opts)))"

lemma extract_place_program: "prefix q (extract_place d i) \<Longrightarrow> program_place d q"
  using prefix_same_cases [of q "extract_place d i" "d @ [''working-dir'']"]
  by (auto simp: program_place_def extract_place_def)

lemma place_copy: "place d (copy_dir (set_target k opts) operatorImageDir) = copy_place d (image_comps opts)"
  using place_copy_dir [OF in_working_dir_target, of operatorImageDir d k opts]
  by (simp add: copy_place_def operatorImageDir_def)

lemma place_extract: "place d (operator_extract_dir (set_target k opts)) = extract_place d (image_comps opts)"
  using place_copy_dir [OF in_working_dir_target, of operatorImageExtractDir d k opts]
  by (simp add: operator_extract_dir_def extract_place_def operatorImageExtractDir_def)

text \<open>
  The states of the tree: no image has been extracted and none copied; the directory for the copy
  is made; the image is there; the catalogs are extracted.
\<close>

definition absent_tree :: "path \<Rightarrow> string list \<Rightarrow> tree \<Rightarrow> bool" where
  "absent_tree d i M \<longleftrightarrow> no_file_above (extract_place d i) M \<and> M (extract_place d i) = None"

definition fresh_tree :: "path \<Rightarrow> string list \<Rightarrow> tree \<Rightarrow> bool" where
  "fresh_tree d i M \<longleftrightarrow> absent_tree d i M \<and> no_file_above (copy_place d i) M \<and>
     (\<forall>p. p \<noteq> [] \<longrightarrow> M (copy_place d i @ p) = None) \<and>
     no_file_above (d @ [''working-dir'', ''release-images'']) M"

definition made_tree :: "path \<Rightarrow> string list \<Rightarrow> tree \<Rightarrow> bool" where
  "made_tree d i M \<longleftrightarrow> absent_tree d i M \<and> M (copy_place d i) = Some Dir \<and>
     (\<forall>p. p \<noteq> [] \<longrightarrow> M (copy_place d i @ p) = None)"

definition copied_tree :: "tree \<Rightarrow> path \<Rightarrow> string list \<Rightarrow> tree \<Rightarrow> bool" where
  "copied_tree img d i M \<longleftrightarrow> absent_tree d i M \<and> (\<forall>p. M (copy_place d i @ p) = img p)"

definition extracted_tree :: "tree \<Rightarrow> path \<Rightarrow> string list \<Rightarrow> tree \<Rightarrow> bool" where
  "extracted_tree N d i M \<longleftrightarrow> (\<forall>p. M (extract_place d i @ p) = N p)"

lemmas tree_defs = absent_tree_def fresh_tree_def made_tree_def copied_tree_def extracted_tree_def

abbreviation log_place :: "path \<Rightarrow> path" where
  "log_place d \<equiv> d @ [''logs'', ''util.log'']"

lemma log_place_beside: "copy_place d i @ p \<noteq> log_place d" "copy_place d i \<noteq> log_place d"
  "extract_place d i \<noteq> log_place d" "\<not> prefix (log_place d) (extract_place d i)"
  by (simp_all add: place_defs)

lemma made_beside: "beside_file (log_place d) (at_dir d (made_tree d i))"
  using log_place_beside [of d i] by (intro at_dir_beside) (auto simp: tree_defs no_file_above_iff)

lemma copied_beside: "beside_file (log_place d) (at_dir d (copied_tree img d i))"
  using log_place_beside [of d i] by (intro at_dir_beside) (auto simp: tree_defs no_file_above_iff)

section \<open>The copy\<close>

text \<open>
  What is relied on of \<open>copy.Image\<close>: into an empty directory it delivers the image \<open>img\<close>. Whatever
  else it may do is bounded by \<open>trusted_lib\<close>.
\<close>

definition delivers :: "image_lib \<Rightarrow> string \<Rightarrow> tree \<Rightarrow> bool" where
  "delivers lib dest img \<longleftrightarrow> (\<exists>r. il_ParseImageName lib dest = Inr r \<and>
     (\<forall>ctx pc s co w. let q = place (cwd w) (oci_dir dest) in
        calm w \<longrightarrow> entry w q = Some Dir \<longrightarrow> (\<forall>p. p \<noteq> [] \<longrightarrow> entry w (q @ p) = None) \<longrightarrow>
        (\<exists>report w'. il_copy_Image lib ctx pc r s co w = ((report, None), w') \<and>
           (\<forall>p. entry w' (q @ p) = img p))))"

lemma oci_copy_dir: "oci_dir (ociProtocolTrimmed @ copy_dir (set_target k opts) operatorImageDir) =
    copy_dir (set_target k opts) operatorImageDir"
  by (intro oci_dir_oci copy_dir_no_colon) (simp_all add: operatorImageDir_def)

lemma entry_net: "entry (w\<lparr>net := n\<rparr>) = entry w"
  by (simp add: entry_def fun_eq_iff)

lemma at_dir_net: "at_dir d F (w\<lparr>net := n\<rparr>) = at_dir d F w"
  by (simp add: at_dir_def calm_def fs_wf_def entry_net)

lemma succeeds_CopyImage:
  assumes "trusted_lib lib" "delivers lib dest img" "il_ParseImageName lib dest = Inr r"
    and "\<And>d. place d (oci_dir dest) = copy_place d i"
  shows "succeeds (at_dir d (made_tree d i)) (CopyImage lib ctx pc r s co)
    (\<lambda>a w. snd a = None \<and> at_dir d (copied_tree img d i) w)"
proof (rule succeedsI)
  fix w assume w: "at_dir d (made_tree d i) w"
  let ?w = "w\<lparr>net := net w @ [(s, r)]\<rparr>"
  have calm: "calm ?w" and tree: "made_tree d i (entry ?w)" and cwd: "cwd ?w = d"
    using w at_dir_net [of d "made_tree d i" _ w] by (simp_all add: at_dir_def)
  have "\<forall>ctx pc s co w. calm w \<longrightarrow> entry w (copy_place (cwd w) i) = Some Dir \<longrightarrow>
      (\<forall>p. p \<noteq> [] \<longrightarrow> entry w (copy_place (cwd w) i @ p) = None) \<longrightarrow>
      (\<exists>report w'. il_copy_Image lib ctx pc r s co w = ((report, None), w') \<and>
         (\<forall>p. entry w' (copy_place (cwd w) i @ p) = img p))"
    using assms(2,3) by (simp add: delivers_def Let_def assms(4))
  then have "\<exists>report w'. il_copy_Image lib ctx pc r s co ?w = ((report, None), w') \<and>
      (\<forall>p. entry w' (copy_place d i @ p) = img p)"
    using calm tree unfolding made_tree_def cwd [symmetric] by blast
  then obtain report w' where run: "il_copy_Image lib ctx pc r s co ?w = ((report, None), w')"
    "\<forall>p. entry w' (copy_place d i @ p) = img p"
    by blast
  have c: "CopyImage lib ctx pc r s co w = (Ok (report, None), w')" using run(1) by (simp add: CopyImage_def)
  note writes = trusted_writes [OF assms(1)]
  have "changes_only (lib_region elsewhere dest) w w'"
    by (rule keepsD [OF CopyImage_changes [OF writes assms(3)] c])
  then have frame: "cwd w' = d" "faults w' = faults w"
    "\<And>q. \<not> prefix (copy_place d i) q \<Longrightarrow> program_place d q \<Longrightarrow> entry w' q = entry w q"
    using w by (auto simp: changes_only_def lib_region_def oci_region_def assms(4) at_dir_def)
  have "fs_wf w'" using keepsD [OF CopyImage_wf [OF writes] c] w by (simp add: keeps_wf_def at_dir_def calm_def)
  moreover have "program_place d d" by (auto simp: program_place_def)
  ultimately have "calm w'" using w frame by (auto simp: at_dir_def calm_def)
  moreover have "entry w' q = entry w q" if "prefix q (extract_place d i)" for q
    using that by (intro frame(3) extract_place_program) (auto dest: prefix_order.trans)
  then have "absent_tree d i (entry w')" using w by (auto simp: at_dir_def tree_defs no_file_above_iff)
  ultimately have "at_dir d (copied_tree img d i) w'" using frame(1) run(2) by (simp add: at_dir_def copied_tree_def)
  then show "\<exists>a v. CopyImage lib ctx pc r s co w = (Ok a, v) \<and> snd a = None \<and> at_dir d (copied_tree img d i) v"
    using c by simp
qed

lemma succeeds_copy_image:
  assumes "trusted_lib lib" "plain (image_index_dir (gl_Reference (co_Global opts)))"
    and "copyable lib (set_target k opts) (dockerProtocol @ gl_Reference (co_Global opts))"
    and "delivers lib (ociProtocolTrimmed @ copy_dir (set_target k opts) operatorImageDir) img"
    and "writer_at (log_place d) (bufio_NewWriter f)" "i = image_comps opts"
  shows "succeeds (at_dir d (fresh_tree d i)) (copy_image (Mirror_New lib (CopyImage lib)) (set_target k opts)
      (bufio_NewWriter f) (copy_dir (set_target k opts) operatorImageDir))
    (\<lambda>a w. a = with_RemoveSignatures (set_target k opts) \<and> at_dir d (copied_tree img d i) w)"
proof -
  let ?t = "set_target k opts" and ?c = "copy_dir (set_target k opts) operatorImageDir"
  have c: "plain ?c" "?c \<noteq> []" "\<And>d. place d ?c = copy_place d i"
    using copy_dir_plain [OF assms(2), of operatorImageDir k] place_copy assms(6)
    by (auto simp: operatorImageDir_def comps_def copy_dir_def dir_path_def workingDir_def)
  obtain r where r: "il_ParseImageName lib (ociProtocolTrimmed @ ?c) = Inr r"
    using assms(4) by (auto simp: delivers_def)
  have mkdir: "succeeds (at_dir d (fresh_tree d i)) (os_MkdirAll ?c) (\<lambda>_. at_dir d (made_tree d i))"
    by (rule succeeds_MkdirAll [OF c(1,2)], unfold c(3))
      (auto simp: tree_defs add_dirs_def no_file_above_iff prefix_append split: if_splits)
  have run: "succeeds (at_dir d (made_tree d i)) (Mirror_Run lib (CopyImage lib)
      (dockerProtocol @ gl_Reference (co_Global opts)) (ociProtocolTrimmed @ ?c) mode ?t (bufio_NewWriter f))
      (\<lambda>a w. a = (with_RemoveSignatures ?t, None) \<and> at_dir d (copied_tree img d i) w)" for mode
    by (rule succeeds_Mirror_Run [OF assms(3) r assms(5) made_beside copied_beside])
      (rule succeeds_CopyImage [OF assms(1,4) r], simp add: oci_copy_dir c(3))
  show ?thesis unfolding copy_image_def
    by (rule succeeds_seq [OF mkdir], rule succeeds_seq [OF at_dir.succeeds_log(1)],
        unfold Mirror_New_def mirror_iface.simps set_target_simps, rule succeeds_bind [OF run],
        rule succeeds_when) (simp add: bw_Flush_new succeeds_return)
qed

section \<open>What an image holds\<close>

text \<open>
  The catalogs of an image, read from its tree without a program: the index names the manifest, the
  manifest the configuration and the layers, the configuration the label, and the layers are
  unpacked in their order, on nothing.
\<close>

definition text_at :: "tree \<Rightarrow> path \<Rightarrow> string option" where
  "text_at img p = (case img p of Some (File s) \<Rightarrow> Some s | _ \<Rightarrow> None)"

definition blob_text :: "tree \<Rightarrow> string \<Rightarrow> string option" where
  "blob_text img digest =
     (case digest_hex digest of
        Ok hex \<Rightarrow> if plain hex then text_at img ([''blobs'', ''sha256''] @ comps hex) else None
      | _ \<Rightarrow> None)"

definition decoded :: "'a option dec \<Rightarrow> string \<Rightarrow> 'a option" where
  "decoded dec s = (case json_Unmarshal dec s None of Ok a \<Rightarrow> a | _ \<Rightarrow> None)"

definition layer_items :: "gunzip \<Rightarrow> tree \<Rightarrow> OCIManifest \<Rightarrow> tar_item list option" where
  "layer_items gz img blob =
     (if Contains (om_Digest blob) ''sha256''
      then Option.bind (blob_text img (om_Digest blob)) (\<lambda>s. case gz s of Inl e \<Rightarrow> None | Inr items \<Rightarrow> Some items)
      else None)"

definition image_layers :: "gunzip \<Rightarrow> tree \<Rightarrow> tar_item list list option" where
  "image_layers gz img =
     Option.bind (Option.bind (text_at img [''index.json'']) (decoded (dec_pointer dec_OCISchema zero_OCISchema))) (\<lambda>o1.
     if oci_Manifests o1 = [] \<or> \<not> Contains (om_Digest (hd (oci_Manifests o1))) ''sha256'' then None else
     Option.bind (Option.bind (blob_text img (om_Digest (hd (oci_Manifests o1))))
       (decoded (dec_pointer dec_OCISchema zero_OCISchema))) (\<lambda>o2.
     Option.bind (Option.bind (blob_text img (om_Digest (oci_Config o2)))
       (decoded (dec_pointer dec_OperatorConfigSchema zero_OperatorConfigSchema))) (\<lambda>c.
     if ol_OperatorsOperatorframeworkIoIndexConfigsV1 (oc_Labels (ocs_Config c)) = ''/configs''
     then those (map (layer_items gz img) (oci_Layers o2)) else None)))"

definition image_catalogs :: "gunzip \<Rightarrow> tree \<Rightarrow> tree option" where
  "image_catalogs gz img = Option.bind (image_layers gz img) (\<lambda>layers. unpack_streams ''configs'' layers (\<lambda>_. None))"

lemma text_at_Some: "text_at img p = Some s \<longleftrightarrow> img p = Some (File s)"
  by (auto simp: text_at_def split: option.splits node.splits)

lemma decoded_Some: "decoded dec s = Some a \<longleftrightarrow> json_Unmarshal dec s None = Ok (Some a)"
  by (auto simp: decoded_def split: res.splits)

lemma blob_text_Some:
  "blob_text img digest = Some s \<longleftrightarrow> (\<exists>hex. digest_hex digest = Ok hex \<and> plain hex \<and>
     img ([''blobs'', ''sha256''] @ comps hex) = Some (File s))"
  by (auto simp: blob_text_def text_at_Some split: res.splits)

lemma those_map: "those (map f xs) = Some ys \<Longrightarrow> list_all2 (\<lambda>x y. f x = Some y) xs ys"
  by (induction xs arbitrary: ys) (auto split: option.splits)

text \<open>The blobs of an image as a tree of their own.\<close>

definition blobs_of :: "tree \<Rightarrow> tree" where
  "blobs_of img p = img ([''blobs'', ''sha256''] @ p)"

lemma layer_items_is:
  assumes "layer_items gz img b = Some items"
  shows "layer_is gz (blobs_of img) b items"
proof -
  obtain s where "Contains (om_Digest b) ''sha256''" "blob_text img (om_Digest b) = Some s" "gz s = Inr items"
    using assms by (auto simp: layer_items_def Option.bind_eq_Some_conv split: if_splits)
      (metis old.sum.exhaust option.distinct(1) option.inject sum.simps(5) sum.simps(6))
  then show ?thesis by (auto simp: layer_is_def blob_text_Some blobs_of_def)
qed

lemma layers_digests_ok: "list_all2 (layer_is gz img) bs streams \<Longrightarrow> digests_ok bs"
  by (induction bs streams rule: list_all2_induct) (auto simp: digests_ok_def layer_is_def)

section \<open>The extraction\<close>

lemma trim_configs: "trim_slashes ''/configs'' = ''configs''"
  by code_simp

lemma succeeds_extract_layers:
  assumes "archives_plain gz" "plain from_dir" "from_dir \<noteq> []" "plain to_dir" "to_dir \<noteq> []"
    and "place d from_dir = copy_place d i @ [''blobs'', ''sha256'']" "place d to_dir = extract_place d i"
    and "list_all2 (layer_is gz (blobs_of img)) (oci_Layers oci) layers"
    and "unpack_streams ''configs'' layers (\<lambda>_. None) = Some N"
  shows "succeeds (at_dir d (copied_tree img d i)) (ExtractLayersOCI gz from_dir to_dir ''/configs'' (Some oci))
    (\<lambda>_. at_dir d (extracted_tree N d i))"
proof (rule succeedsI)
  fix w assume w: "at_dir d (copied_tree img d i) w"
  let ?M = "entry w" and ?f = "copy_place d i @ [''blobs'', ''sha256'']" and ?t = "extract_place d i"
  have calm: "calm w" "cwd w = d" and tree: "no_file_above ?t ?M" "?M ?t = None" "\<And>p. ?M (copy_place d i @ p) = img p"
    using w by (simp_all add: at_dir_def tree_defs)
  have none: "?M (?t @ p) = None" for p
    using fs_wf_below [of w ?t "?t @ p"] calm(1) tree(2) by (simp add: calm_def)
  have label: "plain (to_dir @ ''/configs'')" "place d (to_dir @ ''/configs'') = ?t @ [''configs'']"
    using assms(4,5,7) plain_append [of to_dir "''configs''"] place_append [of to_dir d "''configs''"]
    by (simp_all add: plain_def comps_def)
  have "no_file_above (?t @ [''configs'']) ?M"
    using tree(1) none [of "[''configs'']"] by (auto simp: no_file_above_iff)
  then have "missing (to_dir @ ''/configs'') w"
    using none [of "[''configs'']"] calm assms(5) label by (intro missing_calm) simp_all
  then have run: "implements (ExtractLayersOCI gz from_dir to_dir ''/configs'' (Some oci)) w
      (unpack_layers gz ?f ?t ''configs'' (oci_Layers oci) ?M)"
    using ExtractLayersOCI_implements [OF calm(1) _ assms(4,5,2,3,1) layers_digests_ok [OF assms(8)], of "''/configs''"]
    unfolding calm(2) assms(6,7) trim_configs by simp
  have "under ?t ?M = (\<lambda>_. None)" by (rule ext) (simp add: under_def none)
  then obtain M' where "unpack_layers gz ?f ?t ''configs'' (oci_Layers oci) ?M = Some M'" "under ?t M' = N"
    using unpack_layers_under [OF assms(8), of "''configs''" ?t ?M N ?f] assms(9) tree(1,3)
    by (auto simp: blobs_of_def open_way_def no_file_above_iff strict_prefix_def)
  then show "\<exists>a v. ExtractLayersOCI gz from_dir to_dir ''/configs'' (Some oci) w = (Ok a, v) \<and>
      at_dir d (extracted_tree N d i) v"
    using run calm(2) by (auto simp: implements_def now_shows_def at_dir_def extracted_tree_def under_def)
qed


text \<open>A file of the image, under the name the collector gives it.\<close>

lemma succeeds_read_image:
  assumes "plain (copy_dir (set_target k opts) operatorImageDir)" "copy_dir (set_target k opts) operatorImageDir \<noteq> []"
    and "i = image_comps opts" "plain rest" "img (comps rest) = Some (File s)" "json_Unmarshal dec s None = Ok a"
  shows "succeeds (at_dir d (copied_tree img d i))
    (go_bind (go_read (os_ReadFile (copy_dir (set_target k opts) operatorImageDir @ ''/'' @ rest)))
       (\<lambda>x. unmarshal_go dec x None))
    (\<lambda>r w. r = a \<and> at_dir d (copied_tree img d i) w)"
proof (rule succeeds_ReadFile)
  show "M (place d (copy_dir (set_target k opts) operatorImageDir @ ''/'' @ rest)) = Some (File s)"
    if "copied_tree img d i M" for M
    using that assms(5) place_append [OF assms(2), of d rest] by (simp add: place_copy assms(3) copied_tree_def)
qed (use assms plain_append in \<open>simp_all\<close>)

lemma image_catalogs_cases:
  assumes "image_catalogs gz img = Some N"
  obtains s1 o1 m ms s2 o2 s3 c layers where "img [''index.json''] = Some (File s1)"
    "json_Unmarshal (dec_pointer dec_OCISchema zero_OCISchema) s1 None = Ok (Some o1)"
    "oci_Manifests o1 = m # ms" "Contains (om_Digest m) ''sha256''" "blob_text img (om_Digest m) = Some s2"
    "json_Unmarshal (dec_pointer dec_OCISchema zero_OCISchema) s2 None = Ok (Some o2)"
    "blob_text img (om_Digest (oci_Config o2)) = Some s3"
    "json_Unmarshal (dec_pointer dec_OperatorConfigSchema zero_OperatorConfigSchema) s3 None = Ok (Some c)"
    "ol_OperatorsOperatorframeworkIoIndexConfigsV1 (oc_Labels (ocs_Config c)) = ''/configs''"
    "those (map (layer_items gz img) (oci_Layers o2)) = Some layers"
    "unpack_streams ''configs'' layers (\<lambda>_. None) = Some N"
proof -
  obtain layers where l: "image_layers gz img = Some layers" "unpack_streams ''configs'' layers (\<lambda>_. None) = Some N"
    using assms by (auto simp: image_catalogs_def Option.bind_eq_Some_conv)
  obtain o1 where o1: "Option.bind (text_at img [''index.json'']) (decoded (dec_pointer dec_OCISchema zero_OCISchema)) = Some o1"
    "oci_Manifests o1 \<noteq> []" "Contains (om_Digest (hd (oci_Manifests o1))) ''sha256''"
    using l(1) unfolding image_layers_def by (auto simp: Option.bind_eq_Some_conv split: if_splits)
  then obtain m ms where m: "oci_Manifests o1 = m # ms" by (cases "oci_Manifests o1") auto
  show ?thesis
    using that [of _ o1 m ms] l o1 m unfolding image_layers_def
    by (auto simp: Option.bind_eq_Some_conv text_at_Some decoded_Some split: if_splits)
qed

lemma succeeds_extract_operator:
  assumes "archives_plain gz" "plain (image_index_dir (gl_Reference (co_Global opts)))" "i = image_comps opts"
    and "image_catalogs gz img = Some N" "co_Global opts1 = co_Global (set_target k opts)"
  shows "succeeds (at_dir d (copied_tree img d i)) (extract_operator (Manifest_New gz) opts1
      (copy_dir (set_target k opts) operatorImageDir) (image_index_dir (gl_Reference (co_Global opts))))
    (\<lambda>_. at_dir d (extracted_tree N d i))"
proof -
  let ?t = "set_target k opts" and ?i = "image_index_dir (gl_Reference (co_Global opts))"
  let ?c = "copy_dir (set_target k opts) operatorImageDir" and ?F = "at_dir d (copied_tree img d i)"
  let ?dec = "dec_pointer dec_OCISchema zero_OCISchema"
  obtain s1 o1 m ms s2 o2 s3 c layers where 1: "img [''index.json''] = Some (File s1)"
    "json_Unmarshal ?dec s1 None = Ok (Some o1)" "oci_Manifests o1 = m # ms" "Contains (om_Digest m) ''sha256''"
    and 2: "blob_text img (om_Digest m) = Some s2" "json_Unmarshal ?dec s2 None = Ok (Some o2)"
    and 3: "blob_text img (om_Digest (oci_Config o2)) = Some s3"
      "json_Unmarshal (dec_pointer dec_OperatorConfigSchema zero_OperatorConfigSchema) s3 None = Ok (Some c)"
      "ol_OperatorsOperatorframeworkIoIndexConfigsV1 (oc_Labels (ocs_Config c)) = ''/configs''"
    and 4: "those (map (layer_items gz img) (oci_Layers o2)) = Some layers"
      "unpack_streams ''configs'' layers (\<lambda>_. None) = Some N"
    using assms(4) by (rule image_catalogs_cases)
  obtain h2 where h2: "digest_hex (om_Digest m) = Ok h2" "plain h2" "img (''blobs'' # ''sha256'' # comps h2) = Some (File s2)"
    using 2(1) by (auto simp: blob_text_Some)
  obtain h3 where h3: "digest_hex (om_Digest (oci_Config o2)) = Ok h3" "plain h3"
    "img (''blobs'' # ''sha256'' # comps h3) = Some (File s3)"
    using 3(1) by (auto simp: blob_text_Some)
  note c = copy_dir_plain [OF assms(2), of operatorImageDir k]
  have cp: "plain ?c" "?c \<noteq> []" using c by (simp_all add: operatorImageDir_def comps_def)
  note read = succeeds_read_image [OF cp assms(3)]
  have blob: "plain (blobsDir @ ''/'' @ h)" "comps (blobsDir @ ''/'' @ h) = ''blobs'' # ''sha256'' # comps h"
    if "plain h" for h
    using that plain_append [of blobsDir h] comps_append [of blobsDir h]
    by (simp_all add: blobsDir_def) (simp_all add: plain_def comps_def)
  have index: "succeeds ?F (GetImageIndex ?c) (\<lambda>r w. r = Some o1 \<and> ?F w)"
    unfolding GetImageIndex_def
    by (rule read [OF _ _ 1(2)]) (simp_all add: 1(1) plain_def comps_def indexJson_def)
  have paths: "dir_path [gl_Dir (co_Global opts1), operatorImageDir, ?i, blobsDir, h] = ?c @ ''/'' @ (blobsDir @ ''/'' @ h)"
    "dir_path [gl_Dir (co_Global opts1), operatorImageDir, ?i, blobsDir] = ?c @ ''/'' @ blobsDir"
    "dir_path [gl_Dir (co_Global opts1), operatorImageExtractDir, ?i] = operator_extract_dir ?t" for h
    by (simp_all add: assms(5) dir_path_def copy_dir_def operator_extract_dir_def)
  have manifest: "succeeds ?F (GetImageManifest (?c @ ''/'' @ (blobsDir @ ''/'' @ h2))) (\<lambda>r w. r = Some o2 \<and> ?F w)"
    unfolding GetImageManifest_def by (rule read [OF _ _ 2(2)]) (simp_all only: blob h2)
  have config: "succeeds ?F (GetOperatorConfig (?c @ ''/'' @ (blobsDir @ ''/'' @ h3))) (\<lambda>r w. r = Some c \<and> ?F w)"
    unfolding GetOperatorConfig_def by (rule read [OF _ _ 3(2)]) (simp_all only: blob h3)
  have "list_all2 (layer_is gz (blobs_of img)) (oci_Layers o2) layers"
    using those_map [OF 4(1)] by (rule list_all2_mono) (rule layer_items_is)
  then have layers: "succeeds ?F (ExtractLayersOCI gz (?c @ ''/'' @ blobsDir) (operator_extract_dir ?t) ''/configs'' (Some o2))
      (\<lambda>_. at_dir d (extracted_tree N d i))"
    using succeeds_extract_layers [OF assms(1) _ _ operator_extract_plain [OF assms(2), of k] _ _ _ 4(2),
        of "?c @ ''/'' @ blobsDir" d i img o2] cp plain_append [of ?c blobsDir] place_append [OF cp(2), of d blobsDir]
    by (simp add: place_copy place_extract assms(3)) (simp add: plain_def comps_def blobsDir_def)
  have contents: "om_Digest (hd (oci_Manifests o1)) = om_Digest m" "oci_Manifests o1 \<noteq> []" using 1(3) by simp_all
  show ?thesis
    unfolding extract_operator_def Let_def paths Manifest_New_def manifest_iface.simps
    by (rule succeeds_bind [OF index], rule succeeds_when, hypsubst,
        simp only: deref_def option.case go_bind_lift contents 1(4) h2(1) simp_thms if_False,
        rule succeeds_seq [OF at_dir.succeeds_log(1)],
        rule succeeds_bind [OF manifest], rule succeeds_when, hypsubst,
        simp only: option.case go_bind_lift h3(1),
        rule succeeds_bind [OF config], rule succeeds_when, hypsubst,
        simp only: option.case go_bind_lift 3(3),
        rule succeeds_seq [OF at_dir.succeeds_log(1) layers])
qed

end
