(* ===== verification/Example.thy ===== *)
theory Example
  imports Rerun
begin

text \<open>
  A small operator index and an image library that serves it, to run the program on: the library
  writes an OCI layout with one layer into the directory it copies to, and the decoder reads the
  archive of that layer. The witnesses of the properties use them.
\<close>

section \<open>The image\<close>

text \<open>A text whose tildes stand for double quotes.\<close>

definition quoted :: "string \<Rightarrow> string" where
  "quoted s = map (\<lambda>c. if c = CHR ''~'' then CHR 0x22 else c) s"

definition demo_catalog :: string where
  "demo_catalog = quoted ''{~schema~:~olm.channel~,~name~:~stable~,~entries~:[{~name~:~foo.v2~,~skipRange~:~>=1 <2~}]}''"

definition demo_layout :: "(string list \<times> node) list" where
  "demo_layout =
     [([''index.json''], File (quoted ''{~manifests~:[{~digest~:~sha256:m~}]}'')),
      ([''blobs''], Dir), ([''blobs'', ''sha256''], Dir),
      ([''blobs'', ''sha256'', ''m''],
         File (quoted ''{~config~:{~digest~:~sha256:c~},~layers~:[{~digest~:~sha256:l~}]}'')),
      ([''blobs'', ''sha256'', ''c''],
         File (quoted ''{~config~:{~Labels~:{~operators.operatorframework.io.index.configs.v1~:~/configs~}}}'')),
      ([''blobs'', ''sha256'', ''l''], File ''layer'')]"

definition demo_gz :: gunzip where
  "demo_gz s =
     (if s = ''layer''
      then Inr [TarEntry ''configs/foo'' TypeDir [] None,
                TarEntry ''configs/foo/catalog.json'' TypeReg demo_catalog None]
      else Inl (Errorf ''gzip: invalid header'' []))"

section \<open>The library\<close>

definition put_layout :: "path \<Rightarrow> (string list \<times> node) list \<Rightarrow> world \<Rightarrow> world" where
  "put_layout q ls w = fold (\<lambda>(p, n). set_entry (q @ p) n) ls w"

definition demo_copy :: "string \<Rightarrow> world \<Rightarrow> (string list \<times> go_error option) \<times> world" where
  "demo_copy dest w =
    (let q = place (cwd w) (oci_dir dest) in
     if entry w q = Some Dir \<and> list_all (\<lambda>(p, n). entry w (q @ p) = None) demo_layout
     then (([''copied''], None), put_layout q demo_layout w)
     else (([], Some (Errorf ''no such directory'' [])), w))"

definition demo_lib :: image_lib where
  "demo_lib =
     \<lparr>il_TransportText = (\<lambda>_. ''transport''), il_ParseImageName = Inr,
      il_Policy = \<lparr>pl_DefaultPolicy = \<lambda>_. Inr (LoadedPolicy []),
        pl_NewPolicyFromFile = \<lambda>f _. Inr (LoadedPolicy f), pl_NewPolicyContext = Inr\<rparr>,
      il_Destroy = (\<lambda>_. None), il_isRetryable = (\<lambda>_. True),
      il_copy_Image = (\<lambda>_ _ dest _ _. demo_copy dest)\<rparr>"

definition demo_world :: world where
  "demo_world =
     \<lparr>fs = [([''home''], Dir)], cwd = [''home''], faults = (\<lambda>_ _. None), level = ''info'',
      stderr = [], stdout = [], net = [], clock = 0\<rparr>"

definition demo_opts :: "string \<Rightarrow> CopyOptions" where
  "demo_opts ref = new_CopyOptions
     (zero_GlobalOptions\<lparr>gl_InsecurePolicy := True, gl_LogLevel := ''info'', gl_Reference := ref\<rparr>)
     \<lparr>sh_authFilePath = []\<rparr> \<lparr>dt_tlsVerify = absent False\<rparr> zero_imageOptions zero_imageDestOptions
     \<lparr>re_MaxRetry = 0, re_Delay = 0\<rparr>"

section \<open>They meet the hypotheses\<close>

lemma put_layout_entry:
  "\<forall>p \<in> fst ` set ls. r \<noteq> q @ p \<Longrightarrow> entry (put_layout q ls w) r = entry w r"
  by (induction ls arbitrary: w) (auto simp: put_layout_def entry_set_entry)

lemma put_layout_fields [simp]:
  "cwd (put_layout q ls w) = cwd w" "faults (put_layout q ls w) = faults w"
  "net (put_layout q ls w) = net w"
  by (induction ls arbitrary: w) (auto simp: put_layout_def)

lemma demo_copy_changes: "changes_only (oci_region dest) w (snd (demo_copy dest w))"
proof -
  have "entry (put_layout (place (cwd w) (oci_dir dest)) ls w) q = entry w q"
    if "\<not> oci_region dest (cwd w) q" for q ls
    using that by (intro put_layout_entry) (auto simp: oci_region_def)
  then show ?thesis by (simp add: changes_only_def demo_copy_def Let_def)
qed

text \<open>A layout that puts every entry into a directory it has made.\<close>

fun layout_ok :: "string list list \<Rightarrow> (string list \<times> node) list \<Rightarrow> bool" where
  "layout_ok ds [] = True"
| "layout_ok ds ((p, n) # ls) =
     (p \<noteq> [] \<and> butlast p \<in> set ds \<and> p \<notin> fst ` set ls \<and> layout_ok (if n = Dir then p # ds else ds) ls)"

lemma put_layout_wf:
  assumes "layout_ok ds ls" "\<And>d. d \<in> set ds \<Longrightarrow> entry w (q @ d) = Some Dir"
    and "\<And>p. p \<in> fst ` set ls \<Longrightarrow> entry w (q @ p) = None"
  shows "keeps_wf w (put_layout q ls w)"
  using assms
proof (induction ds ls arbitrary: w rule: layout_ok.induct)
  case (1 ds)
  then show ?case by (simp add: put_layout_def wf.refl)
next
  case (2 ds p n ls)
  let ?w = "set_entry (q @ p) n w"
  have none: "entry w (q @ p) = None" using 2(4) by simp
  moreover have "entry w (butlast (q @ p)) = Some Dir" using 2(2,3) by (simp add: butlast_append)
  ultimately have step: "keeps_wf w ?w" by (intro keeps_wf_set_entry) simp_all
  have new: "p \<notin> set ds" using 2(3) [of p] none by auto
  have "keeps_wf ?w (put_layout q ls ?w)"
  proof (rule 2(1))
    show "layout_ok (if n = Dir then p # ds else ds) ls" using 2(2) by simp
    show "entry ?w (q @ d) = Some Dir" if "d \<in> set (if n = Dir then p # ds else ds)" for d
      using that 2(2-4) new by (auto simp: entry_set_entry split: if_splits)
    show "entry ?w (q @ p') = None" if "p' \<in> fst ` set ls" for p'
      using that 2(2,4) by (auto simp: entry_set_entry)
  qed
  then show ?case using wf.trans [OF step] by (simp add: put_layout_def)
qed

lemma demo_copy_wf: "keeps_wf w (snd (demo_copy dest w))"
proof -
  have "layout_ok [[]] demo_layout" by (simp add: demo_layout_def)
  then have "keeps_wf w (put_layout q demo_layout w)"
    if "entry w q = Some Dir" "list_all (\<lambda>(p, n). entry w (q @ p) = None) demo_layout" for q
    using that by (intro put_layout_wf) (auto simp: list_all_iff)
  then show ?thesis by (simp add: demo_copy_def Let_def wf.refl)
qed

text \<open>It writes below its destination only.\<close>

lemma demo_lib_writes: "library_writes R demo_lib"
proof -
  have "lib_keeps (changes_only (lib_region R dest)) demo_lib dest" for dest
    using changes_only_mono [OF demo_copy_changes]
    by (simp add: lib_keeps_def demo_lib_def lib_region_def)
  moreover have "net (snd (demo_copy d w)) = net w" for d w by (simp add: demo_copy_def Let_def)
  ultimately show ?thesis using demo_copy_wf by (simp add: library_writes_def) (simp add: demo_lib_def)
qed

lemma demo_lib_trusted: "trusted_lib demo_lib"
  by (simp add: trusted_lib_def demo_lib_writes)

lemma demo_gz_plain: "archives_plain demo_gz"
  by (simp add: archives_plain_def demo_gz_def names_plain_def plain_def comps_def)

lemma demo_world_wf: "fs_wf demo_world"
  by (simp add: fs_wf_def entry_def demo_world_def)

definition demo_ref :: string where "demo_ref = ''q/operator-index:v4''"

lemma demo_accepted: "accepted (demo_opts demo_ref) [''operator'']"
  by (simp add: accepted_def demo_opts_def new_CopyOptions_def demo_ref_def)

lemma demo_rejected: "\<not> accepted (demo_opts demo_ref) [''release'']"
  by (simp add: accepted_def demo_opts_def new_CopyOptions_def demo_ref_def)

lemma demo_ref_plain: "plain (image_index_dir (gl_Reference (co_Global (demo_opts demo_ref))))"
  by code_simp

lemma demo_no_faults: "faults demo_world op q \<noteq> Some e"
  by (simp add: demo_world_def)

lemma demo_release:
  "gl_Reference (co_Global (demo_opts ''q/release:v4'')) = ''q/release:v4''"
  "Contains ''q/release:v4'' ''release''" "plain (image_index_dir ''q/release:v4'')"
  "entry demo_world (place (cwd demo_world)
     (copy_dir (set_target ''release'' (demo_opts ''q/release:v4'')) releaseImageExtractDir)) = None"
  by code_simp+

lemma demo_line:
  "is_ok (ParseFlags command_flags [''--dest-tls-verify'', ''operator'', ''--loglevel=debug''] (command_options []))"
  by code_simp

text \<open>A run on the empty cache.\<close>

lemma demo_run:
  "fst (command_run demo_gz demo_lib (demo_opts demo_ref) [''operator''] demo_world) = Ok 0"
  "level (snd (command_run demo_gz demo_lib (demo_opts demo_ref) [''operator''] demo_world)) = ''info''"
  "entry (snd (command_run demo_gz demo_lib (demo_opts demo_ref) [''operator''] demo_world))
     [''home'', ''working-dir'', ''hold-operators'', ''operator-index'', ''v4'', ''configs''] = Some Dir"
  "p \<in> {[''home'', ''working-dir'', ''operator-images''], [''home'', ''working-dir'', ''release-images'']} \<Longrightarrow>
     entry (snd (command_run demo_gz demo_lib (demo_opts demo_ref) [''operator''] demo_world)) p = Some Dir"
proof -
  have "(case command_run demo_gz demo_lib (demo_opts demo_ref) [''operator''] demo_world of
      (r, w) \<Rightarrow> r = Ok 0 \<and> level w = ''info'' \<and>
        entry w [''home'', ''working-dir'', ''hold-operators'', ''operator-index'', ''v4'', ''configs''] = Some Dir \<and>
        entry w [''home'', ''working-dir'', ''operator-images''] = Some Dir \<and>
        entry w [''home'', ''working-dir'', ''release-images''] = Some Dir)"
    by code_simp
  then show "fst (command_run demo_gz demo_lib (demo_opts demo_ref) [''operator''] demo_world) = Ok 0"
    "level (snd (command_run demo_gz demo_lib (demo_opts demo_ref) [''operator''] demo_world)) = ''info''"
    "entry (snd (command_run demo_gz demo_lib (demo_opts demo_ref) [''operator''] demo_world))
       [''home'', ''working-dir'', ''hold-operators'', ''operator-index'', ''v4'', ''configs''] = Some Dir"
    "p \<in> {[''home'', ''working-dir'', ''operator-images''], [''home'', ''working-dir'', ''release-images'']} \<Longrightarrow>
     entry (snd (command_run demo_gz demo_lib (demo_opts demo_ref) [''operator''] demo_world)) p = Some Dir"
    by (auto simp: split_beta)
qed

end
