(* ===== verification/Sessions.thy ===== *)
theory Sessions
  imports Rerun
begin

text \<open>
  Runs of the command one after the other: a session is any sequence of runs, each with its own
  options, arguments and image library. What every run keeps, a session keeps; so the catalogs one
  run has put into the cache are there for every later one.
\<close>

section \<open>Sequences of runs\<close>

inductive session :: "gunzip \<Rightarrow> world \<Rightarrow> world \<Rightarrow> bool" for gz :: gunzip where
  session_start: "session gz w w"
| session_run: "session gz w v \<Longrightarrow> trusted_lib lib \<Longrightarrow> args \<noteq> [] \<Longrightarrow>
    plain (image_index_dir (gl_Reference (co_Global opts))) \<Longrightarrow>
    command_run gz lib opts args v = (r, v') \<Longrightarrow> session gz w v'"

lemma session_trans:
  assumes "session gz w2 w3" "session gz w1 w2"
  shows "session gz w1 w3"
  using assms by (induction rule: session.induct) (auto intro: session_run)

lemma session_once:
  "trusted_lib lib \<Longrightarrow> args \<noteq> [] \<Longrightarrow> plain (image_index_dir (gl_Reference (co_Global opts))) \<Longrightarrow>
     session gz w (snd (command_run gz lib opts args w))"
  by (rule session_run [OF session_start _ _ _ prod.collapse [symmetric]])

text \<open>A relation that every run keeps holds between the ends of a session.\<close>

lemma session_keeps:
  assumes "session gz w v" "world_relation R"
    and "\<And>lib opts args. trusted_lib lib \<Longrightarrow> args \<noteq> [] \<Longrightarrow>
      plain (image_index_dir (gl_Reference (co_Global opts))) \<Longrightarrow> keeps R (command_run gz lib opts args)"
  shows "R w v"
  using assms(1)
proof (induction rule: session.induct)
  case (session_start w)
  show ?case by (rule world_relation.refl [OF assms(2)])
next
  case (session_run w v lib args opts r v')
  have "R v v'" by (rule keepsD [OF assms(3) session_run(5)]) fact+
  then show ?case by (rule world_relation.trans [OF assms(2) session_run.IH])
qed

section \<open>What is in the cache stays there\<close>

lemma operator_cache_region:
  "kind \<in> {operatorImageDir, releaseImageDir} \<Longrightarrow>
     \<not> lib_region elsewhere (ociProtocolTrimmed @ copy_dir (set_target k opts2) kind) d
        (place d (operator_extract_dir (set_target k2 opts)))"
proof -
  assume kind: "kind \<in> {operatorImageDir, releaseImageDir}"
  have "oci_dir (ociProtocolTrimmed @ copy_dir (set_target k opts2) kind) = copy_dir (set_target k opts2) kind"
    using kind by (intro oci_dir_oci copy_dir_no_colon) (auto simp: releaseImageDir_def operatorImageDir_def)
  then show ?thesis
    using kind place_copy_dir [OF in_working_dir_target, of kind d k opts2]
      place_copy_dir [OF in_working_dir_target, of operatorImageExtractDir d k2 opts]
    by (auto simp: lib_region_def oci_region_def program_place_def operator_extract_dir_def operatorImageExtractDir_def
        releaseImageDir_def operatorImageDir_def)
qed

lemma command_keeps_cache:
  assumes "trusted_lib lib" "args \<noteq> []"
  shows "keeps (keeps_dir d (place d (operator_extract_dir (set_target k opts)))) (command_run gz lib opts2 args)"
    (is "keeps (keeps_dir d ?q) _")
proof (rule stays_dir.keeps_command [OF _ _ assms(2)])
  show "keeps_dir d ?q w v" if "same_files w v" for w v
    using that same_files_entry [OF that] by (simp add: keeps_dir_def same_files_def)
  show "keeps (keeps_dir d ?q) (Executor_Run ex)" if "ex = completed gz lib opts2 (hd args)" for ex
    unfolding that
  proof (rule keeps_run_prelude [OF stays_dir.world_relation_axioms])
    show "keeps_dir d ?q w v" if "prelude w v" for w v
      using that operator_cache_outside [of d k opts] by (auto simp: prelude_def changes_only_def keeps_dir_def)
    show "keeps (keeps_dir d ?q) (Collector_Collect (the_collector gz lib (set_target (hd args) opts2)))"
      unfolding the_collector_def
      by (intro imageindex.collect_keeps_dir [OF trusted_writes [OF assms(1)]] operator_cache_region) simp_all
  qed
qed

lemma session_keeps_cache:
  "session gz w v \<Longrightarrow> keeps_dir d (place d (operator_extract_dir (set_target k opts))) w v"
  by (erule session_keeps [OF _ stays_dir.world_relation_axioms]) (rule command_keeps_cache)

lemma session_wf: "session gz w v \<Longrightarrow> keeps_wf w v"
  by (erule session_keeps [OF _ wf.world_relation_axioms]) (rule command_wf [OF trusted_writes])

lemma session_cached:
  assumes "session gz w v" "cached (set_target k opts) w"
  shows "cached (set_target k opts) v"
  using session_keeps_cache [OF assms(1), of "cwd w" k opts] session_wf [OF assms(1)] assms(2)
  by (auto simp: cached_def keeps_dir_def keeps_wf_def)

end
