(* ===== verification/Fresh.thy ===== *)
theory Fresh
  imports Fetching Example Sessions
begin

text \<open>
  Runs that succeed: the steps every run takes before its collection, proved once over the conditions
  on the tree they keep (the locale \<open>run_state\<close>), and two of its instances, the run that finds the
  catalogs in the cache and the run that fetches them.
\<close>

section \<open>The listing\<close>

lemma go_seq_fst_Ok: "fst (m w) = Ok () \<Longrightarrow> go_seq m k w = k (snd (m w))"
  by (cases "m w") (simp add: go_seq_def go_bind_def)

lemma list_operator_Ok: "fst (list_operator (Manifest_New gz) d name w) = Ok ()"
proof -
  let ?v = "snd (log_Info (esc # ''[1;95m %s '' @ esc # ''[0m'') [FStr name] w)"
  have "fst (ListCatalogs d name ?v) \<noteq> Panic x" for x using ListCatalogs_safe by (simp add: no_panic_def)
  then show ?thesis unfolding list_operator_def go_seq_fst_Ok [OF log_methods_Ok(2)]
    by (cases "ListCatalogs d name ?v"; cases "fst (ListCatalogs d name ?v)")
      (auto simp: go_try_def Manifest_New_def log_methods_Ok go_return_def)
qed

lemma succeeds_list_operators:
  assumes "plain (image_index_dir (gl_Reference (co_Global opts)))" "i = image_comps opts"
    and "N [''configs''] = Some Dir" "co_Global opts1 = co_Global (set_target k opts)"
  shows "succeeds (at_dir d (extracted_tree N d i)) (list_operators (Manifest_New gz) opts1
      (image_index_dir (gl_Reference (co_Global opts))) ''/configs'') (\<lambda>_. at_dir d (extracted_tree N d i))"
proof -
  let ?P = "at_dir d (extracted_tree N d i)" and ?i = "image_index_dir (gl_Reference (co_Global opts))"
  let ?p = "operator_extract_dir (set_target k opts) @ ''/'' @ ''/configs''"
  note p = operator_extract_plain [OF assms(1), of k]
  have path: "dir_path [gl_Dir (co_Global opts1), operatorImageExtractDir, ?i, ''/configs''] = ?p"
    by (simp add: assms(4) dir_path_def copy_dir_def operator_extract_dir_def)
  have q: "plain ?p" "?p \<noteq> []" "place d ?p = extract_place d i @ [''configs'']"
    using p plain_append [of "operator_extract_dir (set_target k opts)" "''/configs''"]
      place_append [OF p(2), of d "''/configs''"] assms(2)
    by (simp_all add: place_extract) (simp_all add: plain_def comps_def)
  have reads: "succeeds ?P (go_read (os_ReadDir ?p)) (\<lambda>_. ?P)"
  proof (rule succeeds_read)
    fix w assume w: "?P w"
    then have "entry w (place (cwd w) ?p) = Some Dir" using q(3) assms(3) by (simp add: at_dir_def extracted_tree_def)
    then show "\<exists>files. os_ReadDir ?p w = Ok files \<and> ?P w"
      using w os_ReadDir_calm [OF _ q(1,2), of w] by (simp add: at_dir_def)
  qed
  have "keeps same_files (list_operator (Manifest_New gz) ?p name)" for name
    unfolding list_operator_def Manifest_New_def manifest_iface.simps
    by (intro same_files.keeps_seq same_files.keeps_try log_same_files keeps_log_only(1) [OF ListCatalogs_log_only])
      (auto simp: log_same_files same_files.keeps_return split: sum.split)
  then have "succeeds ?P (list_operator (Manifest_New gz) ?p name) (\<lambda>_. ?P)" for name
    by (rule succeeds_keep [OF _ at_dir.same_files_stable]) (simp add: list_operator_Ok)
  then show ?thesis unfolding list_operators_def Let_def path
    by (intro succeeds_bind [OF reads] succeeds_seq [OF at_dir.succeeds_log(2)] succeeds_for)
qed

section \<open>The steps of a run\<close>

text \<open>The directories a run makes; a tree without what is below a place.\<close>

definition run_dirs :: "path \<Rightarrow> path set" where
  "run_dirs d = {d @ [''working-dir''], d @ [''logs''], d @ [''working-dir'', ''release-images''],
     d @ [''working-dir'', ''operator-images'']}"

definition without :: "path \<Rightarrow> tree \<Rightarrow> tree" where
  "without q M r = (if prefix q r then None else M r)"

lemma no_file_above_add_dirs: "no_file_above x M \<Longrightarrow> no_file_above x (add_dirs q M)"
  by (simp add: no_file_above_iff add_dirs_def)

lemma no_file_above_prefix: "no_file_above x M \<Longrightarrow> prefix q x \<Longrightarrow> no_file_above q M"
  unfolding no_file_above_iff by (blast intro: prefix_order.trans)

lemma no_file_above_without: "no_file_above x M \<Longrightarrow> no_file_above x (without q M)"
  by (simp add: no_file_above_iff without_def)

lemma os_Create_log:
  assumes "cwd w = d" "os_Create logsFile w = (r, w1)"
  shows "but_at (log_place d) w w1" "r = Ok f \<Longrightarrow> snd f = log_place d"
proof -
  have q: "place d logsFile = log_place d" for d by (simp add: place_def HasPrefix_def logsFile_def comps_def)
  have "changes_only (\<lambda>d q. q = log_place d) w w1"
    by (rule keepsD [OF os_Create_changes [OF logsFile_plain] assms(2)]) (simp add: q)
  moreover have "keeps_wf w w1" by (rule keepsD [OF os_Create_wf assms(2)])
  ultimately show "but_at (log_place d) w w1" using assms(1) by (simp add: changes_only_def but_at_def keeps_wf_def)
  show "snd f = log_place d" if "r = Ok f"
    using os_Create_Ok [of logsFile w f w1] assms that locate_plain [OF logsFile_plain] q by auto
qed

text \<open>
  A condition on the tree with which a run gets to its collection: it does not look at the log file,
  leaves room for the directories of the cache, and holds when they are made and the logs cleared.
\<close>

locale run_state =
  fixes d :: path and F :: "tree \<Rightarrow> bool"
  assumes beside_log: "(\<And>r. r \<noteq> log_place d \<Longrightarrow> M' r = M r) \<Longrightarrow> F M \<Longrightarrow> F M'"
    and room: "F M \<Longrightarrow> q \<in> run_dirs d \<Longrightarrow> q \<noteq> d @ [''logs''] \<Longrightarrow> no_file_above q M"
    and made: "F M \<Longrightarrow> q \<in> run_dirs d \<Longrightarrow> F (add_dirs q M)"
    and cleared: "F M \<Longrightarrow> F (without (d @ [''logs'']) M)"
begin

lemma beside: "beside_file (log_place d) (at_dir d F)"
  by (rule at_dir_beside) (simp, rule beside_log)

lemma succeeds_clear:
  assumes "plain p" "p \<noteq> []" "place d p = d @ [''logs'']"
  shows "succeeds (at_dir d F) (os_RemoveAll p)
    (\<lambda>_. at_dir d (\<lambda>M. F M \<and> no_file_above (d @ [''logs'']) M))"
proof -
  let ?G = "\<lambda>M. F M \<and> (\<forall>r. prefix r d \<longrightarrow> M r = Some Dir)"
  have up: "at_dir d ?G w" if w: "at_dir d F w" for w
  proof -
    have "entry w r = Some Dir" if "prefix r d" for r
      using w that calm_up [of w d r] by (cases "r = d") (auto simp: at_dir_def calm_def)
    then show ?thesis using w by (simp add: at_dir_def)
  qed
  have "no_file_above (d @ [''logs'']) (without (d @ [''logs'']) M)" if "?G M" for M
    using that by (auto simp: no_file_above_iff without_def)
  then have "succeeds (at_dir d ?G) (os_RemoveAll p)
      (\<lambda>_. at_dir d (\<lambda>M. F M \<and> no_file_above (d @ [''logs'']) M))"
    using cleared
    by (intro succeeds_RemoveAll [OF assms(1,2)], unfold assms(3) without_def [symmetric]) simp_all
  then show ?thesis using up by (rule succeeds_cons)
qed

lemma succeeds_Collect:
  assumes "\<And>f. writer_at (log_place d) (bufio_NewWriter f) \<Longrightarrow>
    succeeds (at_dir d F) (collect_with o' (bufio_NewWriter f)) Q"
  shows "succeeds (at_dir d F) (Collector_Collect o') Q"
proof (rule succeedsI)
  let ?P = "at_dir d F"
  have rest: "succeeds ?P (collect_with o' (bufio_NewWriter f)) Q" if "\<forall>h. f = Some h \<longrightarrow> snd h = log_place d" for f
    using that by (intro assms) (simp add: writer_at_def bufio_NewWriter_def)
  fix w assume w: "?P w"
  obtain r w1 where create: "os_Create logsFile w = (r, w1)" by fastforce
  note log = os_Create_log [OF _ create, of d]
  have "but_at (log_place d) w w1" using log(1) w by (simp add: at_dir_def)
  then have 1: "?P w1" using beside_file.but_at_stable [OF beside] w unfolding stable_def by blast
  show "\<exists>a v. Collector_Collect o' w = (Ok a, v) \<and> Q a v"
  proof (cases r)
    case (Ok f)
    then show ?thesis using succeedsD [OF rest [of "Some f"] 1] create log(2) w
      by (simp add: Collect_run at_dir_def)
  next
    case (Err e)
    have "?P (snd (log_Error errMsg [FErr e] w1))"
      using succeedsD [OF at_dir.succeeds_log(4) 1, of errMsg "[FErr e]"] by auto
    then show ?thesis using succeedsD [OF rest [of None]] create Err by (simp add: Collect_run)
  next
    case (Panic x)
    then show ?thesis using create os_Create_safe [of logsFile] by (auto dest: no_panicD)
  qed
qed

lemma succeeds_run:
  assumes "succeeds (at_dir d F) (Collector_Collect (the_collector gz lib (set_target k opts))) Q"
  shows "succeeds (at_dir d F) (Executor_Run (completed gz lib opts k)) Q"
proof -
  have dirs: "place d logsDir = d @ [''logs'']" "place d workingDir = d @ [''working-dir'']"
    "place d (workingDir @ ''/'' @ cliReleaseImageDir) = d @ [''working-dir'', ''release-images'']"
    "place d (workingDir @ ''/'' @ cliOperatorImageDir) = d @ [''working-dir'', ''operator-images'']" for d
    by (simp_all add: place_def HasPrefix_def comps_def logsDir_def workingDir_def cliReleaseImageDir_def
        cliOperatorImageDir_def)
  have plain: "plain logsDir" "plain workingDir" "plain (workingDir @ ''/'' @ cliReleaseImageDir)"
    "plain (workingDir @ ''/'' @ cliOperatorImageDir)"
    by (simp_all add: plain_def comps_def logsDir_def workingDir_def cliReleaseImageDir_def cliOperatorImageDir_def)
  have ne: "logsDir \<noteq> []" "workingDir \<noteq> []" by (simp_all add: logsDir_def workingDir_def)
  let ?P = "at_dir d F"
  let ?L = "at_dir d (\<lambda>M. F M \<and> no_file_above (d @ [''logs'']) M)"
  have clear: "succeeds ?P (ignore_error (os_RemoveAll logsDir)) (\<lambda>_. ?L)"
    unfolding ignore_error_def
    by (rule succeeds_try [OF succeeds_clear [OF plain(1) ne(1) dirs(1)]]) (simp add: succeeds_return)
  have mkdir: "succeeds ?P (os_MkdirAll p) (\<lambda>_. ?P)"
    if "plain p" "p \<noteq> []" "place d p \<in> run_dirs d" "place d p \<noteq> d @ [''logs'']" for p
    by (rule succeeds_MkdirAll [OF that(1,2)]) (use that(3,4) made room in blast)+
  have work: "succeeds ?L (os_MkdirAll workingDir) (\<lambda>_. ?L)"
    by (rule succeeds_MkdirAll [OF plain(2) ne(2)], unfold dirs)
      (auto intro: made room no_file_above_add_dirs simp: run_dirs_def)
  have logs: "succeeds ?L (os_MkdirAll logsDir) (\<lambda>_. ?P)"
    by (rule succeeds_MkdirAll [OF plain(1) ne(1)]) (simp_all add: dirs made run_dirs_def)
  have caches: "succeeds ?P (os_MkdirAll (workingDir @ ''/'' @ cliReleaseImageDir)) (\<lambda>_. ?P)"
    "succeeds ?P (os_MkdirAll (workingDir @ ''/'' @ cliOperatorImageDir)) (\<lambda>_. ?P)"
    using mkdir [OF plain(3)] mkdir [OF plain(4)] unfolding dirs by (simp_all add: run_dirs_def ne)
  show ?thesis
    unfolding Executor_Run_def Let_def completed_simps NewDirectory_def MakeDir_def deref_def option.case go_bind_lift
      set_target_simps
    by (intro succeeds_seq [OF clear] succeeds_or_log [OF work] succeeds_or_log [OF logs]
        succeeds_seq [OF at_dir.succeeds_log(3)] succeeds_or_log [OF caches(1)] succeeds_or_log [OF caches(2)]
        assms)
qed

text \<open>The same for the command.\<close>

lemma command_succeeds:
  assumes "accepted opts args" "calm w" "cwd w = d" "F (entry w)"
    and "succeeds (at_dir d F) (Collector_Collect (the_collector gz lib (set_target (hd args) opts))) (\<lambda>_. Q)"
  shows "\<exists>w'. command_run gz lib opts args w = (Ok 0, w') \<and> Q w'"
proof -
  have "same_files w (started opts args w)" by (simp add: same_files_def)
  then have "at_dir d F (started opts args w)"
    using at_dir.same_files_stable assms(2-4) unfolding stable_def at_dir_def by blast
  then show ?thesis
    using succeedsD [OF succeeds_run [OF assms(5)]] by (fastforce simp: command_run_accepted [OF assms(1)])
qed

end

section \<open>A run with the catalogs in the cache\<close>

text \<open>The catalogs \<open>N\<close> are in the cache, and there is room for the directories of a run.\<close>

definition cached_tree :: "tree \<Rightarrow> path \<Rightarrow> string list \<Rightarrow> tree \<Rightarrow> bool" where
  "cached_tree N d i M \<longleftrightarrow> extracted_tree N d i M \<and> N [''configs''] = Some Dir \<and>
     no_file_above (d @ [''working-dir'', ''release-images'']) M \<and>
     no_file_above (d @ [''working-dir'', ''operator-images'']) M"

lemma no_file_above_beside:
  "(\<And>r. r \<noteq> log_place d \<Longrightarrow> M' r = M r) \<Longrightarrow> no_file_above (d @ ''working-dir'' # p) M' =
     no_file_above (d @ ''working-dir'' # p) M"
proof -
  assume same: "\<And>r. r \<noteq> log_place d \<Longrightarrow> M' r = M r"
  have "M' r = M r" if "prefix r (d @ ''working-dir'' # p)" for r
    by (rule same) (use that in \<open>auto simp: prefix_append\<close>)
  then show ?thesis by (auto simp: no_file_above_iff)
qed

lemma run_dirs_room:
  assumes "no_file_above (d @ [''working-dir'', ''release-images'']) M"
    and "no_file_above (d @ [''working-dir'', ''operator-images'']) M" "q \<in> run_dirs d" "q \<noteq> d @ [''logs'']"
  shows "no_file_above q M"
  using assms no_file_above_prefix [OF assms(1), of "d @ [''working-dir'']"] by (auto simp: run_dirs_def)

lemma run_dirs_other:
  "q \<in> run_dirs d \<Longrightarrow> \<not> prefix (extract_place d i @ p) q"
  "q \<in> run_dirs d \<Longrightarrow> p \<noteq> [] \<Longrightarrow> \<not> prefix (copy_place d i @ p) q"
  by (auto simp: run_dirs_def place_defs)

interpretation warm_run: run_state d "cached_tree N d i" for N d i
proof
  show "cached_tree N d i M'" if same: "\<And>r. r \<noteq> log_place d \<Longrightarrow> M' r = M r" and M: "cached_tree N d i M" for M M'
    using M same no_file_above_beside [of d M' M] by (simp add: cached_tree_def extracted_tree_def place_defs)
  show "no_file_above q M" if "cached_tree N d i M" "q \<in> run_dirs d" "q \<noteq> d @ [''logs'']" for M q
    using that run_dirs_room by (auto simp: cached_tree_def)
  show "cached_tree N d i (add_dirs q M)" if "cached_tree N d i M" "q \<in> run_dirs d" for M q
    using that run_dirs_other(1)
    by (simp add: cached_tree_def extracted_tree_def no_file_above_add_dirs) (simp add: add_dirs_def)
  show "cached_tree N d i (without (d @ [''logs'']) M)" if "cached_tree N d i M" for M
    using that by (simp add: cached_tree_def extracted_tree_def no_file_above_without) (simp add: without_def place_defs)
qed

lemma warm_collects:
  assumes "plain (image_index_dir (gl_Reference (co_Global opts)))" "i = image_comps opts"
    and "asks ''operator'' (set_target k opts)" "\<not> asks ''release'' (set_target k opts)"
  shows "succeeds (at_dir d (cached_tree N d i)) (Collector_Collect (the_collector gz lib (set_target k opts)))
    (\<lambda>_. at_dir d (extracted_tree N d i))"
proof (rule warm_run.succeeds_Collect)
  fix f
  let ?t = "set_target k opts" and ?i = "image_index_dir (gl_Reference (co_Global opts))"
  let ?P = "at_dir d (cached_tree N d i)" and ?Q = "at_dir d (extracted_tree N d i)"
  have cacheDir: "dir_path [gl_Dir (co_Global ?t), operatorImageExtractDir, ?i] = operator_extract_dir ?t"
    by (simp add: copy_dir_def operator_extract_dir_def)
  have there: "\<not> missing (operator_extract_dir ?t) w \<and> N [''configs''] = Some Dir \<and> ?Q w" if w: "?P w" for w
  proof -
    have N: "N [''configs''] = Some Dir" "\<And>p. entry w (extract_place (cwd w) i @ p) = N p" "calm w"
      using w by (auto simp: at_dir_def cached_tree_def extracted_tree_def)
    have "entry w (extract_place (cwd w) i @ [''configs'']) = Some Dir" using N by simp
    then have "entry w (extract_place (cwd w) i) = Some Dir" using calm_up [OF N(3)] by fastforce
    then have "\<not> missing (operator_extract_dir ?t) w"
      using os_Stat_calm [OF N(3) operator_extract_plain [OF assms(1), of k]]
      by (simp add: place_extract assms(2) missing_def)
    then show ?thesis using w N(1) by (simp add: at_dir_def cached_tree_def)
  qed
  have look: "succeeds ?P (if_missing (operator_extract_dir ?t) m (go_return ?t))
      (\<lambda>a w. (a = ?t \<and> N [''configs''] = Some Dir) \<and> ?Q w)" for m
    using there by (simp add: succeeds_def if_missing_def go_bind_def go_read_def go_return_def)
  have lists: "succeeds ?Q (list_operators (Manifest_New gz) ?t ?i ''/configs'') (\<lambda>_. ?Q)" if "N [''configs''] = Some Dir"
    using that assms(1,2) by (intro succeeds_list_operators) simp_all
  have "succeeds ?P (collect_operator (the_collector gz lib ?t) (bufio_NewWriter f) ?i ''/configs'')
      (\<lambda>a w. a = ?t \<and> ?Q w)"
    unfolding collect_operator_def Let_def the_collector_simps cacheDir
  proof (rule succeeds_bind [OF look], rule succeeds_when)
    fix opts1 assume a: "opts1 = ?t \<and> N [''configs''] = Some Dir"
    show "succeeds ?Q (go_seq (list_operators (Manifest_New gz) opts1 ?i ''/configs'') (go_return opts1)) (\<lambda>a w. a = ?t \<and> ?Q w)"
      using succeeds_seq [OF lists, of "go_return ?t" "\<lambda>a w. a = ?t \<and> ?Q w"] a by (simp add: succeeds_return)
  qed
  then show "succeeds ?P (collect_with (the_collector gz lib ?t) (bufio_NewWriter f)) (\<lambda>_. ?Q)"
    unfolding collect_with_def Let_def the_collector_simps set_target_simps(3) using assms(3,4)
    by (simp only: asks_def if_True, elim succeeds_bind, intro succeeds_when) (simp add: succeeds_return)
qed

lemma cached_run:
  assumes "accepted opts args" "hd args = ''operator''" "calm w"
    and "cached_tree N (cwd w) (image_comps opts) (entry w)"
    and "plain (image_index_dir (gl_Reference (co_Global opts)))"
  shows "\<exists>w'. command_run gz lib opts args w = (Ok 0, w') \<and>
    at_dir (cwd w) (extracted_tree N (cwd w) (image_comps opts)) w'"
proof -
  have asks: "asks ''operator'' (set_target (hd args) opts)" "\<not> asks ''release'' (set_target (hd args) opts)"
    unfolding assms(2) by (simp_all add: asks_def)
  show ?thesis
    by (rule warm_run.command_succeeds [OF assms(1,3) HOL.refl assms(4) warm_collects [OF assms(5) HOL.refl asks]])
qed

section \<open>A run that fetches the image\<close>

text \<open>What the run needs of the library and of the image.\<close>

definition serves :: "gunzip \<Rightarrow> image_lib \<Rightarrow> CopyOptions \<Rightarrow> tree \<Rightarrow> bool" where
  "serves gz lib opts img \<longleftrightarrow> trusted_lib lib \<and> archives_plain gz \<and>
     copyable lib opts (dockerProtocol @ gl_Reference (co_Global opts)) \<and>
     delivers lib (ociProtocolTrimmed @ copy_dir opts operatorImageDir) img"

lemma succeeds_if_missing:
  "succeeds P m Q \<Longrightarrow> (\<And>w. P w \<Longrightarrow> missing p w) \<Longrightarrow> succeeds P (if_missing p m k) Q"
  by (simp add: succeeds_def if_missing_def go_bind_def go_read_def)

lemma succeeds_collect_operator:
  assumes "serves gz lib (set_target k opts) img" "plain (image_index_dir (gl_Reference (co_Global opts)))"
    and "image_catalogs gz img = Some N" "N [''configs''] = Some Dir"
    and "writer_at (log_place d) (bufio_NewWriter f)" "i = image_comps opts"
  shows "succeeds (at_dir d (fresh_tree d i)) (collect_operator (the_collector gz lib (set_target k opts))
      (bufio_NewWriter f) (image_index_dir (gl_Reference (co_Global opts))) ''/configs'')
    (\<lambda>opts1 w. opts1 = with_RemoveSignatures (set_target k opts) \<and> at_dir d (extracted_tree N d i) w)"
proof -
  let ?t = "set_target k opts" and ?i = "image_index_dir (gl_Reference (co_Global opts))"
  let ?r = "with_RemoveSignatures (set_target k opts)"
  have globals: "co_Global ?r = co_Global ?t" by (simp add: with_RemoveSignatures_def)
  have dirs: "dir_path [gl_Dir (co_Global ?t), operatorImageDir, ?i] = copy_dir ?t operatorImageDir"
    "dir_path [gl_Dir (co_Global ?t), operatorImageExtractDir, ?i] = operator_extract_dir ?t"
    by (simp_all add: copy_dir_def operator_extract_dir_def)
  have copies: "succeeds (at_dir d (fresh_tree d i)) (copy_image (Mirror_New lib (CopyImage lib)) ?t
      (bufio_NewWriter f) (copy_dir ?t operatorImageDir)) (\<lambda>a w. a = ?r \<and> at_dir d (copied_tree img d i) w)"
    by (rule succeeds_copy_image [OF _ assms(2) _ _ assms(5,6)]) (use assms(1) in \<open>simp_all add: serves_def\<close>)
  have extracts: "succeeds (at_dir d (copied_tree img d i)) (extract_operator (Manifest_New gz) ?r
      (copy_dir ?t operatorImageDir) ?i) (\<lambda>_. at_dir d (extracted_tree N d i))"
    by (rule succeeds_extract_operator [OF _ assms(2,6,3) globals]) (use assms(1) in \<open>simp add: serves_def\<close>)
  have fetch: "succeeds (at_dir d (fresh_tree d i)) (fetch_operator (the_collector gz lib ?t) (bufio_NewWriter f) ?i)
      (\<lambda>a w. a = ?r \<and> at_dir d (extracted_tree N d i) w)"
    unfolding fetch_operator_def Let_def the_collector_simps dirs
    by (rule succeeds_bind [OF copies], rule succeeds_when, rule succeeds_seq, simp only:, rule extracts)
      (simp add: succeeds_return)
  have absent: "missing (operator_extract_dir ?t) w" if w: "at_dir d (fresh_tree d i) w" for w
    using operator_extract_plain [OF assms(2), of k] w assms(6)
    by (intro missing_calm) (simp_all add: at_dir_def place_extract tree_defs)
  have "succeeds (at_dir d (fresh_tree d i)) (if_missing (operator_extract_dir ?t)
      (fetch_operator (the_collector gz lib ?t) (bufio_NewWriter f) ?i) (go_return ?t))
      (\<lambda>a w. a = ?r \<and> at_dir d (extracted_tree N d i) w)"
    by (rule succeeds_if_missing [OF fetch absent])
  moreover have "succeeds (at_dir d (extracted_tree N d i)) (list_operators (Manifest_New gz) ?r ?i ''/configs'')
      (\<lambda>_. at_dir d (extracted_tree N d i))"
    using assms(2,4,6) globals by (intro succeeds_list_operators) simp_all
  then have "succeeds (at_dir d (extracted_tree N d i)) (go_seq (list_operators (Manifest_New gz) ?r ?i ''/configs'')
      (go_return ?r)) (\<lambda>a w. a = ?r \<and> at_dir d (extracted_tree N d i) w)"
    by (rule succeeds_seq) (simp add: succeeds_return)
  ultimately show ?thesis
    unfolding collect_operator_def Let_def the_collector_simps dirs
    by (elim succeeds_bind) (rule succeeds_when, simp only:)
qed

interpretation cold_run: run_state d "fresh_tree d i" for d i
proof
  show "fresh_tree d i M'" if same: "\<And>r. r \<noteq> log_place d \<Longrightarrow> M' r = M r" and M: "fresh_tree d i M" for M M'
    using M same no_file_above_beside [of d M' M] by (simp add: tree_defs place_defs)
  show "no_file_above q M" if "fresh_tree d i M" "q \<in> run_dirs d" "q \<noteq> d @ [''logs'']" for M q
    using that run_dirs_room no_file_above_prefix [of "copy_place d i" M "d @ [''working-dir'', ''operator-images'']"]
    by (auto simp: fresh_tree_def copy_place_def)
  show "fresh_tree d i (add_dirs q M)" if "fresh_tree d i M" "q \<in> run_dirs d" for M q
    using that run_dirs_other(1) [of q d i "[]"] run_dirs_other(2)
    by (simp add: absent_tree_def fresh_tree_def no_file_above_add_dirs) (simp add: add_dirs_def)
  show "fresh_tree d i (without (d @ [''logs'']) M)" if "fresh_tree d i M" for M
    using that by (simp add: absent_tree_def fresh_tree_def no_file_above_without) (simp add: without_def)
qed

lemma cold_collects:
  assumes "serves gz lib (set_target k opts) img" "plain (image_index_dir (gl_Reference (co_Global opts)))"
    and "image_catalogs gz img = Some N" "N [''configs''] = Some Dir" "i = image_comps opts"
    and "asks ''operator'' (set_target k opts)" "\<not> asks ''release'' (set_target k opts)"
  shows "succeeds (at_dir d (fresh_tree d i)) (Collector_Collect (the_collector gz lib (set_target k opts)))
    (\<lambda>_. at_dir d (extracted_tree N d i))"
proof (rule cold_run.succeeds_Collect)
  fix f assume "writer_at (log_place d) (bufio_NewWriter f)"
  note collects = succeeds_collect_operator [OF assms(1-4) this assms(5)]
  have globals: "co_Global (with_RemoveSignatures (set_target k opts)) = co_Global (set_target k opts)"
    by (simp add: with_RemoveSignatures_def)
  show "succeeds (at_dir d (fresh_tree d i)) (collect_with (the_collector gz lib (set_target k opts)) (bufio_NewWriter f))
      (\<lambda>_. at_dir d (extracted_tree N d i))"
    unfolding collect_with_def Let_def the_collector_simps set_target_simps(3) using assms(6,7)
    by (simp only: asks_def if_True, intro succeeds_bind [OF collects] succeeds_when)
      (simp add: globals succeeds_return)
qed

lemma first_run:
  assumes "accepted opts args" "hd args = ''operator''"
    and "plain (image_index_dir (gl_Reference (co_Global opts)))"
    and "calm w" "fresh_tree (cwd w) (image_comps opts) (entry w)"
    and "serves gz lib (set_target (hd args) opts) img"
    and "image_catalogs gz img = Some N" "N [''configs''] = Some Dir"
  shows "\<exists>w'. command_run gz lib opts args w = (Ok 0, w') \<and>
    at_dir (cwd w) (extracted_tree N (cwd w) (image_comps opts)) w'"
proof -
  have asks: "asks ''operator'' (set_target (hd args) opts)" "\<not> asks ''release'' (set_target (hd args) opts)"
    unfolding assms(2) by (simp_all add: asks_def)
  show ?thesis
    by (rule cold_run.command_succeeds [OF assms(1,4) HOL.refl assms(5) cold_collects [OF assms(6,3,7,8) HOL.refl asks]])
qed

text \<open>
  C2: a first run succeeds. When nothing is refused, no file is in the way, and the library delivers
  an image whose index, manifest, configuration and layers can be read, an accepted operator run with
  no image in the cache ends with exit code 0, and the cache has exactly the catalogs the image holds:
  what its layers give, unpacked in their order.
\<close>

theorem first_run_succeeds:
  assumes "accepted opts args" "hd args = ''operator''"
    and "plain (image_index_dir (gl_Reference (co_Global opts)))"
    and "calm w" "fresh_tree (cwd w) (image_comps opts) (entry w)"
    and "serves gz lib (set_target (hd args) opts) img"
    and "image_catalogs gz img = Some N" "N [''configs''] = Some Dir"
  shows "\<exists>w'. command_run gz lib opts args w = (Ok 0, w') \<and>
    (\<forall>p. entry w' (extract_place (cwd w) (image_comps opts) @ p) = N p)"
  using first_run [OF assms] unfolding at_dir_def extracted_tree_def by blast

text \<open>The hypotheses hold for the demonstration image and an empty home directory.\<close>

definition demo_img :: tree where
  "demo_img p = (if p = [] then Some Dir else map_of demo_layout p)"

lemma put_layout_inside:
  assumes "distinct (map fst ls)" "[] \<notin> fst ` set ls"
  shows "entry (put_layout q ls w) (q @ p) = (case map_of ls p of Some n \<Rightarrow> Some n | None \<Rightarrow> entry w (q @ p))"
  using assms
proof (induction ls arbitrary: w)
  case Nil
  then show ?case by (simp add: put_layout_def)
next
  case (Cons l ls)
  obtain r n where l: "l = (r, n)" by fastforce
  have "map_of ls r = None" using Cons.prems(1) l by (simp add: map_of_eq_None_iff)
  then show ?case
    using Cons.IH [of "set_entry (q @ r) n w"] Cons.prems l
    by (auto simp: put_layout_def entry_set_entry split: option.split)
qed

lemma demo_delivers: "delivers demo_lib dest demo_img"
proof -
  have layout: "distinct (map fst demo_layout)" "[] \<notin> fst ` set demo_layout"
    by (simp_all add: demo_layout_def)
  have "demo_copy dest w = (([''copied''], None), put_layout q demo_layout w) \<and>
      (\<forall>p. entry (put_layout q demo_layout w) (q @ p) = demo_img p)"
    if "q = place (cwd w) (oci_dir dest)" "entry w q = Some Dir" "\<forall>p. p \<noteq> [] \<longrightarrow> entry w (q @ p) = None" for w q
  proof -
    have "list_all (\<lambda>(p, n). entry w (q @ p) = None) demo_layout"
      using that(3) by (simp add: demo_layout_def)
    then have "demo_copy dest w = (([''copied''], None), put_layout q demo_layout w)"
      using that(1,2) by (simp add: demo_copy_def Let_def)
    moreover have "map_of demo_layout [] = None" using layout(2) by (simp add: map_of_eq_None_iff)
    then have "entry (put_layout q demo_layout w) (q @ p) = demo_img p" for p
      using that(2,3) by (auto simp: put_layout_inside [OF layout] demo_img_def split: option.split)
    ultimately show ?thesis by blast
  qed
  then show ?thesis by (simp add: delivers_def Let_def demo_lib_def)
qed

lemma demo_comps: "image_comps (demo_opts demo_ref) = [''operator-index'', ''v4'']"
  by code_simp

lemma demo_first_run:
  "calm demo_world" "fresh_tree (cwd demo_world) (image_comps (demo_opts demo_ref)) (entry demo_world)"
  "serves demo_gz demo_lib (set_target ''operator'' (demo_opts demo_ref)) demo_img"
proof -
  show "calm demo_world" using demo_world_wf by (simp add: calm_def) (simp add: demo_world_def entry_def)
  show "fresh_tree (cwd demo_world) (image_comps (demo_opts demo_ref)) (entry demo_world)"
    unfolding demo_comps by (auto simp: tree_defs place_defs no_file_above_iff demo_world_def entry_def)
  have "copyable demo_lib (set_target k (demo_opts demo_ref)) src" for k src
    by (simp add: copyable_def demo_lib_def demo_opts_def new_CopyOptions_def set_target_def GetPolicyContext_def)
  then show "serves demo_gz demo_lib (set_target ''operator'' (demo_opts demo_ref)) demo_img"
    using demo_lib_trusted demo_gz_plain demo_delivers by (simp add: serves_def)
qed

lemma demo_catalogs:
  obtains N where "image_catalogs demo_gz demo_img = Some N" "N [''configs''] = Some Dir"
    "N [''configs'', ''foo'', ''catalog.json''] = Some (File demo_catalog)"
proof -
  have "case image_catalogs demo_gz demo_img of None \<Rightarrow> False
    | Some N \<Rightarrow> N [''configs''] = Some Dir \<and> N [''configs'', ''foo'', ''catalog.json''] = Some (File demo_catalog)"
    by code_simp
  then show thesis using that by (auto split: option.splits)
qed

lemma first_run_succeeds_witness:
  "\<exists>w'. command_run demo_gz demo_lib (demo_opts demo_ref) [''operator''] demo_world = (Ok 0, w') \<and>
    entry w' [''home'', ''working-dir'', ''hold-operators'', ''operator-index'', ''v4'', ''configs'', ''foo'', ''catalog.json''] =
      Some (File demo_catalog)"
proof -
  obtain N where N: "image_catalogs demo_gz demo_img = Some N" "N [''configs''] = Some Dir"
    "N [''configs'', ''foo'', ''catalog.json''] = Some (File demo_catalog)"
    by (rule demo_catalogs)
  show ?thesis
    using first_run_succeeds [OF demo_accepted _ demo_ref_plain demo_first_run(1,2) _ N(1,2)] demo_first_run(3) N(3)
    unfolding demo_comps by (fastforce simp: extract_place_def demo_world_def)
qed

end
