(* ===== verification/Logs.thy ===== *)
theory Logs
  imports Running Quiet
begin

text \<open>
  The log directory: a run first removes it with all that is in it, and whatever happens afterwards
  puts nothing but the log file of the run back into it.
\<close>

text \<open>A place in the log directory that is not the one of the log file.\<close>

definition stale_log :: "path \<Rightarrow> path \<Rightarrow> bool" where
  "stale_log d q \<longleftrightarrow> strict_prefix (d @ [''logs'']) q \<and> q \<noteq> d @ [''logs'', ''util.log'']"

abbreviation spares_logs :: "path \<Rightarrow> path \<Rightarrow> bool" where
  "spares_logs d q \<equiv> \<not> stale_log d q"

lemma spares_way: "prefix q (d @ [''logs'']) \<Longrightarrow> spares_logs d q"
  by (auto simp: stale_log_def strict_prefix_def dest: prefix_order.antisym)

lemma spares_beside:
  assumes "x \<noteq> ''logs''" "prefix q (d @ x # cs) \<or> prefix (d @ x # cs) q"
  shows "spares_logs d q"
proof -
  have "\<not> strict_prefix (d @ [''logs'']) q"
    using assms prefix_same_cases [of "d @ [''logs'']" q "d @ x # cs"]
    by (auto simp: strict_prefix_def dest: prefix_order.trans)
  then show ?thesis by (simp add: stale_log_def)
qed

section \<open>Clearing\<close>

lemma RemoveAll_clears:
  assumes "calm w" "plain p" "p \<noteq> []" "entry w (butlast (place (cwd w) p)) = Some Dir" "place (cwd w) p \<noteq> []"
    and "prefix (place (cwd w) p) q"
  shows "entry (snd (os_RemoveAll p w)) q = None"
proof -
  have q: "locate w p = Inr (place (cwd w) p)" using locate_calm [OF assms(1-3)] assms(4) by simp
  moreover have "q \<noteq> []" using assms(5,6) by auto
  ultimately show ?thesis using assms(1,6) by (simp add: os_RemoveAll_entry)
qed

context world_relation
begin

text \<open>What the steps after the clearing keep holds between the cleared world and the end of the run.\<close>

lemma after_clearing:
  assumes "ex_Dir ex = Some NewDirectory" "ex_Collector ex = Some collect"
    and "\<And>f a. keeps R (log_Error f a)" "\<And>f a. keeps R (log_Trace f a)"
    and "\<And>p. p \<in> {workingDir, logsDir, gl_Dir (co_Global (ex_Opts ex)) @ ''/'' @ cliReleaseImageDir,
      gl_Dir (co_Global (ex_Opts ex)) @ ''/'' @ cliOperatorImageDir} \<Longrightarrow> keeps R (os_MkdirAll p)"
    and "keeps R collect"
  shows "R (snd (os_RemoveAll logsDir w)) (snd (Executor_Run ex w))"
proof -
  have mkdir: "keeps R (os_MkdirAll p)" if "p \<in> {workingDir, logsDir,
      gl_Dir (co_Global (ex_Opts ex)) @ ''/'' @ cliReleaseImageDir,
      gl_Dir (co_Global (ex_Opts ex)) @ ''/'' @ cliOperatorImageDir}" for p
    using assms(5) that .
  have "\<exists>k. Executor_Run ex = go_seq (ignore_error (os_RemoveAll logsDir)) k \<and> keeps R k"
    unfolding Executor_Run_def Let_def assms(1,2) NewDirectory_def MakeDir_def deref_def
      option.case go_bind_lift
    by (intro exI conjI, rule HOL.refl) (intro keeps_seq keeps_or_log assms(3,4,6); blast intro: mkdir)
  then obtain k where k: "Executor_Run ex = go_seq (ignore_error (os_RemoveAll logsDir)) k" "keeps R k" by blast
  obtain r v where v: "os_RemoveAll logsDir w = (r, v)" by fastforce
  have "R v (snd (k v))" using k(2) by (simp add: keeps_def)
  then show ?thesis using v refl
    by (cases r) (simp_all add: k(1) ignore_error_def go_seq_def go_bind_def go_try_def go_return_def)
qed

end

section \<open>The run\<close>

lemma collect_spares:
  "collect_region (lib_region elsewhere) (set_target k opts) d q \<Longrightarrow> spares_logs d q"
proof -
  let ?t = "set_target k opts"
  have dirs: "spares_logs d q" if "around (copy_dir ?t kind) d q"
    "kind \<in> {operatorImageDir, releaseImageDir, operatorImageExtractDir}" for kind
  proof -
    have "place d (copy_dir ?t kind) =
        d @ ''working-dir'' # kind # comps (image_index_dir (gl_Reference (co_Global opts)))"
      using that(2) place_copy_dir [OF in_working_dir_target, of kind d k opts]
      by (auto simp: operatorImageDir_def releaseImageDir_def operatorImageExtractDir_def)
    then show ?thesis using that(1) spares_beside [of "''working-dir''" q d] by (auto simp: around_def)
  qed
  have lib: "spares_logs d q" if "lib_region elsewhere (ociProtocolTrimmed @ copy_dir ?t kind) d q"
    "kind \<in> {operatorImageDir, releaseImageDir}" for kind
  proof -
    have "oci_dir (ociProtocolTrimmed @ copy_dir ?t kind) = copy_dir ?t kind"
      using that(2) by (intro oci_dir_oci copy_dir_no_colon) (auto simp: releaseImageDir_def operatorImageDir_def)
    then have "around (copy_dir ?t kind) d q \<or> \<not> program_place d q"
      using that(1) by (auto simp: lib_region_def oci_region_def around_def)
    moreover have "spares_logs d q" if "\<not> program_place d q"
      using that by (auto simp: program_place_def stale_log_def strict_prefix_def)
    ultimately show ?thesis using dirs that(2) by blast
  qed
  obtain a cs where ext: "place d (release_extract_dir ?t) = d @ (''working-dirhold-releases'' @ a) # cs"
    using place_release_extract [OF in_working_dir_target] .
  have release: "spares_logs d q" if "around (release_extract_dir ?t) d q"
    using spares_beside [of "''working-dirhold-releases'' @ a" q d cs] that by (auto simp: around_def ext)
  have log: "spares_logs d (place d logsFile)"
    by (simp add: place_def HasPrefix_def logsFile_def comps_def stale_log_def)
  assume "collect_region (lib_region elsewhere) ?t d q"
  then consider "q = place d logsFile" | kind where "kind \<in> {operatorImageDir, releaseImageDir}"
      "around (copy_dir ?t kind) d q \<or> lib_region elsewhere (ociProtocolTrimmed @ copy_dir ?t kind) d q"
    | "around (operator_extract_dir ?t) d q" | "around (release_extract_dir ?t) d q"
    unfolding collect_region_def kind_region_def around_def by blast
  then show ?thesis
    by cases (use log dirs lib release in \<open>auto simp: operator_extract_dir_def\<close>)
qed

lemma run_spares:
  assumes "trusted_lib lib" "archives_plain gz" "plain (image_index_dir (gl_Reference (co_Global opts)))"
  shows "changes_only spares_logs (snd (os_RemoveAll logsDir w)) (snd (Executor_Run (completed gz lib opts k) w))"
proof (rule changes.after_clearing [OF completed_simps(1,2)])
  have mkdir: "keeps (changes_only spares_logs) (os_MkdirAll p)"
    if "plain p" "\<And>d q. prefix q (place d p) \<Longrightarrow> spares_logs d q" for p
    using that by (rule os_MkdirAll_changes)
  have way: "prefix q (d @ ''working-dir'' # cs) \<Longrightarrow> spares_logs d q" for d q cs
    by (rule spares_beside [of "''working-dir''" _ _ cs]) simp_all
  have "keeps (changes_only spares_logs) (os_MkdirAll logsDir)"
    by (rule mkdir [OF plain_run_dirs(1)]) (simp add: place_run_dirs spares_way del: prefix_snoc)
  moreover have "keeps (changes_only spares_logs) (os_MkdirAll workingDir)"
    "keeps (changes_only spares_logs) (os_MkdirAll (workingDir @ ''/'' @ cliReleaseImageDir))"
    "keeps (changes_only spares_logs) (os_MkdirAll (workingDir @ ''/'' @ cliOperatorImageDir))"
    by (rule mkdir, rule plain_run_dirs, rule way, simp only: place_run_dirs)+
  ultimately show "keeps (changes_only spares_logs) (os_MkdirAll p)" if "p \<in> {workingDir, logsDir,
      gl_Dir (co_Global (ex_Opts (completed gz lib opts k))) @ ''/'' @ cliReleaseImageDir,
      gl_Dir (co_Global (ex_Opts (completed gz lib opts k))) @ ''/'' @ cliOperatorImageDir}" for p
    using that by auto
  show "keeps (changes_only spares_logs) (Collector_Collect (the_collector gz lib (set_target k opts)))"
    using target_collect_changes [OF trusted_writes [OF assms(1)] assms(2,3)]
    by (rule keeps_changes_mono) (rule collect_spares)
qed (intro log_changes)+

lemma command_clears:
  assumes "accepted opts args" "trusted_lib lib" "archives_plain gz"
    and "plain (image_index_dir (gl_Reference (co_Global opts)))" "calm w" "stale_log (cwd w) q"
  shows "entry (snd (command_run gz lib opts args w)) q = None"
proof -
  let ?s = "started opts args w"
  have calm: "calm ?s" using assms(5) by (simp add: calm_def fs_wf_def)
  have "entry (snd (os_RemoveAll logsDir ?s)) q = None"
  proof (rule RemoveAll_clears [OF calm plain_run_dirs(1)])
    show "logsDir \<noteq> []" by (simp add: logsDir_def)
  qed (use assms(5,6) in \<open>simp_all add: place_run_dirs calm_def stale_log_def strict_prefix_def\<close>)
  moreover have "cwd (snd (os_RemoveAll logsDir ?s)) = cwd w" by (simp add: os_RemoveAll_fields)
  ultimately have "entry (snd (Executor_Run (completed gz lib opts (hd args)) ?s)) q = None"
    using run_spares [OF assms(2-4), of ?s "hd args"] assms(6) by (simp add: changes_only_def)
  moreover have "entry (w1\<lparr>stderr := x\<rparr>) = entry w1" for w1 x by (simp add: entry_def fun_eq_iff)
  ultimately show ?thesis
    by (auto simp: command_run_accepted [OF assms(1)] log_Error_run split: prod.split res.split)
qed

end
