(* ===== verification/Reextract.thy ===== *)
theory Reextract
  imports Succeeds
begin

text \<open>
  Extracting twice: \<open>ExtractLayersOCI\<close> looks for an earlier extraction at the target directory with
  the label put behind it, without a slash. When that is where the first extraction put the label's
  directory, the second one leaves everything as it is; when the label does not begin with a slash
  it is not, and every extraction is done again.
\<close>

section \<open>Where an extraction changes the tree\<close>

lemma unpack_entry_outside:
  "unpack_entry (t @ cs) name flag data err M = Some M' \<Longrightarrow> outside t M M'"
proof -
  have "strict_prefix r t" if "prefix r (t @ cs)" "\<not> prefix t r" for r
    using prefix_same_cases [OF that(1), of t] that(2) by (auto simp: strict_prefix_def)
  then show "unpack_entry (t @ cs) name flag data err M = Some M' \<Longrightarrow> outside t M M'"
    by (auto simp: unpack_entry_def outside_def add_dirs_def split: if_splits)
qed

lemma unpack_outside: "unpack t cfg items M = Some M' \<Longrightarrow> outside t M M'"
proof (induction t cfg items M rule: unpack.induct)
  case (3 t cfg name flag data err items M)
  show ?case
  proof (cases "Contains name cfg")
    case True
    then obtain M1 where "unpack_entry (t @ comps name) name flag data err M = Some M1"
      "unpack t cfg items M1 = Some M'"
      using 3(3) by (auto simp: Option.bind_eq_Some_conv)
    then show ?thesis using 3(1) True unpack_entry_outside outside_trans by metis
  qed (use 3 in simp)
qed (simp_all add: outside_refl)

lemma unpack_layers_outside: "unpack_layers gz f t cfg blobs M = Some M' \<Longrightarrow> outside t M M'"
proof (induction gz f t cfg blobs M rule: unpack_layers.induct)
  case (2 gz f t cfg blob blobs M)
  obtain hex s items M1 where "Contains (om_Digest blob) ''sha256''" "digest_hex (om_Digest blob) = Ok hex"
    "M (f @ comps hex) = Some (File s)" "gz s = Inr items" "unpack t cfg items M = Some M1"
    "unpack_layers gz f t cfg blobs M1 = Some M'"
    using 2(2) by (auto simp: Option.bind_eq_Some_conv split: if_splits res.splits option.splits
        node.splits sum.splits)
  then show ?case using 2(1) unpack_outside outside_trans by metis
qed (simp add: outside_refl)

lemma outside_no_file_above:
  "outside t M M' \<Longrightarrow> no_file_above q M \<Longrightarrow> \<not> prefix t q \<Longrightarrow> no_file_above q M'"
  unfolding outside_def no_file_above_iff by (metis node.distinct(1) option.inject prefix_order.trans)

section \<open>A label that does not begin with a slash\<close>

text \<open>It is glued to the last name of the target directory.\<close>

lemma comps_glued:
  assumes "CHR ''/'' \<notin> set n" "n \<noteq> []" "label \<noteq> []" "hd label \<noteq> CHR ''/''"
  obtains x cs where "comps (n @ label) = (n @ x) # cs" "x \<noteq> []"
proof -
  let ?x = "hd (Split label CHR ''/'')"
  have "?x = takeWhile (\<lambda>c. c \<noteq> CHR ''/'') label" by (subst Split_head) simp
  then have x: "?x \<noteq> []" using assms(3,4) by (cases label) auto
  have "n @ ?x \<noteq> ''.''" using assms(2) x by (cases n) auto
  then have "comps (n @ label) = (n @ ?x) # filter (\<lambda>c. c \<noteq> [] \<and> c \<noteq> ''.'') (tl (Split label CHR ''/''))"
    using assms(2) Split_prefix [OF assms(1), of label] by (simp add: comps_def)
  then show ?thesis using x by (rule that)
qed

lemma place_glued:
  assumes "CHR ''/'' \<notin> set n" "n \<noteq> []" "n \<noteq> ''.''" "label \<noteq> []" "hd label \<noteq> CHR ''/''"
  shows "\<not> prefix (place d (p @ ''/'' @ n)) (place d ((p @ ''/'' @ n) @ label))"
    and "\<not> prefix (place d ((p @ ''/'' @ n) @ label)) (place d (p @ ''/'' @ n))"
proof -
  obtain x cs where x: "comps (n @ label) = (n @ x) # cs" "x \<noteq> []"
    using comps_glued [OF assms(1,2,4,5)] .
  have "comps (p @ ''/'' @ n) = comps p @ [n]" using assms(1-3) by (simp add: comps_append_slash comps_single)
  moreover have "comps ((p @ ''/'' @ n) @ label) = comps p @ (n @ x) # cs"
    using x(1) by (simp add: comps_append_slash)
  moreover have "HasPrefix ((p @ ''/'' @ n) @ label) ''/'' = HasPrefix (p @ ''/'' @ n) ''/''"
    by (cases p) (simp_all add: HasPrefix_def)
  ultimately show "\<not> prefix (place d (p @ ''/'' @ n)) (place d ((p @ ''/'' @ n) @ label))"
    "\<not> prefix (place d ((p @ ''/'' @ n) @ label)) (place d (p @ ''/'' @ n))"
    using x(2) by (simp_all add: place_def)
qed

section \<open>Properties\<close>

lemma extraction_result:
  assumes "calm w" "missing (toPath @ label) w" "plain toPath" "toPath \<noteq> []" "plain fromPath" "fromPath \<noteq> []"
    and "archives_plain gz" "digests_ok (oci_Layers oci)"
    and "unpack_layers gz (place (cwd w) fromPath) (place (cwd w) toPath) (trim_slashes label)
      (oci_Layers oci) (entry w) = Some M"
  obtains w1 where "ExtractLayersOCI gz fromPath toPath label (Some oci) w = (Ok (), w1)" "now_shows M w w1"
  using extract_layers_implements [OF assms(1,3-8), of label] assms(2,9) that
  by (auto simp: ExtractLayersOCI_run implements_def)

text \<open>
  C22: an extraction is done once, if its label begins with a slash. Nothing is refused, the
  archives and digests have no \<open>..\<close>, and the layers unpack to a tree. If that tree has something at
  the target directory with the label put behind it, the first extraction leaves that tree, and a
  second one, whatever the manifest, the layers and the decoder then are, succeeds, changes no file
  and logs exactly one line, at the level info. If the label does not begin with a slash (as the one
  of a release does not), nothing is ever at the place that is looked at: after a first extraction
  that succeeded the second one goes through all its layers again.
\<close>

theorem extraction_done_once:
  assumes "calm w" "toPath = p @ ''/'' @ n" "CHR ''/'' \<notin> set n" "n \<noteq> []" "n \<noteq> ''.''"
    and "plain toPath" "plain (toPath @ label)" "label \<noteq> []" "plain fromPath" "fromPath \<noteq> []"
    and "no_file_above (place (cwd w) (toPath @ label)) (entry w)"
    and "entry w (place (cwd w) (toPath @ label)) = None"
    and "archives_plain gz" "digests_ok (oci_Layers oci)"
    and "unpack_layers gz (place (cwd w) fromPath) (place (cwd w) toPath) (trim_slashes label)
      (oci_Layers oci) (entry w) = Some M"
  shows "\<exists>w1. ExtractLayersOCI gz fromPath toPath label (Some oci) w = (Ok (), w1) \<and> entry w1 = M \<and>
    (M (place (cwd w) (toPath @ label)) \<noteq> None \<longrightarrow>
      ExtractLayersOCI gz2 fromPath2 toPath label oci2 w1 =
        (Ok (), w1\<lparr>stderr := stderr w1 @ (if info_on w1 then [info_line ''tar exists''] else [])\<rparr>)) \<and>
    (hd label \<noteq> CHR ''/'' \<longrightarrow>
      ExtractLayersOCI gz2 fromPath2 toPath label (Some oci3) w1 =
        go_for (oci_Layers oci3) (extract_layer gz2 fromPath2 toPath label) w1)"
proof -
  let ?q = "place (cwd w) (toPath @ label)"
  have ne: "toPath \<noteq> []" "toPath @ label \<noteq> []" using assms(2) by simp_all
  have "missing (toPath @ label) w" by (rule missing_calm [OF assms(1,7) ne(2) assms(11,12)])
  then obtain w1 where w1: "ExtractLayersOCI gz fromPath toPath label (Some oci) w = (Ok (), w1)"
    "calm w1" "cwd w1 = cwd w" "entry w1 = M"
    using extraction_result [OF assms(1) _ assms(6) ne(1) assms(9,10,13,14,15)] by (auto simp: now_shows_def)
  have there: "ExtractLayersOCI gz2 fromPath2 toPath label oci2 w1 = log_Info ''tar exists'' [] w1" if "M ?q \<noteq> None"
  proof -
    have "\<not> missing (toPath @ label) w1"
      using os_Stat_calm [OF w1(2) assms(7) ne(2)] that w1(3,4) by (auto simp: missing_def)
    then show ?thesis using oci_files.extract_there [of toPath label w1 gz2 fromPath2 oci2]
      by (simp add: Manifest_New_def)
  qed
  have "emits [''tar exists''] (log_Info ''tar exists'' [])" by (rule emits_line) (simp add: fmt_extra_def)
  then have once: "log_Info ''tar exists'' [] w1 =
      (Ok (), w1\<lparr>stderr := stderr w1 @ (if info_on w1 then [info_line ''tar exists''] else [])\<rparr>)"
    by (simp add: emits_def)
  have again: "missing (toPath @ label) w1" if "hd label \<noteq> CHR ''/''"
  proof (rule missing_calm [OF w1(2) assms(7) ne(2)])
    have not: "\<not> prefix (place (cwd w) toPath) ?q" "\<not> prefix ?q (place (cwd w) toPath)"
      unfolding assms(2) by (rule place_glued [OF assms(3-5,8) that])+
    have out: "outside (place (cwd w) toPath) (entry w) M" by (rule unpack_layers_outside [OF assms(15)])
    show "no_file_above (place (cwd w1) (toPath @ label)) (entry w1)"
      unfolding w1(3,4) by (rule outside_no_file_above [OF out assms(11) not(1)])
    show "entry w1 (place (cwd w1) (toPath @ label)) = None"
      using out not assms(12) unfolding w1(3,4) outside_def by (metis strict_prefix_def)
  qed
  show ?thesis using w1(1,4) there again once by (auto simp: ExtractLayersOCI_run)
qed

text \<open>A layer that has the label's directory in it, and one that has a file of a release in it.\<close>

definition once_world :: world where
  "once_world = slip_world\<lparr>fs := [([''home''], Dir), ([''home'', ''b''], Dir), ([''home'', ''b'', ''l''], File [])]\<rparr>"

definition once_oci :: OCISchema where
  "once_oci = zero_OCISchema\<lparr>oci_Layers := [zero_OCIManifest\<lparr>om_Digest := ''sha256:l''\<rparr>]\<rparr>"

definition once_gz :: "string \<Rightarrow> gunzip" where
  "once_gz dir = (\<lambda>_. Inr [TarEntry dir TypeDir [] None])"

lemma once_fine: "calm once_world" "digests_ok (oci_Layers once_oci)"
  "plain dir \<Longrightarrow> archives_plain (once_gz dir)"
  by (simp add: calm_def fs_wf_def once_world_def slip_world_def entry_def, code_simp,
      simp add: archives_plain_def once_gz_def names_plain_def)

theorem extraction_done_once_witness:
  "(\<exists>w1. ExtractLayersOCI (once_gz ''configs'') ''b'' ''x/out'' ''/configs'' (Some once_oci) once_world = (Ok (), w1) \<and>
     ExtractLayersOCI (\<lambda>_. Inl (ErrorString ''not a gzip stream'')) ''gone'' ''x/out'' ''/configs'' None w1 =
       (Ok (), w1\<lparr>stderr := stderr w1 @ (if info_on w1 then [info_line ''tar exists''] else [])\<rparr>)) \<and>
   (\<exists>w1. ExtractLayersOCI (once_gz ''files'') ''b'' ''x/out'' ''files'' (Some once_oci) once_world = (Ok (), w1) \<and>
     ExtractLayersOCI (\<lambda>_. Inl (ErrorString ''not a gzip stream'')) ''b'' ''x/out'' ''files'' (Some once_oci) w1 =
       go_for (oci_Layers once_oci) (extract_layer (\<lambda>_. Inl (ErrorString ''not a gzip stream'')) ''b'' ''x/out'' ''files'') w1)"
proof -
  have plain: "plain ''x/out''" "plain (''x/out'' @ ''/configs'')" "plain (''x/out'' @ ''files'')" "plain ''b''"
    "plain ''configs''" "plain ''files''"
    by code_simp+
  have places: "place (cwd once_world) (''x/out'' @ ''/configs'') = [''home'', ''x'', ''out'', ''configs'']"
    "place (cwd once_world) (''x/out'' @ ''files'') = [''home'', ''x'', ''outfiles'']"
    by code_simp+
  have free: "entry once_world [''home'', ''x'', ''out'', ''configs''] = None"
    "entry once_world [''home'', ''x'', ''outfiles''] = None"
    "no_file_above [''home'', ''x'', ''out'', ''configs''] (entry once_world)"
    "no_file_above [''home'', ''x'', ''outfiles''] (entry once_world)"
    by code_simp+
  have "case unpack_layers (once_gz ''configs'') (place (cwd once_world) ''b'') (place (cwd once_world) ''x/out'')
      (trim_slashes ''/configs'') (oci_Layers once_oci) (entry once_world) of
      None \<Rightarrow> False | Some M \<Rightarrow> M [''home'', ''x'', ''out'', ''configs''] \<noteq> None"
    by code_simp
  then obtain M where M: "unpack_layers (once_gz ''configs'') (place (cwd once_world) ''b'')
      (place (cwd once_world) ''x/out'') (trim_slashes ''/configs'') (oci_Layers once_oci) (entry once_world) = Some M"
    "M [''home'', ''x'', ''out'', ''configs''] \<noteq> None"
    by (auto split: option.splits)
  have "unpack_layers (once_gz ''files'') (place (cwd once_world) ''b'') (place (cwd once_world) ''x/out'')
      (trim_slashes ''files'') (oci_Layers once_oci) (entry once_world) \<noteq> None"
    by code_simp
  then obtain M2 where M2: "unpack_layers (once_gz ''files'') (place (cwd once_world) ''b'')
      (place (cwd once_world) ''x/out'') (trim_slashes ''files'') (oci_Layers once_oci) (entry once_world) = Some M2"
    by auto
  show ?thesis
    using extraction_done_once [OF once_fine(1) _ _ _ _ plain(1,2) _ plain(4) _ _ _
        once_fine(3) [OF plain(5)] once_fine(2) M(1), of "''x''" "''out''" "\<lambda>_. Inl (ErrorString ''not a gzip stream'')" "''gone''" None]
      extraction_done_once [OF once_fine(1) _ _ _ _ plain(1,3) _ plain(4) _ _ _
        once_fine(3) [OF plain(6)] once_fine(2) M2, of "''x''" "''out''" "\<lambda>_. Inl (ErrorString ''not a gzip stream'')" "''b''" None once_oci]
      free M(2) unfolding places by auto
qed

end
