(* ===== verification/Spec2Isabelle.thy ===== *)
theory Spec2Isabelle
  imports Ignored MetadataDecode Fresh Logs Reextract
begin

text \<open>
  A model of golang-imageindex-list: a command that copies the container image of an operator
  catalog, or of an OpenShift release, into a local cache with containers/image, extracts its
  layers and lists what it holds. All its Go packages are modelled: the command (cmd, pkg/cli), the
  collector (pkg/index), the readers and the extraction (pkg/manifest), the copy with its options
  and flags (pkg/mirror), the logger (pkg/log), and both API packages (pkg/api/v1alpha2, v1alpha3).

  How the parts interact. \<open>main\<close> makes the logger and the command and executes it: cobra reads the
  arguments of the process, sets the flags and calls the command, which
  validates its arguments and completes its executor: the logger's level, the cache directory and
  the kind of image (\<open>operator\<close> or \<open>release\<close>) go into the options, and the collector gets the
  manifest, the mirror and the options. The executor clears and makes the directories, and calls
  the collector. The collector asks the mirror for a copy when the image is not in the cache, reads
  the copied layout through the manifest, extracts its layers, and lists.

  The state. A Go function with effects is a function from the \<open>world\<close> (theory World) to an outcome
  and the next world. The world holds the files, the working directory, the system calls the
  operating system refuses, the level and the lines of the one logger, what is printed, the calls
  of \<open>copy.Image\<close> made so far, and the time. An outcome is a value, an error, or a run-time panic
  (\<open>'a res\<close>, theory Prelude), so each error return and each panic of the code is a branch here.

  The theories, in the order they build on each other:
  \<^item> Prelude: errors, outcomes, lemma collections. GoStrings: the \<open>strings\<close> package. World: the state,
    the sequencing of Go statements (\<open>go_bind\<close> for an error that is returned, \<open>go_try\<close> for one that
    is looked at, \<open>go_for\<close> for a loop), and the locale \<open>world_relation\<close>: what a computation keeps is
    proved along its structure for any reflexive and transitive relation between worlds.
  \<^item> GoOS, GoFiles, GoFmt, GoStrconv, GoBufio, GoJson, GoDecode, GoEncode: what the program uses of the
    standard library. JSON is read from its bytes (a lexer with one state per place in a token, a
    parser with a stack) and written to bytes; \<open>parse_json_text\<close> is the round trip.
  \<^item> GoJsonText, CatalogText: the reader of catalog files deletes every blank and joins documents
    by text replacement; these theories prove what that does to any sequence of documents.
  \<^item> Logger: pkg/log/logger.go over github.com/microlib/simple; locale \<open>logger\<close>.
  \<^item> V1alpha3: pkg/api/v1alpha3/types.go, one record per struct, with JSON decoders.
  \<^item> Untar, Manifest: pkg/manifest/manifest.go; locale \<open>manifest_api\<close>, the contract of
    \<open>ManifestInterface\<close>, interpreted on \<open>Manifest_New\<close>.
  \<^item> Options, Flags: pkg/mirror/options.go with the flag sets it fills. Retry: the retry loop of
    containers/common. Mirror: pkg/mirror/mirror.go and unshare_linux.go; locale \<open>mirror_api\<close>, the
    contract of \<open>MirrorInterface\<close>, interpreted on \<open>Mirror_New\<close>.
  \<^item> Index: pkg/index/list-images.go. Collecting: the locale \<open>collector\<close>, which joins the two
    contracts; every lemma about a collection is proved there once, and its interpretation on the
    program's own providers carries it over. Cache: what is in the cache and what is not.
  \<^item> Quiet: what the operations on files do when the system refuses nothing (\<open>calm\<close>): each is a plain
    operation on the tree. Unpack, Layers, Under: the specification of the extraction as functions on
    trees, that \<open>untar\<close> and \<open>ExtractLayersOCI\<close> implement it, and that it does the same at any place.
  \<^item> Pflag: how pflag parses the arguments of the process. CommandLine: the grammar of command lines, that
    the parser follows it, and that a line has one meaning.
  \<^item> Cli: pkg/cli/executor.go, cmd/list/main.go, and what cobra does between them. Program: the program
    by cases of its command line. Running: one run of the command. Rerun: a run after
    a run. Sessions: any sequence of runs, as an inductive relation. Ignored: options without effect.
    Logs: what a run leaves in the log directory.
  \<^item> Succeeds: total correctness of Go statements (\<open>succeeds P m Q\<close>), its rules, and the locale
    \<open>beside_file\<close> of the conditions that do not look at the log file. Fetching: the copy and the
    extraction of an image, and what an image holds (\<open>image_catalogs\<close>). Fresh: the locale \<open>run_state\<close>,
    under which a run gets to its collection, interpreted on the cache with and without the catalogs.
    Reextract: an extraction after an extraction.
  \<^item> GoRegexp: regular expressions of \<open>regexp\<close>, matched by derivatives, with their languages. Reference:
    the parser of image references of library-go, down to its grammar and its digests, and
    \<open>DockerImageReference\<close>. Grammar: which texts it accepts, and that nothing of a text is lost.
  \<^item> V1alpha2, Metadata, MetadataDecode: pkg/api/v1alpha2, the configuration types, their enumerations, and
    how metadata is written as JSON and read back; locale \<open>codec\<close>, one interpretation for each type.
  \<^item> Example: a small index and an image library that serves it, for the witnesses.

  What is shown. Of the program: what a command line means (C30, C32), how the program ends on each
  (C40), and that the plain one gets the catalogs of an image into the cache (C31). Of a run: when it
  succeeds it has listed the catalogs as they stand in the cache, at any log level (C1); a first run succeeds and puts
  into the cache what the image holds (C2); the cache is used, by the next run and after any sequence
  of runs (C3, C37), and what is in it can be listed (C39); where a run writes, what it leaves
  of the logs, how often the image library is called (C4, C5, C6), what no sequence of runs changes (C38); how runs end (C7, C8); that a release never
  gets into the cache (C9); what the flags do and do not change (C10, C29, C36). Of the parts:
  extraction (C17 to C19, C21, C22; C19 is its specification), the readers (C23, C24), the retry loop
  (C25 to C28), the mirror and its report (C33, C34), the logger (C35), the API types (C11, C13 to
  C16), and the image references behind the names of catalogs (C12, C20).

  Parameters, for code that is not translated: \<open>gz\<close> gives for the bytes of a file what the gzip and
  tar readers deliver (an error, or entries and errors in order); \<open>image_lib\<close> holds the transports and
  the name parser of containers/image, its policies, which errors are worth a retry, and \<open>copy.Image\<close>,
  an arbitrary action on the world with its report and error; \<open>texts\<close> is what cobra prints as usage,
  help and completions; the gob encoder of the include configuration is one too. Hypotheses on them are named:
  \<open>library_writes R\<close> (the library writes below its destination and in the region \<open>R\<close>, where it keeps files
  of its own such as its database of blobs, keeps the files a tree and is not called by itself),
  \<open>trusted_lib\<close> (the same, for files of its own that are anywhere but in the log directory and the working
  directory), \<open>archives_plain\<close> (no name in an archive has \<open>..\<close> in it), \<open>copyable\<close> (the names parse and
  the trust policy loads) and \<open>delivers\<close> (\<open>copy.Image\<close> puts a given image into an empty directory).

  Bounds. The retry loop is a recursion on the retries that are left, the parsers and \<open>MkdirAll\<close> on
  their input, so all are total. The back-off is computed on 64-bit words. \<open>InlinedIndex_MarshalJSON\<close>
  is a partial function: the call never returns (in Go it exhausts the stack). The buffer of a report
  holds 4096 bytes, as \<open>bufio\<close> has it.

  Not modelled: symbolic links, permissions other than as refused system calls, time stamps of log
  lines, the making of help texts and completions, the insides of containers/image, gzip, tar and
  gob, invalid UTF-8 on input and documents nested deeper than 10000, the merging of slices when a key
  comes twice in a JSON object, the struct and field a JSON type error names and the details of a time
  that does not parse (times are those of the strict reader of Go 1.20 and later; the one before also
  takes an hour of one digit and a comma before the fraction), the difference between a nil and an
  empty list in a field with \<open>omitempty\<close>, and code that is commented out or unused constants.
\<close>

section \<open>The command\<close>

text \<open>
  C1: a run that succeeds has listed the catalogs. When a run of the command on an operator index
  leaves with code 0, at whatever level it logs, its cache holds the directory of the catalogs, and
  the last lines of its log are those catalogs as they stand in the cache, operator by operator in
  the order of the names: the name, then for each channel its entries with what they replace and
  skip, and each bundle, or the error of reading that catalog. These lines are there in full when
  the level logs what is at the level info (info, debug and trace); at any other level they are the
  errors alone, so that a run without an error in its catalogs prints nothing of them.
\<close>

theorem operator_run_lists_catalogs:
  assumes "accepted opts args" "hd args = ''operator''"
    and "command_run gz lib opts args w = (Ok 0, w')"
  shows "\<exists>files pre.
    os_ReadDir (operator_extract_dir (set_target ''operator'' opts) @ ''//configs'') w' = Ok files \<and>
    sorted files \<and>
    stderr w' = pre @ concat (map (operator_report w'
      (operator_extract_dir (set_target ''operator'' opts) @ ''//configs'')) files)"
proof -
  let ?t = "set_target (hd args) opts"
  obtain v where v: "Collector_Collect (the_collector gz lib ?t) v = (Ok (), w')"
    using command_Ok [OF assms(1,3)] by blast
  have "asks ''operator'' ?t" "\<not> asks ''release'' ?t"
    unfolding assms(2) by (simp_all add: asks_def)
  then show ?thesis
    using Collect_operator_report [OF v] os_ReadDir_sorted unfolding assms(2) by blast
qed

theorem operator_run_lists_catalogs_witness:
  "\<exists>w' files pre. command_run demo_gz demo_lib (demo_opts demo_ref) [''operator''] demo_world = (Ok 0, w') \<and>
    info_on w' \<and>
    os_ReadDir (operator_extract_dir (set_target ''operator'' (demo_opts demo_ref)) @ ''//configs'') w' =
      Ok files \<and>
    stderr w' = pre @ concat (map (operator_report w'
      (operator_extract_dir (set_target ''operator'' (demo_opts demo_ref)) @ ''//configs'')) files)"
proof -
  obtain w' where run: "command_run demo_gz demo_lib (demo_opts demo_ref) [''operator''] demo_world = (Ok 0, w')"
    using demo_run(1) by (metis prod.collapse)
  moreover have "info_on w'" using demo_run(2) run by (simp add: info_on_def)
  ultimately show ?thesis
    using operator_run_lists_catalogs [of "demo_opts demo_ref" "[''operator'']", OF demo_accepted _ run] by auto
qed

text \<open>
  C3: the cache is used. After a run of the command on an operator index that left with code 0,
  a second run with the same options calls the image library not once, whatever it does else.
\<close>

theorem second_operator_run_copies_nothing:
  assumes "accepted opts args" "hd args = ''operator''" "trusted_lib lib" "fs_wf w"
    and "plain (image_index_dir (gl_Reference (co_Global opts)))"
    and "\<And>q. faults w SysStat q \<noteq> Some ENOENT"
    and "command_run gz lib opts args w = (Ok 0, w')"
  shows "net (snd (command_run gz2 lib2 opts args w')) = net w'"
  using command_operator_cached [OF assms] command_stays_cached [OF assms(1,2,5), of gz2 lib2]
  by (simp add: keeps_def stays_cached_def)

theorem second_operator_run_copies_nothing_witness:
  "let w' = snd (command_run demo_gz demo_lib (demo_opts demo_ref) [''operator''] demo_world) in
   net (snd (command_run demo_gz demo_lib (demo_opts demo_ref) [''operator''] w')) = net w'"
proof -
  obtain w' where "command_run demo_gz demo_lib (demo_opts demo_ref) [''operator''] demo_world = (Ok 0, w')"
    using demo_run(1) by (metis prod.collapse)
  then show ?thesis
    using second_operator_run_copies_nothing [OF demo_accepted _ demo_lib_trusted demo_world_wf
        demo_ref_plain demo_no_faults] by simp
qed





text \<open>
  C6: a bound on the calls of the library: one run of the command calls \<open>copy.Image\<close> at most
  once more than \<open>--retry-times\<close> says.
\<close>

theorem command_calls_bounded:
  assumes "trusted_lib lib" "args \<noteq> []"
  shows "length (net (snd (command_run gz lib opts args w)))
    \<le> length (net w) + Suc (nat (re_MaxRetry (co_RetryOpts opts)))"
  by (rule command_calls [OF assms])

theorem command_calls_bounded_witness:
  "length (net (snd (command_run demo_gz demo_lib (demo_opts demo_ref) [''operator''] demo_world))) \<le> 1"
  using command_calls_bounded [OF demo_lib_trusted, of "[''operator'']" demo_gz "demo_opts demo_ref" demo_world]
  by (simp add: demo_opts_def new_CopyOptions_def demo_world_def)

text \<open>
  C7: every outcome is an exit code. With an argument the command never returns an error: it ends
  with code 0 or 1 (or in a panic); a command line that \<open>Validate\<close> rejects leaves with code 1
  and changes nothing at all, not even the log.
\<close>

theorem command_exit_codes:
  assumes "args \<noteq> []"
  shows "((\<exists>x. fst (command_run gz lib opts args w) = Panic x) \<or>
      fst (command_run gz lib opts args w) \<in> {Ok 0, Ok 1}) \<and>
    (accepted opts args \<or> command_run gz lib opts args w = (Ok 1, w))"
  using command_outcome [OF assms] command_run_rejected [OF _ assms] by blast

theorem command_exit_codes_witness:
  "command_run demo_gz demo_lib (demo_opts demo_ref) [''release''] demo_world = (Ok 1, demo_world)"
  using command_exit_codes [of "[''release'']" demo_gz demo_lib "demo_opts demo_ref" demo_world] demo_rejected
  by simp

text \<open>
  C8: the arguments and the reference decide: a command line is accepted exactly when it asks for
  an operator index and the reference contains \<open>operator\<close>, or for a release and the reference
  contains \<open>release\<close>; an empty reference is never accepted, and a reference without an argument
  panics.
\<close>

theorem Validate_accepts:
  "(fst (Validate ex args w) = Ok () \<longleftrightarrow> accepted (ex_Opts ex) args) \<and>
   (fst (Validate ex args w) = Panic x \<longleftrightarrow>
     gl_Reference (co_Global (ex_Opts ex)) \<noteq> [] \<and> args = [] \<and> x = IndexOutOfRange 0 0)"
  by (intro conjI Validate_Ok Validate_Panic)

text \<open>
  C9: a release that is not in the cache is never listed. Whatever the library delivers, as long as
  the names in its archives have no \<open>..\<close>, a run for a release whose cache directory is not there does
  not leave with code 0: the layers are extracted
  next to the working directory, and the file of the release is looked for in it.
\<close>

theorem cold_release_run_fails:
  assumes "accepted opts args" "hd args = ''release''" "trusted_lib lib" "archives_plain gz" "fs_wf w"
    and "plain (image_index_dir (gl_Reference (co_Global opts)))"
    and "entry w (place (cwd w) (copy_dir (set_target ''release'' opts) releaseImageExtractDir)) = None"
  shows "fst (command_run gz lib opts args w) \<noteq> Ok 0"
proof
  let ?t = "set_target (hd args) opts"
  assume "fst (command_run gz lib opts args w) = Ok 0"
  then obtain w' where "command_run gz lib opts args w = (Ok 0, w')" by (metis prod.collapse)
  then obtain v where v: "prelude w v" "Collector_Collect (the_collector gz lib ?t) v = (Ok (), w')"
    using command_Ok [OF assms(1)] by blast
  have cold: "entry v (place (cwd v) (copy_dir ?t releaseImageExtractDir)) = None"
    using prelude_release_cache [OF v(1)] assms(2,7) by simp
  have "asks ''release'' ?t" "\<not> asks ''operator'' ?t"
    unfolding assms(2) by (simp_all add: asks_def)
  then show False
    using release_never_collected [OF assms(3,4) _ in_working_dir_target _ _ _ cold] assms(5,6) v
    by (simp add: the_collector_def prelude_def keeps_wf_def)
qed

theorem cold_release_run_fails_witness:
  "fst (command_run demo_gz demo_lib (demo_opts ''q/release:v4'') [''release''] demo_world) \<noteq> Ok 0"
  by (rule cold_release_run_fails [OF _ _ demo_lib_trusted demo_gz_plain demo_world_wf])
    (simp_all add: accepted_def demo_release)

text \<open>
  C10: what the flags cannot change. The flags of the command have different names and defining
  them never panics; and whatever the user sets, images are copied under the policy that accepts
  anything, TLS certificates are not verified for either image, and there is no time limit.
\<close>

theorem flags_leave_policy_insecure:
  assumes "NewCliCmd env = Ok (flags, opts)" "ParseFlags flags argv opts = Ok st"
  shows "distinct (flag_names flags) \<and>
    GetPolicyContext lib (co_Global (ps_Opts st)) w = pl_NewPolicyContext lib InsecureAcceptAnything \<and>
    res_map sc_DockerInsecureSkipTLSVerify
      (image_NewSystemContext (co_Global (ps_Opts st)) (co_Shared (ps_Opts st)) img) = Ok (Some True) \<and>
    CommandTimeoutContext (co_Global (ps_Opts st)) w = None"
proof -
  have flags: "flags = command_flags" "opts = command_options env"
    using assms(1) by (simp_all add: NewCliCmd_Ok)
  obtain nvs where "set_flags flags nvs opts = Ok (ps_Opts st)"
    using ParseFlags_settings [OF assms(2)] by blast
  then obtain l r where "co_Global (ps_Opts st) = (co_Global opts)\<lparr>gl_LogLevel := l, gl_Reference := r\<rparr>"
    using set_flags_global by blast
  then have "gl_InsecurePolicy (co_Global (ps_Opts st))" "\<not> gl_TlsVerify (co_Global (ps_Opts st))"
    "gl_CommandTimeout (co_Global (ps_Opts st)) = 0"
    by (simp_all add: flags(2) command_options_def new_CopyOptions_def zero_GlobalOptions_def)
  then show ?thesis
    by (simp add: flags(1) command_flags_distinct GetPolicyContext_def image_NewSystemContext_def
        Global_NewSystemContext_def CommandTimeoutContext_def Let_def)
qed

theorem flags_leave_policy_insecure_witness:
  "\<exists>st. ParseFlags command_flags [''--dest-tls-verify'', ''operator'', ''--loglevel=debug''] (command_options []) = Ok st \<and>
    GetPolicyContext (il_Policy demo_lib) (co_Global (ps_Opts st)) demo_world =
      pl_NewPolicyContext (il_Policy demo_lib) InsecureAcceptAnything"
proof -
  obtain st where "ParseFlags command_flags [''--dest-tls-verify'', ''operator'', ''--loglevel=debug'']
      (command_options []) = Ok st"
    using demo_line by (auto simp: is_ok_iff)
  then show ?thesis using flags_leave_policy_insecure [OF NewCliCmd_Ok] by blast
qed

section \<open>Sequences of runs\<close>

text \<open>
  C37: the cache outlives everything. After a run on an operator index that left with code 0, come
  any sequence of runs for any kinds of images, with any options and any trusted libraries, whatever
  their outcomes: a later run for the same index still calls the image library not once.
\<close>

theorem session_copies_nothing:
  assumes "accepted opts args" "hd args = ''operator''" "trusted_lib lib" "fs_wf w"
    and "plain (image_index_dir (gl_Reference (co_Global opts)))"
    and "\<And>q. faults w SysStat q \<noteq> Some ENOENT"
    and "command_run gz lib opts args w = (Ok 0, w')" "session gz w' v"
  shows "net (snd (command_run gz2 lib2 opts args v)) = net v"
proof -
  have "cached (set_target (hd args) opts) v"
    using session_cached [OF assms(8) command_operator_cached [OF assms(1-7)]] .
  then show ?thesis using command_stays_cached [OF assms(1,2,5), of gz2 lib2]
    by (simp add: keeps_def stays_cached_def)
qed

theorem session_copies_nothing_witness:
  "let w1 = snd (command_run demo_gz demo_lib (demo_opts demo_ref) [''operator''] demo_world);
       w2 = snd (command_run demo_gz demo_lib (demo_opts ''q/release:v4'') [''release''] w1)
   in net (snd (command_run demo_gz demo_lib (demo_opts demo_ref) [''operator''] w2)) = net w2"
proof -
  obtain w1 where run: "command_run demo_gz demo_lib (demo_opts demo_ref) [''operator''] demo_world = (Ok 0, w1)"
    using demo_run(1) by (metis prod.collapse)
  let ?w2 = "snd (command_run demo_gz demo_lib (demo_opts ''q/release:v4'') [''release''] w1)"
  have "session demo_gz w1 ?w2"
    by (rule session_once [OF demo_lib_trusted]) (simp_all add: demo_release)
  then show ?thesis
    using session_copies_nothing [OF demo_accepted _ demo_lib_trusted demo_world_wf demo_ref_plain
        demo_no_faults run] run by simp
qed

text \<open>
  C38: what no sequence of runs changes. The file system stays a tree, the working directory and
  what the system refuses stay as they are, and the directory of the catalogs of an index that is
  in the cache stays there, for every index.
\<close>

theorem session_invariant:
  assumes "session gz w v" "fs_wf w"
  shows "fs_wf v \<and> cwd v = cwd w \<and> faults v = faults w \<and>
    (\<forall>opts. entry w (place (cwd w) (operator_extract_dir (set_target ''operator'' opts))) = Some Dir \<longrightarrow>
       entry v (place (cwd w) (operator_extract_dir (set_target ''operator'' opts))) = Some Dir)"
  using session_keeps_cache [OF assms(1), of "cwd w" "''operator''"] session_wf [OF assms(1)] assms(2)
  by (simp add: keeps_dir_def keeps_wf_def)

theorem session_invariant_witness:
  "fs_wf (snd (command_run demo_gz demo_lib (demo_opts ''q/release:v4'') [''release''] demo_world))"
proof -
  have "session demo_gz demo_world (snd (command_run demo_gz demo_lib (demo_opts ''q/release:v4'') [''release''] demo_world))"
    by (rule session_once [OF demo_lib_trusted]) (simp_all add: demo_release)
  then show ?thesis using session_invariant demo_world_wf by blast
qed

text \<open>
  C39: what is in the cache can be listed. With the catalogs of an index in the cache, no system
  call refused and no file in the place of a directory of the cache, a run for that index leaves
  with code 0, whatever the image library would do and whatever is left of earlier logs; and the
  catalogs are in the cache as before.
\<close>

theorem cached_run_succeeds:
  assumes "accepted opts args" "hd args = ''operator''" "calm w"
    and "cached_tree N (cwd w) (image_comps opts) (entry w)"
    and "plain (image_index_dir (gl_Reference (co_Global opts)))"
  shows "\<exists>w'. command_run gz lib opts args w = (Ok 0, w') \<and>
    (\<forall>p. entry w' (extract_place (cwd w) (image_comps opts) @ p) = N p)"
  using cached_run [OF assms] unfolding at_dir_def extracted_tree_def by blast

theorem cached_run_succeeds_witness:
  "let w1 = snd (command_run demo_gz demo_lib (demo_opts demo_ref) [''operator''] demo_world)
   in fst (command_run demo_gz (tiny_lib [] None) (demo_opts demo_ref) [''operator''] w1) = Ok 0"
proof -
  obtain N where N: "image_catalogs demo_gz demo_img = Some N" "N [''configs''] = Some Dir"
    by (rule demo_catalogs)
  obtain w1 where w1: "command_run demo_gz demo_lib (demo_opts demo_ref) [''operator''] demo_world = (Ok 0, w1)"
    "at_dir [''home''] (extracted_tree N [''home''] (image_comps (demo_opts demo_ref))) w1"
    using first_run [OF demo_accepted _ demo_ref_plain demo_first_run(1,2) _ N] demo_first_run(3)
    by (auto simp: demo_world_def)
  have dirs: "no_file_above q (entry w1)"
    if "q \<in> {[''home'', ''working-dir'', ''operator-images''], [''home'', ''working-dir'', ''release-images'']}" for q
  proof -
    have "entry w1 q = Some Dir" using demo_run(4) [OF that] w1(1) by simp
    then have "entry w1 r = Some Dir" if "prefix r q" for r
      using calm_up [of w1 q r] w1(2) that by (cases "r = q") (auto simp: at_dir_def)
    then show ?thesis by (simp add: no_file_above_iff)
  qed
  then have "cached_tree N (cwd w1) (image_comps (demo_opts demo_ref)) (entry w1)"
    using w1(2) N(2) by (simp add: cached_tree_def at_dir_def)
  then show ?thesis
    using cached_run_succeeds [OF demo_accepted _ _ _ demo_ref_plain, of w1 N demo_gz "tiny_lib [] None"] w1
    by (auto simp: at_dir_def)
qed

section \<open>The program\<close>

text \<open>
  C31: from the command line to the catalogs. \<open>list operator --image-index <ref> --loglevel <level>\<close>,
  in a world where nothing is refused and no file is in the way, with a library that delivers a
  readable image for the reference and no image in the cache, ends with exit code 0, and the
  cache has exactly the catalogs the image holds.
\<close>

theorem program_gets_catalogs:
  assumes "Contains ref ''operator''" "plain (image_index_dir ref)" "calm w"
    and "fresh_tree (cwd w) (image_comps (list_options env ref l)) (entry w)"
    and "serves gz lib (set_target ''operator'' (list_options env ref l)) img"
    and "image_catalogs gz img = Some N" "N [''configs''] = Some Dir"
  shows "\<exists>w'. main_program texts gz lib env [''operator'', ''--image-index'', ref, ''--loglevel'', l] w = (Ok 0, w') \<and>
    (\<forall>p. entry w' (extract_place (cwd w) (image_comps (list_options env ref l)) @ p) = N p)"
proof -
  let ?v = "w\<lparr>level := ''info''\<rparr>" and ?opts = "list_options env ref l"
  have ref: "gl_Reference (co_Global ?opts) = ref" by (simp add: list_options_def)
  have entry: "entry ?v = entry w" by (simp add: entry_def fun_eq_iff)
  then have calm: "calm ?v" using assms(3) by (simp add: calm_def fs_wf_def)
  have "accepted ?opts [''operator'']" using assms(1) by (simp add: accepted_def ref)
  from first_run [OF this _ _ calm _ _ assms(6,7)] assms(2,4,5)
  have "\<exists>w'. command_run gz lib ?opts [''operator''] ?v = (Ok 0, w') \<and>
      (\<forall>p. entry w' (extract_place (cwd w) (image_comps ?opts) @ p) = N p)"
    unfolding at_dir_def extracted_tree_def entry ref by simp blast
  then show ?thesis by (simp add: list_main completion_names_def)
qed

theorem program_gets_catalogs_witness:
  "\<forall>texts. \<exists>w'. main_program texts demo_gz demo_lib [] [''operator'', ''--image-index'', demo_ref, ''--loglevel'', ''info'']
      demo_world = (Ok 0, w') \<and>
    entry w' [''home'', ''working-dir'', ''hold-operators'', ''operator-index'', ''v4'', ''configs'', ''foo'', ''catalog.json''] =
      Some (File demo_catalog)"
proof -
  obtain N where N: "image_catalogs demo_gz demo_img = Some N" "N [''configs''] = Some Dir"
    "N [''configs'', ''foo'', ''catalog.json''] = Some (File demo_catalog)"
    by (rule demo_catalogs)
  have opts: "list_options [] demo_ref ''info'' = demo_opts demo_ref"
    by (simp add: list_options_def command_options_def demo_opts_def new_CopyOptions_def zero_GlobalOptions_def)
  have "Contains demo_ref ''operator''" "plain (image_index_dir demo_ref)"
    using demo_ref_plain by (simp_all add: demo_ref_def demo_opts_def new_CopyOptions_def)
  from program_gets_catalogs [OF this demo_first_run(1), of "[]" "''info''", unfolded opts,
      OF demo_first_run(2,3) N(1,2)] N(3)
  show ?thesis unfolding demo_comps by (fastforce simp: extract_place_def demo_world_def)
qed

text \<open>
  C40: how the program ends. A call for shell completion prints the completions; a command line that
  does not parse, or has no argument, leaves with code 1 before anything is done, and its error is
  printed twice, by cobra with the usage and by \<open>main\<close>; \<open>--help\<close>, and else \<open>--version\<close>, print their
  text and leave with code 0; every other line runs the command with its options and arguments. The
  program leaves with code 0 or 1 or panics.
\<close>

theorem main_outcomes:
  "main_program texts gz lib env argv w =
     (let v = w\<lparr>level := ''info''\<rparr>;
          fails = (\<lambda>usage msg. (Ok 1, v\<lparr>stderr := stderr w @ [''Error: '' @ msg] @ usage @
            [error_line (''[main] '' @ msg @ '' '')]\<rparr>));
          prints = (\<lambda>out err. (Ok 0, v\<lparr>stdout := stdout w @ out, stderr := stderr w @ err\<rparr>));
          none = ''requires at least 1 arg(s), only received 0'' in
      case Find command_flags argv of
        Some a \<Rightarrow> if a = [] then fails (ct_CompleteUsage texts) none
          else prints (fst (ct_Completions texts a)) (snd (ct_Completions texts a))
      | None \<Rightarrow>
          (case ParseFlags command_flags argv (command_options env) of
             Err e \<Rightarrow> fails (ct_Usage texts) (err_text e)
           | Panic x \<Rightarrow> (Panic x, v)
           | Ok st \<Rightarrow>
               if ps_Help st then prints (ct_Help texts) []
               else if ps_Version st then prints [''list version v0.0.1''] []
               else if ps_Args st = [] then fails (ct_Usage texts) none
               else command_run gz lib (ps_Opts st) (ps_Args st) v)) \<and>
   ((\<exists>x. fst (main_program texts gz lib env argv w) = Panic x) \<or>
      fst (main_program texts gz lib env argv w) \<in> {Ok 0, Ok 1})"
proof -
  let ?v = "w\<lparr>level := ''info''\<rparr>"
  show ?thesis
  proof (cases "Find command_flags argv")
    case (Some a)
    then show ?thesis by (simp add: main_program_run complete_cases Let_def)
  next
    case find: None
    show ?thesis
    proof (cases "ParseFlags command_flags argv (command_options env)")
      case (Ok st)
      have "ps_Args st \<noteq> [] \<Longrightarrow> (\<exists>x. fst (command_run gz lib (ps_Opts st) (ps_Args st) ?v) = Panic x) \<or>
          fst (command_run gz lib (ps_Opts st) (ps_Args st) ?v) \<in> {Ok 0, Ok 1}"
        by (rule command_outcome)
      then show ?thesis
        by (simp add: main_program_run find execute_cases Ok ended_run Let_def)
    qed (simp_all add: main_program_run find execute_cases Let_def)
  qed
qed

theorem main_outcomes_witness:
  "\<forall>texts gz lib env. main_program texts gz lib env [''operator'', ''--image'', ''--help''] demo_world =
    (Ok 1, demo_world\<lparr>level := ''info'', stderr := [''Error: unknown flag: --image''] @ ct_Usage texts @
      [error_line ''[main] unknown flag: --image '']\<rparr>)"
proof (intro allI)
  fix texts gz lib env
  have "Find command_flags [''operator'', ''--image'', ''--help''] = None"
    by code_simp
  moreover have "ParseFlags command_flags [''operator'', ''--image'', ''--help''] (command_options env) =
      Err (ErrorString ''unknown flag: --image'')"
    by (simp add: ParseFlags_def parseLongArg_def formal_def find_flag_def command_flags_def image_flags_def
        dest_flags_def docker_flags_def Errorf_def fmt_verb_def fmt_extra_def Let_def)
  ultimately show "main_program texts gz lib env [''operator'', ''--image'', ''--help''] demo_world =
    (Ok 1, demo_world\<lparr>level := ''info'', stderr := [''Error: unknown flag: --image''] @ ct_Usage texts @
      [error_line ''[main] unknown flag: --image '']\<rparr>)"
    using main_outcomes [of texts gz lib env "[''operator'', ''--image'', ''--help'']" demo_world]
    by (simp add: demo_world_def)
qed

end
